(* ===== verification/Go_Prelude.thy ===== *)
theory Go_Prelude
  imports Complex_Main
begin

text \<open>
  The parts of Go that every component of spinbox uses: error values with wrapping
  (\<open>errors.New\<close>, \<open>fmt.Errorf\<close> with \<open>%w\<close>, \<open>errors.Is\<close>), \<open>time.Time\<close> and
  \<open>time.Duration\<close>, signed 64-bit arithmetic with its wrap-around written out on \<open>int\<close>,
  truncating division, and \<open>float64\<close> with an explicit rounding function.
  The collection \<open>go_simps\<close> holds the rewrite rules the component proofs share.
\<close>

named_theorems go_simps

subsection \<open>Errors\<close>

text \<open>
  An error is a sentinel (\<open>errors.New\<close>, the \<open>errdefs\<close> values), a \<open>syscall.Errno\<close>, a
  formatted message, a message that wraps another error, or an error with a message of its own that
  matches any of several errors (\<open>errors.Join\<close>, a type with an \<open>Is\<close> method). The format arguments that
  only decorate the text are kept as the literal part of the message.
\<close>

datatype goerr =
    Sentinel string
  | Errno string
  | Errorf string
  | WrapErr string goerr
  | MultiErr string "goerr list"

fun errMsg :: "goerr \<Rightarrow> string" where
  "errMsg (Sentinel s) = s"
| "errMsg (Errno s) = s"
| "errMsg (Errorf s) = s"
| "errMsg (WrapErr s e) = s @ '': '' @ errMsg e"
| "errMsg (MultiErr s es) = s"

fun errIs :: "goerr \<Rightarrow> goerr \<Rightarrow> bool" where
  "errIs (WrapErr s e) t = (WrapErr s e = t \<or> errIs e t)"
| "errIs (MultiErr s es) t = (MultiErr s es = t \<or> list_ex (\<lambda>e. errIs e t) es)"
| "errIs e t = (e = t)"

abbreviation ErrNotFound :: goerr where
  "ErrNotFound \<equiv> Sentinel ''not found''"

abbreviation ErrAlreadyExists :: goerr where
  "ErrAlreadyExists \<equiv> Sentinel ''already exists''"

abbreviation ErrFailedPrecondition :: goerr where
  "ErrFailedPrecondition \<equiv> Sentinel ''failed precondition''"

abbreviation ErrUnavailable :: goerr where
  "ErrUnavailable \<equiv> Sentinel ''unavailable''"

abbreviation ErrNotImplemented :: goerr where
  "ErrNotImplemented \<equiv> Sentinel ''not implemented''"

abbreviation ErrInvalidArgument :: goerr where
  "ErrInvalidArgument \<equiv> Sentinel ''invalid argument''"

lemma errIs_refl [simp]: "errIs e e"
  by (cases e) auto

subsection \<open>Time\<close>

text \<open>
  A \<open>time.Time\<close> is the number of nanoseconds since Go's zero time, so \<open>IsZero\<close> is a
  comparison with 0; a \<open>time.Duration\<close> is a number of nanoseconds. \<open>t.Sub(u)\<close>
  saturates at the bounds of \<open>int64\<close>.
\<close>

type_synonym go_time = int
type_synonym duration = int

definition maxInt64 :: int where
  "maxInt64 = 9223372036854775807"

definition minInt64 :: int where
  "minInt64 = - 9223372036854775808"

definition timeIsZero :: "go_time \<Rightarrow> bool" where
  "timeIsZero t \<longleftrightarrow> t = 0"

definition timeSub :: "go_time \<Rightarrow> go_time \<Rightarrow> duration" where
  "timeSub t u = max minInt64 (min maxInt64 (t - u))"

abbreviation Millisecond :: duration where
  "Millisecond \<equiv> 1000000"

abbreviation Second :: duration where
  "Second \<equiv> 1000000000"

lemma timeSub_ge_iff:
  "d \<le> maxInt64 \<Longrightarrow> minInt64 < d \<Longrightarrow> timeSub t u \<ge> d \<longleftrightarrow> t - u \<ge> d"
  by (auto simp: timeSub_def maxInt64_def minInt64_def)

lemma timeSub_less_iff:
  "d \<le> maxInt64 \<Longrightarrow> minInt64 < d \<Longrightarrow> timeSub t u < d \<longleftrightarrow> t - u < d"
  by (auto simp: timeSub_def maxInt64_def minInt64_def)

lemma timeSub_pos_iff: "timeSub t u \<le> 0 \<longleftrightarrow> t \<le> u"
  by (auto simp: timeSub_def maxInt64_def minInt64_def)

subsection \<open>Signed 64-bit integers\<close>

definition wrap64 :: "int \<Rightarrow> int" where
  "wrap64 x = (x + 9223372036854775808) mod 18446744073709551616 - 9223372036854775808"

definition in64 :: "int \<Rightarrow> bool" where
  "in64 x \<longleftrightarrow> minInt64 \<le> x \<and> x \<le> maxInt64"

lemma wrap64_id [go_simps]: "in64 x \<Longrightarrow> wrap64 x = x"
  by (simp add: wrap64_def in64_def minInt64_def maxInt64_def)

lemma in64_wrap64 [simp]: "in64 (wrap64 x)"
proof -
  have "0 \<le> (x + 9223372036854775808) mod 18446744073709551616"
    and "(x + 9223372036854775808) mod 18446744073709551616 < 18446744073709551616"
    by simp_all
  then show ?thesis
    by (simp add: wrap64_def in64_def minInt64_def maxInt64_def)
qed

text \<open>Go's integer division truncates towards zero; the remainder has the dividend's sign.\<close>

definition quot :: "int \<Rightarrow> int \<Rightarrow> int" where
  "quot a b = sgn a * sgn b * (\<bar>a\<bar> div \<bar>b\<bar>)"

definition rmod :: "int \<Rightarrow> int \<Rightarrow> int" where
  "rmod a b = a - quot a b * b"

lemma quot_nonneg [go_simps]: "0 \<le> a \<Longrightarrow> 0 < b \<Longrightarrow> quot a b = a div b"
  by (cases "a = 0") (simp_all add: quot_def)

lemma rmod_nonneg [go_simps]: "0 \<le> a \<Longrightarrow> 0 < b \<Longrightarrow> rmod a b = a mod b"
  by (simp add: rmod_def quot_nonneg minus_div_mult_eq_mod)

subsection \<open>float64\<close>

text \<open>
  A \<open>float64\<close> is a rational, an infinity or not-a-number. The operations take the
  rounding function \<open>rnd\<close> (from exact results to the nearest representable value, or
  to an infinity on overflow) as an argument: no theorem depends on how results are
  rounded. The sign of a zero is not modelled; the code divides by converted integers
  only, whose zero is positive.
\<close>

datatype f64 = Fin rat | PInf | NInf | NaN

type_synonym rounding = "rat \<Rightarrow> f64"

fun fLess :: "f64 \<Rightarrow> f64 \<Rightarrow> bool" where
  "fLess NaN _ = False"
| "fLess _ NaN = False"
| "fLess PInf _ = False"
| "fLess _ NInf = False"
| "fLess (Fin a) (Fin b) = (a < b)"
| "fLess NInf _ = True"
| "fLess _ PInf = True"

definition fLeq :: "f64 \<Rightarrow> f64 \<Rightarrow> bool" where
  "fLeq a b \<longleftrightarrow> fLess a b \<or> (a = b \<and> a \<noteq> NaN)"

definition fSign :: "rat \<Rightarrow> f64" where
  "fSign a = (if a > 0 then PInf else if a < 0 then NInf else NaN)"

fun fMul :: "rounding \<Rightarrow> f64 \<Rightarrow> f64 \<Rightarrow> f64" where
  "fMul rnd (Fin a) (Fin b) = rnd (a * b)"
| "fMul rnd NaN _ = NaN"
| "fMul rnd _ NaN = NaN"
| "fMul rnd (Fin a) PInf = fSign a"
| "fMul rnd (Fin a) NInf = fSign (- a)"
| "fMul rnd PInf (Fin b) = fSign b"
| "fMul rnd NInf (Fin b) = fSign (- b)"
| "fMul rnd PInf PInf = PInf"
| "fMul rnd NInf NInf = PInf"
| "fMul rnd PInf NInf = NInf"
| "fMul rnd NInf PInf = NInf"

fun fDiv :: "rounding \<Rightarrow> f64 \<Rightarrow> f64 \<Rightarrow> f64" where
  "fDiv rnd (Fin a) (Fin b) = (if b = 0 then fSign a else rnd (a / b))"
| "fDiv rnd NaN _ = NaN"
| "fDiv rnd _ NaN = NaN"
| "fDiv rnd (Fin a) _ = Fin 0"
| "fDiv rnd PInf (Fin b) = (if b < 0 then NInf else PInf)"
| "fDiv rnd NInf (Fin b) = (if b < 0 then PInf else NInf)"
| "fDiv rnd _ _ = NaN"

definition fOfInt :: "rounding \<Rightarrow> int \<Rightarrow> f64" where
  "fOfInt rnd n = rnd (rat_of_int n)"

text \<open>
  \<open>int64(x)\<close> truncates towards zero; out of range, and for infinities and
  not-a-number, amd64 (the only target of the build) gives the least \<open>int64\<close>.
\<close>

definition truncRat :: "rat \<Rightarrow> int" where
  "truncRat r = (if 0 \<le> r then \<lfloor>r\<rfloor> else - \<lfloor>- r\<rfloor>)"

fun fToInt64 :: "f64 \<Rightarrow> int" where
  "fToInt64 (Fin r) = (if in64 (truncRat r) then truncRat r else minInt64)"
| "fToInt64 _ = minInt64"

lemma in64_fToInt64 [simp]: "in64 (fToInt64 x)"
  by (cases x) (simp_all add: in64_def minInt64_def maxInt64_def)

subsection \<open>Lists\<close>

lemma fold_invariant_list:
  "P s \<Longrightarrow> (\<And>x s. x \<in> set xs \<Longrightarrow> P s \<Longrightarrow> P (f x s)) \<Longrightarrow> P (fold f xs s)"
  by (induction xs arbitrary: s) auto

lemma filter_drop_all: "\<forall>x \<in> set xs. \<not> P x \<Longrightarrow> filter P (drop n xs) = []"
  by (auto simp: filter_empty_conv dest: in_set_dropD)

subsection \<open>Panics and channels\<close>

text \<open>
  A call that may panic returns \<open>Ret\<close> of its result or \<open>Panic\<close>; \<open>bindGo\<close> sequences two
  such calls. A channel that only signals is nil, open or closed, and closing a channel
  that is not open panics.
\<close>

datatype 'a go = Ret 'a | Panic string

fun bindGo :: "'a go \<Rightarrow> ('a \<Rightarrow> 'b go) \<Rightarrow> 'b go" where
  "bindGo (Ret x) f = f x"
| "bindGo (Panic m) f = Panic m"

lemma bindGo_Ret_iff: "bindGo x f = Ret y \<longleftrightarrow> (\<exists>a. x = Ret a \<and> f a = Ret y)"
  by (cases x) auto

text \<open>A call that may also not return: \<open>None\<close>, or what it returns.\<close>

type_synonym 'a run = "'a go option"

fun bindRun :: "'a run \<Rightarrow> ('a \<Rightarrow> 'b run) \<Rightarrow> 'b run" where
  "bindRun None f = None"
| "bindRun (Some (Panic m)) f = Some (Panic m)"
| "bindRun (Some (Ret x)) f = f x"

abbreviation returns :: "'a \<Rightarrow> 'a run" where
  "returns x \<equiv> Some (Ret x)"

lemma bindRun_returns_iff: "bindRun x f = returns y \<longleftrightarrow> (\<exists>a. x = returns a \<and> f a = returns y)"
  by (cases "(x, f)" rule: bindRun.cases) auto

datatype gochan = ChanNil | ChanOpen | ChanClosed

fun closeChan :: "gochan \<Rightarrow> gochan go" where
  "closeChan ChanOpen = Ret ChanClosed"
| "closeChan ChanClosed = Panic ''close of closed channel''"
| "closeChan ChanNil = Panic ''close of nil channel''"

subsection \<open>Interface values\<close>

text \<open>
  A value of an interface type is nil, holds a nil pointer of a concrete type (which does not
  compare equal to nil, and whose methods run until they dereference it), or holds an object.
\<close>

datatype 'a iface = NilIface | TypedNil | Iface 'a

end
