(* ===== verification/Contracts.thy ===== *)
theory Contracts
  imports Go_Prelude
begin

text \<open>
  The interfaces that several components of spinbox share, as locales. Each locale fixes
  the operations a client calls and assumes the laws the provider promises; the lemmas a
  client needs are proved once inside it. The component theories interpret them on the
  models of the code.

  \<^item> \<open>op_machine\<close>: operations that keep an invariant; \<open>ranked_machine\<close> adds a rank no
    operation lowers (a life cycle that only moves forward).
  \<^item> \<open>cas_cell\<close>: an atomic cell with load, store and compare-and-swap
    (\<open>sync/atomic\<close>), as the shim's state machine and the VM instance use it.
  \<^item> \<open>slot_pool\<close>: a finite pool of identifiers with search, take and give back, as the
    memory-hotplug slots and the vsock CID leases use it.
\<close>

subsection \<open>Machines with an invariant\<close>

locale op_machine =
  fixes exec :: "'op \<Rightarrow> 's \<Rightarrow> 's"
    and inv :: "'s \<Rightarrow> bool"
  assumes inv_exec: "inv s \<Longrightarrow> inv (exec x s)"
begin

lemma inv_run: "inv s \<Longrightarrow> inv (fold exec xs s)"
  by (rule fold_invariant_list) (auto intro: inv_exec)

end

locale ranked_machine = op_machine +
  fixes rank :: "'s \<Rightarrow> nat"
  assumes rank_exec: "inv s \<Longrightarrow> rank s \<le> rank (exec x s)"
begin

lemma rank_run: "inv s \<Longrightarrow> rank s \<le> rank (fold exec xs s)"
proof (induction xs arbitrary: s)
  case Nil
  then show ?case by simp
next
  case (Cons x xs)
  have "rank s \<le> rank (exec x s)"
    by (rule rank_exec [OF Cons.prems])
  also have "\<dots> \<le> rank (fold exec xs (exec x s))"
    by (rule Cons.IH [OF inv_exec [OF Cons.prems]])
  finally show ?case by simp
qed

lemma top_stays: "inv s \<Longrightarrow> (\<And>t. inv t \<Longrightarrow> rank t \<le> rank s) \<Longrightarrow> rank (fold exec xs s) = rank s"
  using rank_run inv_run by (meson le_antisym)

end

subsection \<open>Atomic cells\<close>

locale cas_cell =
  fixes load :: "'s \<Rightarrow> 'v"
    and store :: "'v \<Rightarrow> 's \<Rightarrow> 's"
    and cas :: "'v \<Rightarrow> 'v \<Rightarrow> 's \<Rightarrow> bool \<times> 's"
  assumes load_store: "load (store v s) = v"
    and store_store: "store v (store w s) = store v s"
    and store_load: "store (load s) s = s"
    and cas_eq: "cas old new s = (if load s = old then (True, store new s) else (False, s))"
begin

lemma cas_load: "load (snd (cas old new s)) = (if load s = old then new else load s)"
  by (simp add: cas_eq load_store)

lemma cas_wins: "fst (cas old new s) \<longleftrightarrow> load s = old"
  by (simp add: cas_eq)

lemma cas_frame: "\<not> fst (cas old new s) \<Longrightarrow> snd (cas old new s) = s"
  by (simp add: cas_eq split: if_splits)

text \<open>
  Of any number of attempts at the same transition, with no other writer in between,
  at most the first one wins.
\<close>

lemma cas_once:
  "old \<noteq> new \<Longrightarrow> \<not> fst (cas old new (snd (cas old new s)))"
  by (simp add: cas_eq load_store)

lemma cas_attempts:
  assumes "old \<noteq> new"
  shows "((\<lambda>s. snd (cas old new s)) ^^ Suc n) s = snd (cas old new s)"
proof (induction n)
  case 0
  show ?case by simp
next
  case (Suc n)
  then show ?case
    using assms by (simp add: cas_eq load_store split: if_splits)
qed

end

subsection \<open>Pools of identifiers\<close>

text \<open>
  \<open>used\<close> is the set of identifiers in use and \<open>capacity\<close> the set the pool may hand
  out. A search that succeeds gives an identifier of the pool that is not in use.
\<close>

locale slot_pool =
  fixes inv :: "'s \<Rightarrow> bool"
    and used :: "'s \<Rightarrow> 'k set"
    and capacity :: "'s \<Rightarrow> 'k set"
    and find :: "'s \<Rightarrow> 'k option"
    and take :: "'k \<Rightarrow> 's \<Rightarrow> 's"
    and give :: "'k \<Rightarrow> 's \<Rightarrow> 's"
  assumes find_free: "inv s \<Longrightarrow> find s = Some k \<Longrightarrow> k \<in> capacity s \<and> k \<notin> used s"
    and find_full: "inv s \<Longrightarrow> find s = None \<Longrightarrow> capacity s \<subseteq> used s"
    and used_take: "inv s \<Longrightarrow> find s = Some k \<Longrightarrow> used (take k s) = insert k (used s)"
    and used_give: "inv s \<Longrightarrow> used (give k s) = used s - {k}"
    and capacity_take: "inv s \<Longrightarrow> find s = Some k \<Longrightarrow> capacity (take k s) = capacity s"
    and capacity_give: "inv s \<Longrightarrow> capacity (give k s) = capacity s"
    and inv_take: "inv s \<Longrightarrow> find s = Some k \<Longrightarrow> inv (take k s)"
    and inv_give: "inv s \<Longrightarrow> inv (give k s)"
    and finite_capacity: "inv s \<Longrightarrow> finite (capacity s)"
    and used_capacity: "inv s \<Longrightarrow> used s \<subseteq> capacity s"
begin

lemma finite_used: "inv s \<Longrightarrow> finite (used s)"
  using used_capacity finite_capacity finite_subset by blast

lemma card_used_take:
  "inv s \<Longrightarrow> find s = Some k \<Longrightarrow> card (used (take k s)) = Suc (card (used s))"
  using find_free finite_used used_take by fastforce

lemma card_used_le: "inv s \<Longrightarrow> card (used s) \<le> card (capacity s)"
  by (simp add: card_mono finite_capacity used_capacity)

text \<open>The search fails exactly when every identifier of the pool is in use.\<close>

lemma find_None_iff: "inv s \<Longrightarrow> find s = None \<longleftrightarrow> used s = capacity s"
proof
  assume "inv s" and "find s = None"
  then show "used s = capacity s"
    using find_full used_capacity by blast
next
  assume s: "inv s" and eq: "used s = capacity s"
  show "find s = None"
  proof (rule ccontr)
    assume "find s \<noteq> None"
    then obtain k where "find s = Some k" by auto
    with s eq find_free show False by blast
  qed
qed

text \<open>Taking the identifier the search found and giving it back restores the pool.\<close>

lemma take_give:
  "inv s \<Longrightarrow> find s = Some k \<Longrightarrow> used (give k (take k s)) = used s"
  using find_free used_take used_give inv_take by auto

end

end
