(* ===== verification/Go_Loops.thy ===== *)
theory Go_Loops
  imports Contracts
begin

text \<open>
  A Go \<open>for\<close> loop as the iteration of its body: the body maps the loop's state to \<open>Inl\<close> of the
  next state (\<open>continue\<close>, or the end of the body) or to \<open>Inr\<close> of what the function returns. A loop
  that is never left is \<open>None\<close>. The locale \<open>bounded_loop\<close> is the contract of a loop that
  ends: an invariant, and a bound that every iteration lowers.
\<close>

partial_function (option) forLoop :: "('s \<Rightarrow> 's + 'r) \<Rightarrow> 's \<Rightarrow> 'r option" where
  "forLoop body s = (case body s of Inl s' \<Rightarrow> forLoop body s' | Inr r \<Rightarrow> Some r)"

text \<open>What holds of every state and is kept by the body holds of what the loop returns.\<close>

lemma forLoop_post:
  fixes body :: "'s \<Rightarrow> 's + 'r"
  assumes returns: "forLoop body s = Some r" and start: "P s"
    and keep: "\<And>s s'. P s \<Longrightarrow> body s = Inl s' \<Longrightarrow> P s'"
    and post: "\<And>s r. P s \<Longrightarrow> body s = Inr r \<Longrightarrow> Q r"
  shows "Q r"
proof -
  have "body = body \<longrightarrow> P s \<longrightarrow> Q r"
    using returns
  proof (rule forLoop.raw_induct [where P = "\<lambda>b s r. b = body \<longrightarrow> P s \<longrightarrow> Q r", rotated])
    fix loop :: "('s \<Rightarrow> 's + 'r) \<Rightarrow> 's \<Rightarrow> 'r option" and b s r
    assume ih: "\<And>b s r. loop b s = Some r \<Longrightarrow> b = body \<longrightarrow> P s \<longrightarrow> Q r"
      and run: "(case b s of Inl s' \<Rightarrow> loop b s' | Inr r \<Rightarrow> Some r) = Some r"
    show "b = body \<longrightarrow> P s \<longrightarrow> Q r"
    proof (intro impI)
      assume "b = body" "P s"
      with ih run keep post show "Q r"
        by (cases "body s") auto
    qed
  qed
  with start show ?thesis by simp
qed

locale bounded_loop =
  fixes body :: "'s \<Rightarrow> 's + 'r"
    and inv :: "'s \<Rightarrow> bool"
    and bound :: "'s \<Rightarrow> nat"
  assumes inv_body: "inv s \<Longrightarrow> body s = Inl s' \<Longrightarrow> inv s'"
    and bound_body: "inv s \<Longrightarrow> body s = Inl s' \<Longrightarrow> bound s' < bound s"
begin

lemma returns: "inv s \<Longrightarrow> \<exists>r. forLoop body s = Some r"
proof (induction "bound s" arbitrary: s rule: less_induct)
  case less
  show ?case
  proof (cases "body s")
    case (Inl s')
    with less.prems have "\<exists>r. forLoop body s' = Some r"
      using less.hyps inv_body bound_body by blast
    with Inl show ?thesis by (simp add: forLoop.simps)
  next
    case (Inr r)
    then show ?thesis by (simp add: forLoop.simps)
  qed
qed

lemma returns_post:
  assumes "inv s" "\<And>s r. inv s \<Longrightarrow> body s = Inr r \<Longrightarrow> Q r"
  shows "\<exists>r. forLoop body s = Some r \<and> Q r"
proof -
  obtain r where r: "forLoop body s = Some r" using returns [OF assms(1)] by blast
  moreover have "Q r"
    using r assms(1) inv_body assms(2) by (rule forLoop_post)
  ultimately show ?thesis by blast
qed

end

end
