(* ===== verification/Go_Strings.thy ===== *)
theory Go_Strings
  imports Go_Prelude
begin

text \<open>
  The string functions of Go's standard library that spinbox calls: \<open>strings.HasPrefix\<close>,
  \<open>HasSuffix\<close>, \<open>CutPrefix\<close>, \<open>Contains\<close>, \<open>Split\<close>, \<open>SplitN\<close>, \<open>Join\<close>, \<open>TrimSpace\<close>,
  \<open>strconv.Itoa\<close> and \<open>Atoi\<close>. A Go string is a list of bytes (\<open>char\<close>).
\<close>

subsection \<open>Searching and cutting\<close>

definition hasPrefix :: "string \<Rightarrow> string \<Rightarrow> bool" where
  "hasPrefix s p \<longleftrightarrow> take (length p) s = p"

definition hasSuffix :: "string \<Rightarrow> string \<Rightarrow> bool" where
  "hasSuffix s p \<longleftrightarrow> length p \<le> length s \<and> drop (length s - length p) s = p"

definition cutPrefix :: "string \<Rightarrow> string \<Rightarrow> string option" where
  "cutPrefix s p = (if hasPrefix s p then Some (drop (length p) s) else None)"

definition trimSuffix :: "string \<Rightarrow> string \<Rightarrow> string" where
  "trimSuffix s p = (if hasSuffix s p then take (length s - length p) s else s)"

fun strContains :: "string \<Rightarrow> string \<Rightarrow> bool" where
  "strContains [] sub = (sub = [])"
| "strContains (c # s) sub = (hasPrefix (c # s) sub \<or> strContains s sub)"

lemma hasPrefix_append [simp]: "hasPrefix (p @ s) p"
  by (simp add: hasPrefix_def)

lemma hasPrefix_iff: "hasPrefix s p \<longleftrightarrow> (\<exists>t. s = p @ t)"
  by (metis append_take_drop_id append_eq_conv_conj hasPrefix_def)

lemma hasSuffix_iff: "hasSuffix s p \<longleftrightarrow> (\<exists>t. s = t @ p)"
proof
  assume h: "hasSuffix s p"
  then have "s = take (length s - length p) s @ p"
    by (metis append_take_drop_id hasSuffix_def)
  then show "\<exists>t. s = t @ p" by blast
next
  assume "\<exists>t. s = t @ p"
  then show "hasSuffix s p" by (auto simp: hasSuffix_def)
qed

lemma strContains_iff: "strContains s sub \<longleftrightarrow> (\<exists>a b. s = a @ sub @ b)"
proof (induction s)
  case Nil
  show ?case by auto
next
  case (Cons c s)
  show ?case
  proof
    assume "strContains (c # s) sub"
    then show "\<exists>a b. c # s = a @ sub @ b"
      using Cons.IH by (auto simp: hasPrefix_iff) (metis append_Cons append_Nil)+
  next
    assume "\<exists>a b. c # s = a @ sub @ b"
    then obtain a b where eq: "c # s = a @ sub @ b" by blast
    show "strContains (c # s) sub"
    proof (cases a)
      case Nil
      with eq have "hasPrefix (c # s) sub" by (auto simp: hasPrefix_iff)
      then show ?thesis by simp
    next
      case (Cons x a')
      with eq have "s = a' @ sub @ b" by simp
      with Cons.IH show ?thesis by auto
    qed
  qed
qed

subsection \<open>Splitting and joining\<close>

fun splitOn :: "char \<Rightarrow> string \<Rightarrow> string list" where
  "splitOn c [] = [[]]"
| "splitOn c (x # s) =
     (if x = c then [] # splitOn c s
      else (case splitOn c s of [] \<Rightarrow> [[x]] | w # ws \<Rightarrow> (x # w) # ws))"

text \<open>\<open>strings.SplitN(s, sep, n)\<close> for a one-character separator and \<open>n > 0\<close>.\<close>

fun splitN :: "char \<Rightarrow> nat \<Rightarrow> string \<Rightarrow> string list" where
  "splitN c 0 s = []"
| "splitN c (Suc 0) s = [s]"
| "splitN c (Suc (Suc n)) s =
     (if c \<in> set s
      then takeWhile (\<lambda>x. x \<noteq> c) s # splitN c (Suc n) (tl (dropWhile (\<lambda>x. x \<noteq> c) s))
      else [s])"

fun joinWith :: "string \<Rightarrow> string list \<Rightarrow> string" where
  "joinWith sep [] = []"
| "joinWith sep [w] = w"
| "joinWith sep (w # v # ws) = w @ sep @ joinWith sep (v # ws)"

lemma splitOn_nonempty [simp]: "splitOn c s \<noteq> []"
  by (induction s) (auto split: list.splits)

lemma splitOn_no_sep: "w \<in> set (splitOn c s) \<Longrightarrow> c \<notin> set w"
  by (induction s arbitrary: w) (auto split: list.splits if_splits)

lemma joinWith_splitOn: "joinWith [c] (splitOn c s) = s"
proof (induction s)
  case Nil
  show ?case by simp
next
  case (Cons x s)
  obtain w ws where ws: "splitOn c s = w # ws"
    using splitOn_nonempty by (meson neq_Nil_conv)
  with Cons.IH show ?case
    by (cases ws) auto
qed

lemma splitOn_append_sep:
  "c \<notin> set w \<Longrightarrow> splitOn c (w @ c # s) = w # splitOn c s"
  by (induction w) auto

lemma splitOn_single: "c \<notin> set w \<Longrightarrow> splitOn c w = [w]"
  by (induction w) auto

lemma splitOn_joinWith:
  "ws \<noteq> [] \<Longrightarrow> \<forall>w \<in> set ws. c \<notin> set w \<Longrightarrow> splitOn c (joinWith [c] ws) = ws"
  by (induction "[c]" ws rule: joinWith.induct) (auto simp: splitOn_single splitOn_append_sep)

subsection \<open>White space\<close>

text \<open>The ASCII part of \<open>unicode.IsSpace\<close>: tab, newline, vertical tab, form feed,
  carriage return and space.\<close>

definition isSpace :: "char \<Rightarrow> bool" where
  "isSpace c \<longleftrightarrow> of_char c \<in> {9, 10, 11, 12, 13, 32 :: nat}"

definition trimSpace :: "string \<Rightarrow> string" where
  "trimSpace s = rev (dropWhile isSpace (rev (dropWhile isSpace s)))"

subsection \<open>Decimal numbers\<close>

definition digitChar :: "nat \<Rightarrow> char" where
  "digitChar d = char_of (48 + d)"

definition isDigit :: "char \<Rightarrow> bool" where
  "isDigit c \<longleftrightarrow> 48 \<le> (of_char c :: nat) \<and> (of_char c :: nat) \<le> 57"

definition digitVal :: "char \<Rightarrow> nat" where
  "digitVal c = of_char c - 48"

fun natStr :: "nat \<Rightarrow> string" where
  "natStr n = (if n < 10 then [digitChar n] else natStr (n div 10) @ [digitChar (n mod 10)])"

declare natStr.simps [simp del]

definition itoa :: "int \<Rightarrow> string" where
  "itoa n = (if n < 0 then CHR ''-'' # natStr (nat (- n)) else natStr (nat n))"

definition digitsVal :: "string \<Rightarrow> nat" where
  "digitsVal s = foldl (\<lambda>v c. 10 * v + digitVal c) 0 s"

text \<open>\<open>strconv.Atoi\<close>: an optional sign, then one or more digits, in the range of a
  64-bit \<open>int\<close>; anything else is an error.\<close>

definition atoi :: "string \<Rightarrow> int option" where
  "atoi s =
     (let neg = (s \<noteq> [] \<and> hd s = CHR ''-'');
          ds = (if s \<noteq> [] \<and> (hd s = CHR ''-'' \<or> hd s = CHR ''+'') then tl s else s);
          v = (if neg then - int (digitsVal ds) else int (digitsVal ds))
      in if ds = [] \<or> \<not> list_all isDigit ds then None
         else if in64 v then Some v else None)"

lemma digitChar_eval:
  "digitChar 0 = CHR ''0''" "digitChar 1 = CHR ''1''" "digitChar (Suc 0) = CHR ''1''"
  "digitChar 2 = CHR ''2''" "digitChar 3 = CHR ''3''" "digitChar 4 = CHR ''4''"
  "digitChar 5 = CHR ''5''" "digitChar 6 = CHR ''6''" "digitChar 7 = CHR ''7''"
  "digitChar 8 = CHR ''8''" "digitChar 9 = CHR ''9''"
  by code_simp+

text \<open>Evaluates \<open>natStr\<close> and \<open>atoi\<close> at numerals.\<close>

lemmas natStr_eval = natStr.simps digitChar_eval

lemmas atoi_eval = atoi_def digitsVal_def digitVal_def isDigit_def in64_def minInt64_def maxInt64_def

lemma of_char_digitChar: "d < 10 \<Longrightarrow> (of_char (digitChar d) :: nat) = 48 + d"
  by (simp add: digitChar_def)

lemma isDigit_digitChar: "d < 10 \<Longrightarrow> isDigit (digitChar d)"
  by (simp add: isDigit_def of_char_digitChar)

lemma digitVal_digitChar: "d < 10 \<Longrightarrow> digitVal (digitChar d) = d"
  by (simp add: digitVal_def of_char_digitChar)

lemma natStr_digits: "list_all isDigit (natStr n) \<and> natStr n \<noteq> []"
proof (induction n rule: natStr.induct)
  case (1 n)
  then show ?case
    by (subst (1 2) natStr.simps) (auto simp: isDigit_digitChar)
qed

lemma digitsVal_natStr: "digitsVal (natStr n) = n"
proof (induction n rule: natStr.induct)
  case (1 n)
  then show ?case
    by (subst natStr.simps) (auto simp: digitsVal_def digitVal_digitChar)
qed

lemma isDigit_not_sign: "isDigit c \<Longrightarrow> c \<noteq> CHR ''-'' \<and> c \<noteq> CHR ''+''"
  by (auto simp: isDigit_def)

text \<open>Reading back a printed number gives the number.\<close>

lemma atoi_itoa: "in64 n \<Longrightarrow> atoi (itoa n) = Some n"
proof -
  assume n: "in64 n"
  have d: "list_all isDigit (natStr m)" "natStr m \<noteq> []" for m
    using natStr_digits by auto
  have "isDigit (hd (natStr m))" for m
    using d [of m] by (metis list.pred_set hd_in_set)
  then have hd: "hd (natStr m) \<noteq> CHR ''-''" "hd (natStr m) \<noteq> CHR ''+''" for m
    using isDigit_not_sign by blast+
  show ?thesis
    using n d hd by (simp add: atoi_def itoa_def Let_def digitsVal_natStr)
qed

lemma natStr_inject: "natStr m = natStr n \<Longrightarrow> m = n"
  by (metis digitsVal_natStr)

lemma itoa_inject: "itoa m = itoa n \<Longrightarrow> m = n"
proof -
  have d: "hd (natStr k) \<noteq> CHR ''-''" for k
    using natStr_digits [of k] isDigit_not_sign by (metis list.pred_set hd_in_set)
  assume "itoa m = itoa n"
  then show ?thesis
    using d [of "nat m"] d [of "nat n"]
    by (auto simp: itoa_def split: if_splits dest!: natStr_inject)
       (metis list.sel(1))+
qed

subsection \<open>Case\<close>

text \<open>\<open>strings.ToLower\<close> on ASCII text.\<close>

definition lowerChar :: "char \<Rightarrow> char" where
  "lowerChar c = (let n = (of_char c :: nat) in if 65 \<le> n \<and> n \<le> 90 then char_of (n + 32) else c)"

definition toLower :: "string \<Rightarrow> string" where
  "toLower s = map lowerChar s"

end
