(* ===== verification/Go_Filepath.thy ===== *)
theory Go_Filepath
  imports Go_Strings
begin

text \<open>
  \<^verbatim>\<open>path/filepath\<close> on Unix: \<open>Clean\<close>, \<open>Join\<close>, \<open>Base\<close>, \<open>Dir\<close> and \<open>IsAbs\<close>, with the lemmas the
  components use: a clean path is a fixed point of \<open>Clean\<close>, and joining a simple file
  name below an absolute clean directory appends it.
\<close>

fun cleanStep :: "bool \<Rightarrow> string list \<Rightarrow> string \<Rightarrow> string list" where
  "cleanStep rooted acc c =
     (if c = '''' \<or> c = ''.'' then acc
      else if c = ''..'' then
        (case acc of
           [] \<Rightarrow> if rooted then [] else [''..'']
         | x # xs \<Rightarrow> if x = ''..'' then ''..'' # acc else xs)
      else c # acc)"

definition cleanComps :: "bool \<Rightarrow> string list \<Rightarrow> string list" where
  "cleanComps rooted cs = rev (foldl (cleanStep rooted) [] cs)"

definition isAbs :: "string \<Rightarrow> bool" where
  "isAbs p = hasPrefix p ''/''"

definition renderPath :: "bool \<Rightarrow> string list \<Rightarrow> string" where
  "renderPath rooted cs =
     (if rooted then ''/'' @ joinWith ''/'' cs
      else if cs = [] then ''.'' else joinWith ''/'' cs)"

definition pathClean :: "string \<Rightarrow> string" where
  "pathClean p = renderPath (isAbs p) (cleanComps (isAbs p) (splitOn (CHR ''/'') p))"

definition pathJoin :: "string list \<Rightarrow> string" where
  "pathJoin elems =
     (case filter (\<lambda>e. e \<noteq> '''') elems of
        [] \<Rightarrow> ''''
      | es \<Rightarrow> pathClean (joinWith ''/'' es))"

definition pathBase :: "string \<Rightarrow> string" where
  "pathBase p =
     (if p = '''' then ''.''
      else (case filter (\<lambda>c. c \<noteq> '''') (splitOn (CHR ''/'') p) of
              [] \<Rightarrow> ''/''
            | cs \<Rightarrow> last cs))"

definition pathDir :: "string \<Rightarrow> string" where
  "pathDir p = pathClean (rev (dropWhile (\<lambda>c. c \<noteq> CHR ''/'') (rev p)))"

text \<open>A path component that \<open>Clean\<close> keeps: a plain file name.\<close>

definition plainName :: "string \<Rightarrow> bool" where
  "plainName c \<longleftrightarrow> c \<noteq> '''' \<and> c \<noteq> ''.'' \<and> c \<noteq> ''..'' \<and> CHR ''/'' \<notin> set c"

lemma cleanStep_plain [simp]: "plainName c \<Longrightarrow> cleanStep r acc c = c # acc"
  by (simp add: plainName_def)

declare cleanStep.simps [simp del]

lemma foldl_clean_plain:
  "list_all plainName cs \<Longrightarrow> foldl (cleanStep r) acc cs = rev cs @ acc"
  by (induction cs arbitrary: acc) simp_all

lemma cleanComps_plain: "list_all plainName cs \<Longrightarrow> cleanComps r cs = cs"
  by (simp add: cleanComps_def foldl_clean_plain)

text \<open>An absolute clean path is \<open>/\<close> followed by plain names.\<close>

definition absPath :: "string list \<Rightarrow> string" where
  "absPath cs = ''/'' @ joinWith ''/'' cs"

lemma plain_no_sep: "list_all plainName cs \<Longrightarrow> \<forall>w \<in> set cs. CHR ''/'' \<notin> set w"
  by (auto simp: list_all_iff plainName_def)

lemma splitOn_absPath:
  "list_all plainName cs \<Longrightarrow> cs \<noteq> [] \<Longrightarrow> splitOn (CHR ''/'') (absPath cs) = '''' # cs"
  using splitOn_joinWith [of cs "CHR ''/''"] plain_no_sep [of cs]
  by (simp add: absPath_def)

lemma isAbs_absPath [simp]: "isAbs (absPath cs)"
  by (simp add: isAbs_def absPath_def hasPrefix_def)

lemma cleanStep_empty [simp]: "cleanStep r acc [] = acc" "cleanStep r acc ''.'' = acc"
  by (simp_all add: cleanStep.simps)

lemma pathClean_absPath: "list_all plainName cs \<Longrightarrow> pathClean (absPath cs) = absPath cs"
proof (cases cs)
  case Nil
  then show ?thesis
    by (simp add: pathClean_def absPath_def isAbs_def hasPrefix_def cleanComps_def renderPath_def)
next
  case (Cons c cs')
  moreover assume pl: "list_all plainName cs"
  ultimately have "splitOn (CHR ''/'') (absPath cs) = '''' # cs"
    by (intro splitOn_absPath) simp_all
  moreover have "cleanComps True ('''' # cs) = cs"
    using cleanComps_plain [OF pl, of True] by (simp add: cleanComps_def)
  ultimately have "pathClean (absPath cs) = renderPath True cs"
    by (simp only: pathClean_def isAbs_absPath)
  then show ?thesis by (simp add: renderPath_def absPath_def)
qed

lemma joinWith_append:
  "xs \<noteq> [] \<Longrightarrow> ys \<noteq> [] \<Longrightarrow> joinWith s (xs @ ys) = joinWith s xs @ s @ joinWith s ys"
proof (induction xs)
  case Nil
  then show ?case by simp
next
  case (Cons x xs)
  then show ?case by (cases xs; cases ys) simp_all
qed

lemma joinWith_single [simp]: "joinWith s [x] = x"
  by simp

text \<open>\<open>filepath.Join(dir, names...)\<close> for an absolute clean directory and plain names.\<close>

lemma pathJoin_absPath:
  assumes "list_all plainName cs" "cs \<noteq> []" "list_all plainName ns"
  shows "pathJoin (absPath cs # ns) = absPath (cs @ ns)"
proof -
  have ne: "absPath cs \<noteq> ''''" by (simp add: absPath_def)
  have f: "filter (\<lambda>e. e \<noteq> '''') ns = ns"
    using assms(3) by (simp add: filter_id_conv list_all_iff plainName_def)
  have "joinWith ''/'' (absPath cs # ns) = absPath (cs @ ns)"
    using assms(2) joinWith_append [of cs ns "''/''"]
    by (cases ns) (simp_all add: absPath_def)
  with ne f assms pathClean_absPath [of "cs @ ns"] show ?thesis
    by (simp add: pathJoin_def)
qed

end
