(* ===== verification/Vm_Resources.thy ===== *)
theory Vm_Resources
  imports Go_Strings
begin

text \<open>
  \<^verbatim>\<open>internal/shim/resources/config.go\<close>: the resources of a VM computed from the OCI spec of
  its container and the host, and the validation that \<^verbatim>\<open>host/vm/qemu/instance.go\<close> applies
  to them.

  Go's \<open>int\<close> and \<open>int64\<close> are integers with the wrap-around written out. The loop over a CPU
  range may run forever (its last CPU can be the largest \<open>int\<close>), so it is a partial
  function and not returning is \<open>None\<close>.
\<close>

unbundle bit_operations_syntax

section \<open>Data\<close>

text \<open>The part of \<open>specs.Spec\<close> the shim reads or changes; pointers that may be nil are options.\<close>

record LinuxCPU =
  Quota :: "int option"
  Period :: "nat option"
  Cpus :: string

record LinuxMemory =
  Limit :: "int option"

record LinuxResources =
  res_CPU :: "LinuxCPU option"
  res_Memory :: "LinuxMemory option"

record LinuxNamespace =
  ns_Type :: string
  ns_Path :: string

record LinuxSpec =
  lin_Resources :: "LinuxResources option"
  lin_Namespaces :: "LinuxNamespace list"
  lin_ReadonlyPaths :: "string list"
  lin_MaskedPaths :: "string list"

record OciRoot =
  root_Path :: string
  root_Readonly :: bool

record OciMount =
  om_Destination :: string
  om_Type :: string
  om_Source :: string
  om_Options :: "string list"

record LinuxCapabilities =
  cap_Bounding :: "string list"
  cap_Effective :: "string list"
  cap_Permitted :: "string list"
  cap_Inheritable :: "string list"
  cap_Ambient :: "string list"

record OciProcess =
  proc_Capabilities :: "LinuxCapabilities option"

record Spec =
  spec_Root :: "OciRoot option"
  spec_Mounts :: "OciMount list"
  spec_Process :: "OciProcess option"
  spec_Annotations :: "string \<rightharpoonup> string"
  spec_Linux :: "LinuxSpec option"

record VMResourceConfig =
  BootCPUs :: int
  MaxCPUs :: int
  MemorySize :: int
  MemoryHotplugSize :: int
  MemorySlots :: int

record ConfigInfo =
  HasExplicitCPULimit :: bool
  HasExplicitMemoryLimit :: bool
  HostCPUs :: int
  HostMemory :: int

definition specCPU :: "Spec \<Rightarrow> LinuxCPU option" where
  "specCPU spec =
     Option.bind (spec_Linux spec) (\<lambda>l. Option.bind (lin_Resources l) res_CPU)"

definition specMemory :: "Spec \<Rightarrow> LinuxMemory option" where
  "specMemory spec =
     Option.bind (spec_Linux spec) (\<lambda>l. Option.bind (lin_Resources l) res_Memory)"

section \<open>CPU sets\<close>

text \<open>\<open>for i := start; i <= end; i++\<close>, collecting the CPUs in a set.\<close>

partial_function (option) rangeLoop :: "int \<Rightarrow> int \<Rightarrow> int list \<Rightarrow> int list option" where
  "rangeLoop i end' cpus =
     (if i \<le> end' then rangeLoop (wrap64 (i + 1)) end' (List.insert i cpus) else Some cpus)"

text \<open>The CPUs of one part of the list: \<open>Some None\<close> is the early \<open>return 0\<close>.\<close>

definition parseCPUPart :: "string \<Rightarrow> int list \<Rightarrow> int list option option" where
  "parseCPUPart part0 cpus =
     (let part = trimSpace part0
      in if part = '''' then Some (Some cpus)
         else if strContains part ''-'' then
           (let rangeParts = splitN (CHR ''-'') 2 part
            in if length rangeParts \<noteq> 2 then Some None
               else
                 (case atoi (trimSpace (rangeParts ! 0)) of
                    None \<Rightarrow> Some None
                  | Some start \<Rightarrow>
                      if start < 0 then Some None
                      else
                        (case atoi (trimSpace (rangeParts ! 1)) of
                           None \<Rightarrow> Some None
                         | Some end' \<Rightarrow>
                             if end' < 0 \<or> end' < start then Some None
                             else map_option Some (rangeLoop start end' cpus))))
         else
           (case atoi part of
              None \<Rightarrow> Some None
            | Some cpu \<Rightarrow> if cpu < 0 then Some None else Some (Some (List.insert cpu cpus))))"

fun parseCPUParts :: "string list \<Rightarrow> int list \<Rightarrow> int list option option" where
  "parseCPUParts [] cpus = Some (Some cpus)"
| "parseCPUParts (p # ps) cpus =
     (case parseCPUPart p cpus of
        None \<Rightarrow> None
      | Some None \<Rightarrow> Some None
      | Some (Some cpus') \<Rightarrow> parseCPUParts ps cpus')"

definition parseCPUSet :: "string \<Rightarrow> int option" where
  "parseCPUSet cpuset0 =
     (let cpuset = trimSpace cpuset0
      in if cpuset = '''' then Some 0
         else map_option (\<lambda>r. case r of None \<Rightarrow> 0 | Some cpus \<Rightarrow> int (length cpus))
                (parseCPUParts (splitOn (CHR '','') cpuset) []))"

section \<open>Requests\<close>

definition extractCPURequest :: "Spec option \<Rightarrow> int option" where
  "extractCPURequest spec =
     (case Option.bind spec specCPU of
        None \<Rightarrow> Some 1
      | Some cpu \<Rightarrow>
          (case (Quota cpu, Period cpu) of
             (Some quota, Some period) \<Rightarrow>
               if period > 0 then
                 (let cpus = wrap64 (quot quota (wrap64 (int period)))
                  in Some (if cpus > 0 then cpus else 1))
               else (if Cpus cpu \<noteq> ''''
                     then map_option (\<lambda>count. if count > 0 then count else 1) (parseCPUSet (Cpus cpu))
                     else Some 1)
           | _ \<Rightarrow>
               (if Cpus cpu \<noteq> ''''
                then map_option (\<lambda>count. if count > 0 then count else 1) (parseCPUSet (Cpus cpu))
                else Some 1)))"

definition defaultMemory :: int where
  "defaultMemory = 512 * 1024 * 1024"

definition extractMemoryRequest :: "Spec option \<Rightarrow> int" where
  "extractMemoryRequest spec =
     (case Option.bind spec specMemory of
        None \<Rightarrow> defaultMemory
      | Some mem \<Rightarrow>
          (case Limit mem of
             None \<Rightarrow> defaultMemory
           | Some limit \<Rightarrow> if limit > 0 then limit else defaultMemory))"

definition alignMemory :: "int \<Rightarrow> int \<Rightarrow> int go" where
  "alignMemory memory alignment =
     (if alignment \<le> 0 then Panic (''alignMemory: invalid alignment '' @ itoa alignment @ '' (must be > 0)'')
      else if alignment AND (alignment - 1) \<noteq> 0 then Panic (''alignMemory: alignment '' @ itoa alignment @ '' is not a power of 2'')
      else if rmod memory alignment = 0 then Ret memory
      else Ret (wrap64 (wrap64 (quot memory alignment + 1) * alignment)))"

text \<open>\<open>strings.Fields\<close>.\<close>

fun fieldsFrom :: "string \<Rightarrow> string \<Rightarrow> string list" where
  "fieldsFrom acc [] = (if acc = '''' then [] else [rev acc])"
| "fieldsFrom acc (c # s) =
     (if isSpace c then (if acc = '''' then fieldsFrom [] s else rev acc # fieldsFrom [] s)
      else fieldsFrom (c # acc) s)"

text \<open>\<open>/proc/meminfo\<close>: the error of opening it, or its lines and the scanner's error.\<close>

fun scanMemTotal :: "string list \<Rightarrow> goerr option \<Rightarrow> goerr + int" where
  "scanMemTotal [] scanErr =
     (case scanErr of
        Some e \<Rightarrow> Inl (WrapErr ''error reading /proc/meminfo'' e)
      | None \<Rightarrow> Inl (Errorf ''MemTotal not found in /proc/meminfo''))"
| "scanMemTotal (line # rest) scanErr =
     (if hasPrefix line ''MemTotal:'' then
        (case fieldsFrom [] line of
           _ # kb # _ \<Rightarrow>
             (case atoi kb of
                None \<Rightarrow> Inl (WrapErr ''failed to parse MemTotal value'' (Errorf ''strconv.ParseInt''))
              | Some n \<Rightarrow> Inr (wrap64 (n * 1024)))
         | _ \<Rightarrow> scanMemTotal rest scanErr)
      else scanMemTotal rest scanErr)"

definition getHostMemoryTotal :: "goerr + string list \<times> goerr option \<Rightarrow> goerr + int" where
  "getHostMemoryTotal meminfo =
     (case meminfo of
        Inl e \<Rightarrow> Inl (WrapErr ''failed to open /proc/meminfo'' e)
      | Inr (ls, scanErr) \<Rightarrow> scanMemTotal ls scanErr)"

section \<open>The configuration\<close>

definition virtioMemAlignment :: int where
  "virtioMemAlignment = 128 * 1024 * 1024"

definition hasExplicitCPULimit :: "Spec \<Rightarrow> bool" where
  "hasExplicitCPULimit spec =
     (case specCPU spec of None \<Rightarrow> False | Some cpu \<Rightarrow> Quota cpu \<noteq> None \<or> Cpus cpu \<noteq> '''')"

definition hasExplicitMemoryLimit :: "Spec \<Rightarrow> bool" where
  "hasExplicitMemoryLimit spec =
     (case specMemory spec of None \<Rightarrow> False | Some mem \<Rightarrow> Limit mem \<noteq> None)"

text \<open>\<open>None\<close> when the CPU set is never parsed to its end.\<close>

definition ComputeConfig ::
  "int \<Rightarrow> goerr + string list \<times> goerr option \<Rightarrow> Spec \<Rightarrow> (VMResourceConfig \<times> ConfigInfo) go option" where
  "ComputeConfig hostCPUs meminfo spec =
     map_option (\<lambda>cpuRequest.
       (let memoryRequest0 = extractMemoryRequest (Some spec);
            hostMemory0 = (case getHostMemoryTotal meminfo of Inl e \<Rightarrow> 4 * 1024 * 1024 * 1024 | Inr m \<Rightarrow> m)
        in bindGo (alignMemory memoryRequest0 virtioMemAlignment) (\<lambda>memoryRequest.
           bindGo (alignMemory hostMemory0 virtioMemAlignment) (\<lambda>hostMemory.
             (let maxCPUs = (if hasExplicitCPULimit spec then min cpuRequest hostCPUs else hostCPUs)
              in bindGo (if hasExplicitMemoryLimit spec
                         then alignMemory (min (wrap64 (memoryRequest * 2)) hostMemory) virtioMemAlignment
                         else Ret hostMemory) (\<lambda>memoryHotplugSize.
                   Ret (\<lparr>BootCPUs = cpuRequest, MaxCPUs = maxCPUs, MemorySize = memoryRequest,
                         MemoryHotplugSize = memoryHotplugSize, MemorySlots = 0\<rparr>,
                        \<lparr>HasExplicitCPULimit = hasExplicitCPULimit spec,
                         HasExplicitMemoryLimit = hasExplicitMemoryLimit spec,
                         HostCPUs = hostCPUs, HostMemory = hostMemory\<rparr>)))))))
       (extractCPURequest (Some spec))"

definition defaultBootCPUs :: int where "defaultBootCPUs = 1"
definition defaultMaxCPUs :: int where "defaultMaxCPUs = 2"
definition defaultMemorySize :: int where "defaultMemorySize = 512 * 1024 * 1024"
definition defaultMemoryMax :: int where "defaultMemoryMax = 1024 * 1024 * 1024"
definition defaultMemorySlots :: int where "defaultMemorySlots = 8"

definition validateResourceConfig :: "VMResourceConfig option \<Rightarrow> VMResourceConfig" where
  "validateResourceConfig cfg =
     (case cfg of
        None \<Rightarrow> \<lparr>BootCPUs = defaultBootCPUs, MaxCPUs = defaultMaxCPUs, MemorySize = defaultMemorySize,
                 MemoryHotplugSize = defaultMemoryMax, MemorySlots = defaultMemorySlots\<rparr>
      | Some c \<Rightarrow>
          (let r1 = (if BootCPUs c < 1 then c\<lparr>BootCPUs := defaultBootCPUs\<rparr> else c);
               r2 = (if MaxCPUs r1 < BootCPUs r1 then r1\<lparr>MaxCPUs := BootCPUs r1\<rparr> else r1);
               r3 = (if MemorySize r2 < 1 then r2\<lparr>MemorySize := defaultMemorySize\<rparr> else r2);
               r4 = (if MemoryHotplugSize r3 < MemorySize r3
                     then r3\<lparr>MemoryHotplugSize := MemorySize r3\<rparr> else r3)
           in if MemorySlots r4 < 1 then r4\<lparr>MemorySlots := defaultMemorySlots\<rparr> else r4))"

lemmas default_defs = defaultBootCPUs_def defaultMaxCPUs_def defaultMemorySize_def
  defaultMemoryMax_def defaultMemorySlots_def

section \<open>Lemmas\<close>

subsection \<open>The loop over a range\<close>

lemma rangeLoop_collects:
  assumes "0 \<le> i" "end' < maxInt64"
  shows "\<exists>cs. rangeLoop i end' cpus = Some cs \<and> set cs = {i..end'} \<union> set cpus
    \<and> (distinct cpus \<longrightarrow> distinct cs)"
  using assms
proof (induction "nat (end' + 1 - i)" arbitrary: i cpus)
  case 0
  then show ?case by (subst rangeLoop.simps) auto
next
  case (Suc n)
  have w: "wrap64 (i + 1) = i + 1"
    using Suc.hyps(2) Suc.prems by (intro wrap64_id) (auto simp: in64_def minInt64_def)
  have n: "n = nat (end' + 1 - (i + 1))" using Suc.hyps(2) by simp
  have i0: "0 \<le> i + 1" using Suc.prems by simp
  from Suc.hyps(1) [OF n i0 Suc.prems(2), of "List.insert i cpus"]
  obtain cs where cs: "rangeLoop (i + 1) end' (List.insert i cpus) = Some cs"
    "set cs = {i + 1..end'} \<union> set (List.insert i cpus)"
    "distinct (List.insert i cpus) \<longrightarrow> distinct cs" by blast
  have "i \<le> end'" using Suc.hyps(2) by simp
  moreover from this have "{i..end'} = insert i {i + 1..end'}" by auto
  ultimately show ?case
    using cs by (subst rangeLoop.simps) (auto simp: w)
qed

lemma rangeLoop_max_ends:
  assumes "rangeLoop i end' cpus = Some r"
  shows "end' = maxInt64 \<longrightarrow> maxInt64 < i"
  using assms
proof (rule rangeLoop.raw_induct [where P = "\<lambda>i e cs r. e = maxInt64 \<longrightarrow> maxInt64 < i", rotated])
  fix loop :: "int \<Rightarrow> int \<Rightarrow> int list \<Rightarrow> int list option" and i e :: int and cs y :: "int list"
  assume ih: "\<And>i e cs y. loop i e cs = Some y \<Longrightarrow> e = maxInt64 \<longrightarrow> maxInt64 < i"
    and step: "(if i \<le> e then loop (wrap64 (i + 1)) e (List.insert i cs) else Some cs) = Some y"
  have "in64 (wrap64 (i + 1))" by simp
  then have "\<not> maxInt64 < wrap64 (i + 1)" by (simp add: in64_def)
  with ih step show "e = maxInt64 \<longrightarrow> maxInt64 < i" by (auto split: if_splits)
qed

lemma rangeLoop_max_diverges: "in64 i \<Longrightarrow> rangeLoop i maxInt64 cpus = None"
  using rangeLoop_max_ends [of i maxInt64 cpus] by (cases "rangeLoop i maxInt64 cpus") (auto simp: in64_def)

subsection \<open>Parts of a CPU set\<close>

lemma dropWhile_all_neg: "\<forall>x \<in> set s. \<not> P x \<Longrightarrow> dropWhile P s = s"
  by (cases s) auto

lemma trimSpace_id: "\<forall>x \<in> set s. \<not> isSpace x \<Longrightarrow> trimSpace s = s"
  by (simp add: trimSpace_def dropWhile_all_neg)

lemma isDigit_not_space: "isDigit c \<Longrightarrow> \<not> isSpace c"
  by (auto simp: isDigit_def isSpace_def)

lemma isDigit_not_comma: "isDigit c \<Longrightarrow> c \<noteq> CHR '',''"
  by (auto simp: isDigit_def)

lemma natStr_chars: "c \<in> set (natStr n) \<Longrightarrow> isDigit c"
  using natStr_digits [of n] by (simp add: list_all_iff)

lemma itoa_nat: "itoa (int n) = natStr n"
  by (simp add: itoa_def)

text \<open>The parts a CPU set is made of: the single CPU \<open>n\<close>, or the range \<open>a-b\<close>.\<close>

datatype cpuPart = Single nat | Range nat nat

fun renderPart :: "cpuPart \<Rightarrow> string" where
  "renderPart (Single n) = natStr n"
| "renderPart (Range a b) = natStr a @ ''-'' @ natStr b"

fun partCPUs :: "cpuPart \<Rightarrow> int set" where
  "partCPUs (Single n) = {int n}"
| "partCPUs (Range a b) = {int a..int b}"

fun partOk :: "cpuPart \<Rightarrow> bool" where
  "partOk (Single n) \<longleftrightarrow> int n < maxInt64"
| "partOk (Range a b) \<longleftrightarrow> a \<le> b \<and> int b < maxInt64"

lemma renderPart_chars: "c \<in> set (renderPart p) \<Longrightarrow> isDigit c \<or> c = CHR ''-''"
  by (cases p) (auto dest: natStr_chars)

lemma renderPart_no_space: "c \<in> set (renderPart p) \<Longrightarrow> \<not> isSpace c"
  using renderPart_chars isDigit_not_space by (fastforce simp: isSpace_def)

lemma renderPart_no_comma: "CHR '','' \<notin> set (renderPart p)"
  using renderPart_chars isDigit_not_comma by fastforce

lemma renderPart_nonempty: "renderPart p \<noteq> []"
  using natStr_digits by (cases p) auto

lemma natStr_no_dash: "CHR ''-'' \<notin> set (natStr n)"
  using natStr_chars isDigit_not_sign by blast

lemma strContains_char: "strContains s [c] \<longleftrightarrow> c \<in> set s"
  by (auto simp: strContains_iff in_set_conv_decomp)

lemma atoi_natStr: "int n \<le> maxInt64 \<Longrightarrow> atoi (natStr n) = Some (int n)"
  using atoi_itoa [of "int n"] by (simp add: itoa_nat in64_def minInt64_def)

lemma trimSpace_natStr: "trimSpace (natStr n) = natStr n"
  by (rule trimSpace_id) (auto dest: natStr_chars isDigit_not_space)

lemma splitN_dash: "splitN (CHR ''-'') 2 (natStr a @ ''-'' @ natStr b) = [natStr a, natStr b]"
proof -
  have nd: "\<And>x. x \<in> set (natStr a) \<Longrightarrow> x \<noteq> CHR ''-''"
    using natStr_no_dash [of a] by blast
  have "takeWhile (\<lambda>x. x \<noteq> CHR ''-'') (natStr a @ ''-'' @ natStr b) = natStr a"
    by (subst takeWhile_append2) (simp_all add: nd)
  moreover have "dropWhile (\<lambda>x. x \<noteq> CHR ''-'') (natStr a @ ''-'' @ natStr b) = ''-'' @ natStr b"
    by (subst dropWhile_append2) (simp_all add: nd)
  ultimately show ?thesis
    by (simp add: numeral_2_eq_2)
qed

lemma parseCPUPart_render:
  assumes "partOk p"
  shows "\<exists>cs. parseCPUPart (renderPart p) cpus = Some (Some cs)
    \<and> set cs = partCPUs p \<union> set cpus \<and> (distinct cpus \<longrightarrow> distinct cs)"
proof -
  have t: "trimSpace (renderPart p) = renderPart p"
    by (rule trimSpace_id) (simp add: renderPart_no_space)
  show ?thesis
  proof (cases p)
    case (Single n)
    then show ?thesis
      using assms t renderPart_nonempty [of p]
      by (auto simp: parseCPUPart_def strContains_char natStr_no_dash atoi_natStr)
  next
    case (Range a b)
    then have le: "a \<le> b" "int b < maxInt64" "int a \<le> maxInt64" using assms by auto
    have dash: "strContains (natStr a @ ''-'' @ natStr b) ''-''" by (simp add: strContains_char)
    obtain cs where "rangeLoop (int a) (int b) cpus = Some cs"
      "set cs = {int a..int b} \<union> set cpus" "distinct cpus \<longrightarrow> distinct cs"
      using rangeLoop_collects [of "int a" "int b" cpus] le by auto
    then show ?thesis
      using Range t le dash splitN_dash [of a b]
      by (simp add: parseCPUPart_def trimSpace_natStr atoi_natStr)
  qed
qed

lemma parseCPUParts_render:
  assumes "\<forall>p \<in> set ps. partOk p" "distinct cpus"
  shows "\<exists>cs. parseCPUParts (map renderPart ps) cpus = Some (Some cs)
    \<and> set cs = (\<Union>p \<in> set ps. partCPUs p) \<union> set cpus \<and> distinct cs"
  using assms
proof (induction ps arbitrary: cpus)
  case Nil
  then show ?case by simp
next
  case (Cons p ps)
  obtain cs where cs: "parseCPUPart (renderPart p) cpus = Some (Some cs)"
    "set cs = partCPUs p \<union> set cpus" "distinct cs"
    using parseCPUPart_render [of p cpus] Cons.prems by auto
  with Cons.IH [of cs] Cons.prems show ?case by fastforce
qed

lemma set_joinWith: "set (joinWith sep ws) \<subseteq> set sep \<union> \<Union> (set ` set ws)"
  by (induction sep ws rule: joinWith.induct) auto

lemma trimSpace_cpuset:
  "trimSpace (joinWith '','' (map renderPart ps)) = joinWith '','' (map renderPart ps)"
proof (rule trimSpace_id, rule ballI)
  fix x assume "x \<in> set (joinWith '','' (map renderPart ps))"
  then have "x = CHR '','' \<or> (\<exists>p. x \<in> set (renderPart p))"
    using set_joinWith [of "'',''" "map renderPart ps"] by auto
  then show "\<not> isSpace x"
    using renderPart_no_space by (auto simp: isSpace_def)
qed

lemma joinWith_eq_Nil: "joinWith sep ws = [] \<Longrightarrow> w \<in> set ws \<Longrightarrow> w = []"
  by (induction sep ws rule: joinWith.induct) auto

text \<open>A CPU set is counted exactly: the comma-separated list of single CPUs and ranges, as
  they are written in an OCI spec, parses (and the parsing ends) with the number of different
  CPUs in it, whatever overlaps between its parts.\<close>

theorem cpuset_counted:
  assumes "ps \<noteq> []" "\<forall>p \<in> set ps. partOk p"
  shows "parseCPUSet (joinWith '','' (map renderPart ps))
    = Some (int (card (\<Union>p \<in> set ps. partCPUs p)))"
proof -
  let ?s = "joinWith '','' (map renderPart ps)"
  obtain cs where cs: "parseCPUParts (map renderPart ps) [] = Some (Some cs)"
    "set cs = (\<Union>p \<in> set ps. partCPUs p)" "distinct cs"
    using parseCPUParts_render [of ps "[]"] assms by auto
  have "?s \<noteq> []"
  proof
    assume "?s = []"
    then have "renderPart (hd ps) = []"
      by (rule joinWith_eq_Nil) (use assms in simp)
    then show False using renderPart_nonempty by blast
  qed
  moreover have "splitOn (CHR '','') ?s = map renderPart ps"
    using assms renderPart_no_comma by (intro splitOn_joinWith) auto
  moreover have "length cs = card (\<Union>p \<in> set ps. partCPUs p)"
    using cs distinct_card by metis
  ultimately show ?thesis
    using cs(1) by (simp add: parseCPUSet_def trimSpace_cpuset)
qed

theorem cpuset_counted_witness:
  "list_all partOk [Range 0 3, Single 8, Range 2 5]
    \<and> parseCPUSet (joinWith '','' (map renderPart [Range 0 3, Single 8, Range 2 5])) = Some 7"
proof -
  have ok: "\<forall>p \<in> set [Range 0 3, Single 8, Range 2 5]. partOk p"
    by (simp add: maxInt64_def)
  have "(\<Union>p \<in> set [Range 0 3, Single 8, Range 2 5]. partCPUs p) = {0, 1, 2, 3, 4, 5, 8}"
    by auto
  then show ?thesis
    using cpuset_counted [OF _ ok] ok by simp
qed

text \<open>A range that ends at the largest \<open>int\<close> is never left: the loop variable wraps
  around, so computing the configuration of a container with this CPU set does not return.\<close>

theorem cpuset_up_to_max_int_diverges:
  "parseCPUSet ''0-9223372036854775807'' = None"
proof -
  have a: "trimSpace ''0-9223372036854775807'' = ''0-9223372036854775807''" by code_simp
  have b: "splitOn (CHR '','') ''0-9223372036854775807'' = [''0-9223372036854775807'']" by code_simp
  have c: "strContains ''0-9223372036854775807'' ''-''" by code_simp
  have d: "splitN (CHR ''-'') 2 ''0-9223372036854775807'' = [''0'', ''9223372036854775807'']" by code_simp
  have e: "atoi (trimSpace ''0'') = Some 0" by code_simp
  have "trimSpace ''9223372036854775807'' = ''9223372036854775807''" by code_simp
  then have f: "atoi (trimSpace ''9223372036854775807'') = Some maxInt64"
    by (simp add: atoi_eval)
  have g: "rangeLoop 0 maxInt64 [] = None"
    by (rule rangeLoop_max_diverges) (simp add: in64_def minInt64_def maxInt64_def)
  have "0 \<le> maxInt64" by (simp add: maxInt64_def)
  then have "parseCPUPart ''0-9223372036854775807'' [] = None"
    unfolding parseCPUPart_def Let_def a using c by (simp add: d e f g)
  then show ?thesis
    by (simp add: parseCPUSet_def a b)
qed

subsection \<open>Memory\<close>

lemma alignMemory_virtio:
  assumes "0 \<le> m" "m \<le> maxInt64 - virtioMemAlignment"
  obtains r where "alignMemory m virtioMemAlignment = Ret r" "virtioMemAlignment dvd r"
    "m \<le> r" "r < m + virtioMemAlignment"
proof -
  let ?A = "virtioMemAlignment"
  have pos: "0 < ?A" and pow: "?A AND (?A - 1) = 0" by (simp_all add: virtioMemAlignment_def)
  show ?thesis
  proof (cases "m mod ?A = 0")
    case True
    then show ?thesis
      using that [of m] pos pow assms by (auto simp: alignMemory_def rmod_nonneg)
  next
    case False
    let ?r = "(m div ?A + 1) * ?A"
    have md: "m div ?A * ?A + m mod ?A = m" by simp
    have r: "?r = m - m mod ?A + ?A" by (simp add: algebra_simps minus_mod_eq_mult_div)
    have bounds: "m \<le> ?r" "?r < m + ?A"
      using False pos pos_mod_bound [OF pos, of m] pos_mod_sign [OF pos, of m] by (auto simp: r)
    have "?r \<le> maxInt64" using bounds assms by simp
    moreover have "m div ?A + 1 \<le> ?r"
      using pos assms by (simp add: pos_imp_zdiv_nonneg_iff virtioMemAlignment_def)
    moreover have "0 \<le> m div ?A" using assms pos by (simp add: pos_imp_zdiv_nonneg_iff)
    ultimately have "in64 (m div ?A + 1)" "in64 ?r"
      using bounds(1) assms(1) unfolding in64_def minInt64_def by linarith+
    then have "wrap64 (m div ?A + 1) = m div ?A + 1" "wrap64 ?r = ?r"
      by (simp_all add: wrap64_id)
    then have "alignMemory m ?A = Ret ?r"
      using False pos pow assms by (simp add: alignMemory_def rmod_nonneg quot_nonneg)
    then show ?thesis using that bounds by simp
  qed
qed

lemma alignMemory_dvd: "virtioMemAlignment dvd m \<Longrightarrow> 0 \<le> m \<Longrightarrow> alignMemory m virtioMemAlignment = Ret m"
  by (simp add: alignMemory_def rmod_nonneg virtioMemAlignment_def)

lemma extractMemoryRequest_pos: "0 < extractMemoryRequest spec"
  by (simp add: extractMemoryRequest_def defaultMemory_def split: option.splits)

lemma extractCPURequest_pos: "extractCPURequest spec = Some n \<Longrightarrow> 1 \<le> n"
  by (auto simp: extractCPURequest_def Let_def split: option.splits if_splits)

lemma compute_config_shape:
  assumes "getHostMemoryTotal meminfo = Inr hostMem" "0 < hostMem" "hostMem < 2 ^ 61"
    and "extractMemoryRequest (Some spec) < 2 ^ 61"
    and "extractCPURequest (Some spec) = Some n"
  obtains req host where "virtioMemAlignment dvd req" "extractMemoryRequest (Some spec) \<le> req"
    "req < extractMemoryRequest (Some spec) + virtioMemAlignment"
    "virtioMemAlignment dvd host" "hostMem \<le> host" "host < hostMem + virtioMemAlignment"
    "ComputeConfig h meminfo spec = Some (Ret
       (\<lparr>BootCPUs = n, MaxCPUs = (if hasExplicitCPULimit spec then min n h else h), MemorySize = req,
         MemoryHotplugSize = (if hasExplicitMemoryLimit spec then min (req * 2) host else host), MemorySlots = 0\<rparr>,
        \<lparr>HasExplicitCPULimit = hasExplicitCPULimit spec, HasExplicitMemoryLimit = hasExplicitMemoryLimit spec,
         HostCPUs = h, HostMemory = host\<rparr>))"
proof -
  let ?A = "virtioMemAlignment" and ?m = "extractMemoryRequest (Some spec)"
  have m0: "0 < ?m" by (rule extractMemoryRequest_pos)
  obtain req where req: "alignMemory ?m ?A = Ret req" "?A dvd req" "?m \<le> req" "req < ?m + ?A"
    using alignMemory_virtio [of ?m] m0 assms by (auto simp: maxInt64_def virtioMemAlignment_def)
  obtain host where host: "alignMemory hostMem ?A = Ret host" "?A dvd host" "hostMem \<le> host" "host < hostMem + ?A"
    using alignMemory_virtio [of hostMem] assms by (auto simp: maxInt64_def virtioMemAlignment_def)
  have "wrap64 (req * 2) = req * 2"
    using req m0 assms by (intro wrap64_id) (simp add: in64_def minInt64_def maxInt64_def virtioMemAlignment_def)
  moreover have "alignMemory (min (req * 2) host) ?A = Ret (min (req * 2) host)"
    using req(2,3) host(2,3) m0 assms(2) by (intro alignMemory_dvd) (auto simp: min_def)
  ultimately show ?thesis
    using that [OF req(2-4) host(2-4)] req(1) host(1) assms(1,5)
    by (simp add: ComputeConfig_def Let_def)
qed


text \<open>A container with a limit of 64 CPUs and 1 GB on a host with 8 CPUs and 16 GB.\<close>

definition demoSpec :: Spec where
  "demoSpec = \<lparr>spec_Root = Some \<lparr>root_Path = ''rootfs'', root_Readonly = False\<rparr>, spec_Mounts = [], spec_Process = None,
     spec_Annotations = Map.empty, spec_Linux = Some \<lparr>lin_Resources = Some
     \<lparr>res_CPU = Some \<lparr>Quota = Some 6400000, Period = Some 100000, Cpus = ''''\<rparr>,
      res_Memory = Some \<lparr>Limit = Some 1000000000\<rparr>\<rparr>,
      lin_Namespaces = [], lin_ReadonlyPaths = [], lin_MaskedPaths = []\<rparr>\<rparr>"

definition demoMeminfo :: "goerr + string list \<times> goerr option" where
  "demoMeminfo = Inr ([''MemTotal:       16384000 kB'', ''MemFree:         8192000 kB''], None)"

lemma demo_meminfo_total: "getHostMemoryTotal demoMeminfo = Inr 16777216000"
proof -
  have "fieldsFrom [] ''MemTotal:       16384000 kB'' = [''MemTotal:'', ''16384000'', ''kB'']" by code_simp
  moreover have "atoi ''16384000'' = Some 16384000" by (simp add: atoi_eval)
  ultimately show ?thesis
    by (simp add: getHostMemoryTotal_def demoMeminfo_def hasPrefix_def wrap64_def)
qed

lemma demo_spec_requests:
  "extractCPURequest (Some demoSpec) = Some 64" "extractMemoryRequest (Some demoSpec) = 1000000000"
  "hasExplicitCPULimit demoSpec" "hasExplicitMemoryLimit demoSpec"
  by (simp_all add: demoSpec_def extractCPURequest_def extractMemoryRequest_def specCPU_def specMemory_def
      hasExplicitCPULimit_def hasExplicitMemoryLimit_def quot_def wrap64_def)


subsection \<open>Validation\<close>

definition wellFormedConfig :: "VMResourceConfig \<Rightarrow> bool" where
  "wellFormedConfig c \<longleftrightarrow> 1 \<le> BootCPUs c \<and> BootCPUs c \<le> MaxCPUs c \<and> 1 \<le> MemorySize c
     \<and> MemorySize c \<le> MemoryHotplugSize c \<and> 1 \<le> MemorySlots c"

text \<open>C24. Whatever configuration QEMU is started with, the validated one is well formed (at least
  one CPU, memory and memory slot, and limits not below what the VM boots with), a well-formed one is
  taken as it is, and validating again changes nothing.\<close>

theorem validated_config_well_formed:
  "wellFormedConfig (validateResourceConfig cfg)
    \<and> validateResourceConfig (Some (validateResourceConfig cfg)) = validateResourceConfig cfg
    \<and> (case cfg of None \<Rightarrow> True | Some c \<Rightarrow> (validateResourceConfig (Some c) = c) = wellFormedConfig c)"
proof -
  have wf: "wellFormedConfig (validateResourceConfig c)" for c
    by (auto simp: validateResourceConfig_def wellFormedConfig_def Let_def default_defs split: option.splits)
  have "validateResourceConfig (Some c) = c" if "wellFormedConfig c" for c
    using that by (auto simp: validateResourceConfig_def wellFormedConfig_def Let_def)
  then show ?thesis using wf [of cfg] wf by (auto split: option.splits) (metis wf)
qed

text \<open>An explicit CPU limit above the host is not capped in the end: the computed
  maximum is the host's CPU count, but the boot CPUs are the whole request, and the validation
  raises the maximum to it again.\<close>

theorem cpu_limit_above_host_uncapped:
  assumes "getHostMemoryTotal meminfo = Inr hostMem" "0 < hostMem" "hostMem < 2 ^ 61"
    and "extractMemoryRequest (Some spec) < 2 ^ 61"
    and "extractCPURequest (Some spec) = Some n" "hasExplicitCPULimit spec" "h < n"
  shows "\<exists>cfg info. ComputeConfig h meminfo spec = Some (Ret (cfg, info))
    \<and> MaxCPUs cfg = h \<and> MaxCPUs (validateResourceConfig (Some cfg)) = n"
proof -
  have n1: "1 \<le> n" by (rule extractCPURequest_pos [OF assms(5)])
  obtain req host where eq: "ComputeConfig h meminfo spec = Some (Ret
       (\<lparr>BootCPUs = n, MaxCPUs = (if hasExplicitCPULimit spec then min n h else h), MemorySize = req,
         MemoryHotplugSize = (if hasExplicitMemoryLimit spec then min (req * 2) host else host), MemorySlots = 0\<rparr>,
        \<lparr>HasExplicitCPULimit = hasExplicitCPULimit spec, HasExplicitMemoryLimit = hasExplicitMemoryLimit spec,
         HostCPUs = h, HostMemory = host\<rparr>))"
    by (rule compute_config_shape [OF assms(1-5)])
  show ?thesis
    unfolding eq using n1 assms(6,7) by (simp add: validateResourceConfig_def Let_def)
qed

theorem cpu_limit_above_host_uncapped_witness:
  "hasExplicitCPULimit demoSpec
    \<and> (\<exists>cfg info. ComputeConfig 8 demoMeminfo demoSpec = Some (Ret (cfg, info))
      \<and> MaxCPUs cfg = 8 \<and> MaxCPUs (validateResourceConfig (Some cfg)) = 64)"
proof -
  have "extractMemoryRequest (Some demoSpec) < 2 ^ 61" by (simp add: demo_spec_requests)
  from cpu_limit_above_host_uncapped [OF demo_meminfo_total _ _ this demo_spec_requests(1,3), of 8]
  show ?thesis by (simp add: demo_spec_requests)
qed

end
