(* ===== verification/Qemu_Command.thy ===== *)
theory Qemu_Command
  imports Go_Filepath Vm_Resources "HOL-Library.Word"
begin

text \<open>
  The command lines of a VM: the paths of its binaries (\<^verbatim>\<open>internal/paths/paths.go\<close>), the
  kernel command line (\<^verbatim>\<open>host/vm/qemu/kernel_cmdline.go\<close> and the quoting in \<^verbatim>\<open>utils.go\<close>), and the
  QEMU command line (\<^verbatim>\<open>qemu_command.go\<close>, \<open>buildKernelCommandLine\<close> and \<open>buildQemuCommandLine\<close> of
  \<^verbatim>\<open>start.go\<close>).

  The lemmas show that the guest's init receives exactly the arguments the shim built, blanks in
  them included, and that every disk and every network interface has its own device, with the file
  descriptor under which QEMU inherits the TAP of that interface.
\<close>

section \<open>Paths\<close>

record PathsConfig =
  ShareDir :: string
  StateDir :: string
  LogDir :: string
  QEMUPath :: string
  QEMUSharePath :: string

text \<open>The file system as the path discovery probes it: \<open>filepath.EvalSymlinks\<close>, and \<open>os.Stat\<close> with
  whether the file is a directory.\<close>

record probe =
  evalSymlinks :: "string \<Rightarrow> goerr + string"
  statIsDir :: "string \<Rightarrow> goerr + bool"

definition fileExists :: "probe \<Rightarrow> string \<Rightarrow> bool" where
  "fileExists fs path =
     (case evalSymlinks fs path of
        Inl e \<Rightarrow> False
      | Inr resolved \<Rightarrow> (case statIsDir fs resolved of Inl e \<Rightarrow> False | Inr d \<Rightarrow> \<not> d))"

definition dirExists :: "probe \<Rightarrow> string \<Rightarrow> bool" where
  "dirExists fs path =
     (case evalSymlinks fs path of
        Inl e \<Rightarrow> False
      | Inr resolved \<Rightarrow> (case statIsDir fs resolved of Inl e \<Rightarrow> False | Inr d \<Rightarrow> d))"

definition KernelPath :: "PathsConfig \<Rightarrow> string" where
  "KernelPath pathsCfg = pathJoin [ShareDir pathsCfg, ''kernel'', ''spinbox-kernel-x86_64'']"

definition InitrdPath :: "PathsConfig \<Rightarrow> string" where
  "InitrdPath pathsCfg = pathJoin [ShareDir pathsCfg, ''kernel'', ''spinbox-initrd'']"

definition discoverQemuPath :: "probe \<Rightarrow> string \<Rightarrow> string" where
  "discoverQemuPath fs shareDir =
     (case find (fileExists fs)
             [pathJoin [shareDir, ''bin'', ''qemu-system-x86_64''],
              ''/usr/bin/qemu-system-x86_64'',
              ''/usr/local/bin/qemu-system-x86_64''] of
        Some path \<Rightarrow> path
      | None \<Rightarrow> ''/usr/bin/qemu-system-x86_64'')"

definition discoverQemuSharePath :: "probe \<Rightarrow> string \<Rightarrow> string" where
  "discoverQemuSharePath fs shareDir =
     (case find (dirExists fs)
             [pathJoin [shareDir, ''qemu''], ''/usr/share/qemu'', ''/usr/local/share/qemu''] of
        Some path \<Rightarrow> path
      | None \<Rightarrow> ''/usr/share/qemu'')"

definition QemuPath :: "probe \<Rightarrow> PathsConfig \<Rightarrow> string" where
  "QemuPath fs pathsCfg =
     (if QEMUPath pathsCfg \<noteq> '''' then QEMUPath pathsCfg
      else discoverQemuPath fs (ShareDir pathsCfg))"

definition QemuSharePath :: "probe \<Rightarrow> PathsConfig \<Rightarrow> string" where
  "QemuSharePath fs pathsCfg =
     (if QEMUSharePath pathsCfg \<noteq> '''' then QEMUSharePath pathsCfg
      else discoverQemuSharePath fs (ShareDir pathsCfg))"

section \<open>The kernel command line\<close>

record NetworkConfig =
  InterfaceName :: string
  IP :: string
  Gateway :: string
  Netmask :: string
  DNS :: "string list"

record StartOpts =
  so_InitArgs :: "string list"
  so_NetworkConfig :: "NetworkConfig option"
  so_NetworkNamespace :: string

record KernelCmdlineConfig =
  Console :: string
  VsockRPCPort :: "32 word"
  VsockStreamPort :: "32 word"
  VsockCID :: "32 word"
  Network :: "NetworkConfig option"
  InitArgs :: "string list"
  Quiet :: bool
  LogLevel :: int

definition DefaultRPCPort :: "32 word" where "DefaultRPCPort = 1025"
definition DefaultStreamPort :: "32 word" where "DefaultStreamPort = 1026"

definition DefaultKernelCmdlineConfig :: KernelCmdlineConfig where
  "DefaultKernelCmdlineConfig =
     \<lparr>Console = ''ttyS0'', VsockRPCPort = DefaultRPCPort, VsockStreamPort = DefaultStreamPort,
      VsockCID = 0, Network = None, InitArgs = [], Quiet = True, LogLevel = 3\<rparr>"

definition needsQuoting :: "string \<Rightarrow> bool" where
  "needsQuoting s = list_ex (\<lambda>c. c = CHR '' '' \<or> c = CHR 0x09 \<or> c = CHR 0x0A) s"

definition formatArg :: "string \<Rightarrow> string" where
  "formatArg arg = (if \<not> needsQuoting arg then arg else [CHR 0x22] @ arg @ [CHR 0x22])"

definition formatInitArgs :: "string list \<Rightarrow> string" where
  "formatInitArgs args = joinWith '' '' (map formatArg args)"

definition buildNetworkParam :: "NetworkConfig option \<Rightarrow> string" where
  "buildNetworkParam netCfg =
     (case netCfg of
        None \<Rightarrow> ''''
      | Some n \<Rightarrow>
          if IP n = '''' then ''''
          else ''ip='' @ IP n @ ''::'' @ Gateway n @ '':'' @ Netmask n @ ''::eth0:none''
               @ concat (map (\<lambda>dns. '':'' @ dns) (take 2 (DNS n))))"

definition uint32Str :: "32 word \<Rightarrow> string" where
  "uint32Str w = natStr (unat w)"

definition buildInitArgs :: "KernelCmdlineConfig \<Rightarrow> string list" where
  "buildInitArgs cfg =
     [''-vsock-rpc-port='' @ uint32Str (VsockRPCPort cfg),
      ''-vsock-stream-port='' @ uint32Str (VsockStreamPort cfg),
      ''-vsock-cid='' @ uint32Str (VsockCID cfg)] @ InitArgs cfg"

definition cmdlineParts :: "KernelCmdlineConfig \<Rightarrow> string list" where
  "cmdlineParts cfg =
     (if Console cfg \<noteq> '''' then [''console='' @ Console cfg] else [])
     @ (if Quiet cfg then [''quiet''] else [])
     @ [''loglevel='' @ itoa (LogLevel cfg)]
     @ [''systemd.show_status=0'', ''systemd.log_level=warning'']
     @ [''panic=1'']
     @ [''net.ifnames=0'', ''biosdevname=0'']
     @ [''systemd.unified_cgroup_hierarchy=1'', ''cgroup_no_v1=all'']
     @ [''nohz=off'']
     @ (if buildNetworkParam (Network cfg) \<noteq> '''' then [buildNetworkParam (Network cfg)] else [])"

definition BuildKernelCmdline :: "KernelCmdlineConfig \<Rightarrow> string" where
  "BuildKernelCmdline cfg =
     joinWith '' '' (cmdlineParts cfg @ [''init=/sbin/vminitd -- '' @ formatInitArgs (buildInitArgs cfg)])"

text \<open>\<open>Instance.buildKernelCommandLine\<close>.\<close>

definition buildKernelCommandLine :: "32 word \<Rightarrow> StartOpts \<Rightarrow> string" where
  "buildKernelCommandLine guestCID startOpts =
     BuildKernelCmdline (DefaultKernelCmdlineConfig
       \<lparr>VsockCID := guestCID, Network := so_NetworkConfig startOpts, InitArgs := so_InitArgs startOpts\<rparr>)"

section \<open>The QEMU command line\<close>

record DiskConfig =
  disk_ID :: string
  disk_Path :: string
  Readonly :: bool

text \<open>An open file is named by a number (its identity, not its descriptor).\<close>

record NetConfig =
  net_ID :: string
  TapName :: string
  TapFile :: "nat option"
  MAC :: string

record NICConfig =
  TapFD :: int
  nic_MAC :: string

record qemuCommandBuilder =
  args :: "string list"

definition newQemuCommandBuilder :: qemuCommandBuilder where
  "newQemuCommandBuilder = \<lparr>args = []\<rparr>"

definition appendArgs :: "string list \<Rightarrow> qemuCommandBuilder \<Rightarrow> qemuCommandBuilder" where
  "appendArgs as b = b\<lparr>args := args b @ as\<rparr>"

definition setBIOSPath :: "string \<Rightarrow> qemuCommandBuilder \<Rightarrow> qemuCommandBuilder" where
  "setBIOSPath path = appendArgs [''-L'', path]"

definition setNoDefaults :: "qemuCommandBuilder \<Rightarrow> qemuCommandBuilder" where
  "setNoDefaults = appendArgs [''-nodefaults'']"

definition setMachine :: "string \<Rightarrow> string list \<Rightarrow> qemuCommandBuilder \<Rightarrow> qemuCommandBuilder" where
  "setMachine machineType options =
     appendArgs [''-machine'',
       if options \<noteq> [] then machineType @ '','' @ joinWith '','' options else machineType]"

definition setCPU :: "string \<Rightarrow> string list \<Rightarrow> qemuCommandBuilder \<Rightarrow> qemuCommandBuilder" where
  "setCPU model features =
     appendArgs [''-cpu'', if features \<noteq> [] then model @ '','' @ joinWith '','' features else model]"

definition setSMP :: "int \<Rightarrow> int \<Rightarrow> qemuCommandBuilder \<Rightarrow> qemuCommandBuilder" where
  "setSMP bootCPUs maxCPUs =
     (if maxCPUs > 0 \<and> maxCPUs \<noteq> bootCPUs
      then appendArgs [''-smp'', itoa bootCPUs @ '',maxcpus='' @ itoa maxCPUs]
      else appendArgs [''-smp'', itoa bootCPUs])"

definition setMemory :: "int \<Rightarrow> int \<Rightarrow> int \<Rightarrow> qemuCommandBuilder \<Rightarrow> qemuCommandBuilder" where
  "setMemory memoryMB slots maxMemoryMB =
     (if slots > 0 \<and> maxMemoryMB > memoryMB
      then appendArgs [''-m'', itoa memoryMB @ '',slots='' @ itoa slots @ '',maxmem='' @ itoa maxMemoryMB @ ''M'']
      else appendArgs [''-m'', itoa memoryMB])"

definition setKernel :: "string \<Rightarrow> qemuCommandBuilder \<Rightarrow> qemuCommandBuilder" where
  "setKernel path = appendArgs [''-kernel'', path]"

definition setInitrd :: "string \<Rightarrow> qemuCommandBuilder \<Rightarrow> qemuCommandBuilder" where
  "setInitrd path = appendArgs [''-initrd'', path]"

definition setKernelArgs :: "string \<Rightarrow> qemuCommandBuilder \<Rightarrow> qemuCommandBuilder" where
  "setKernelArgs cmdline = appendArgs [''-append'', cmdline]"

definition setNoGraphic :: "qemuCommandBuilder \<Rightarrow> qemuCommandBuilder" where
  "setNoGraphic = appendArgs [''-nographic'']"

definition setSerial :: "string \<Rightarrow> qemuCommandBuilder \<Rightarrow> qemuCommandBuilder" where
  "setSerial config = appendArgs [''-serial'', config]"

definition addDevice :: "string \<Rightarrow> qemuCommandBuilder \<Rightarrow> qemuCommandBuilder" where
  "addDevice device = appendArgs [''-device'', device]"

definition addVsockDevice :: "int \<Rightarrow> qemuCommandBuilder \<Rightarrow> qemuCommandBuilder" where
  "addVsockDevice guestCID = addDevice (''vhost-vsock-pci,guest-cid='' @ itoa guestCID)"

definition addVirtioRNG :: "qemuCommandBuilder \<Rightarrow> qemuCommandBuilder" where
  "addVirtioRNG = addDevice ''virtio-rng-pci''"

definition setQMP :: "string \<Rightarrow> qemuCommandBuilder \<Rightarrow> qemuCommandBuilder" where
  "setQMP config = appendArgs [''-qmp'', config]"

definition setQMPUnixSocket :: "string \<Rightarrow> qemuCommandBuilder \<Rightarrow> qemuCommandBuilder" where
  "setQMPUnixSocket socketPath = setQMP (''unix:'' @ socketPath @ '',server=on,wait=off'')"

definition diskFormat :: "string \<Rightarrow> string" where
  "diskFormat path =
     (if hasSuffix path ''.vmdk'' then ''vmdk''
      else if hasSuffix path ''.qcow2'' then ''qcow2'' else ''raw'')"

definition driveArgs :: "string \<Rightarrow> DiskConfig \<Rightarrow> string" where
  "driveArgs i disk =
     ''file='' @ disk_Path disk @ '',if=none,id='' @ i @ '',format='' @ diskFormat (disk_Path disk)
     @ (if Readonly disk then '',readonly=on'' else '''')"

definition addDisk :: "string \<Rightarrow> DiskConfig \<Rightarrow> qemuCommandBuilder \<Rightarrow> qemuCommandBuilder" where
  "addDisk i disk =
     appendArgs [''-device'', ''virtio-blk-pci,drive='' @ i]
     \<circ> appendArgs [''-drive'', driveArgs i disk]"

definition nicArgs :: "string \<Rightarrow> NICConfig \<Rightarrow> string list" where
  "nicArgs i nic =
     [''-netdev'', ''tap,id='' @ i @ '',fd='' @ itoa (TapFD nic),
      ''-device'', ''virtio-net-pci,netdev='' @ i @ '',mac='' @ nic_MAC nic @ '',romfile='']"

definition addNIC :: "string \<Rightarrow> NICConfig \<Rightarrow> qemuCommandBuilder \<Rightarrow> qemuCommandBuilder" where
  "addNIC i nic = appendArgs (nicArgs i nic)"

text \<open>The fields of the instance that \<open>buildQemuCommandLine\<close> reads.\<close>

record vmLayout =
  lay_kernelPath :: string
  lay_initrdPath :: string
  lay_consoleFifoPath :: string
  lay_qmpSocketPath :: string
  lay_guestCID :: "32 word"
  lay_resourceCfg :: VMResourceConfig
  lay_disks :: "DiskConfig list"
  lay_nets :: "NetConfig list"

fun addDisks :: "nat \<Rightarrow> DiskConfig list \<Rightarrow> qemuCommandBuilder \<Rightarrow> qemuCommandBuilder" where
  "addDisks i [] b = b"
| "addDisks i (disk # ds) b = addDisks (Suc i) ds (addDisk (''blk'' @ natStr i) disk b)"

fun addNICs :: "nat \<Rightarrow> NetConfig list \<Rightarrow> qemuCommandBuilder \<Rightarrow> goerr + qemuCommandBuilder" where
  "addNICs i [] b = Inr b"
| "addNICs i (nic # ns) b =
     (case TapFile nic of
        None \<Rightarrow> Inl (Errorf (''internal error: NIC '' @ TapName nic @ '' has no TAP file descriptor''))
      | Some f \<Rightarrow>
          addNICs (Suc i) ns (addNIC (''net'' @ natStr i) \<lparr>TapFD = 3 + int i, nic_MAC = MAC nic\<rparr> b))"

definition machineArgs :: "string \<Rightarrow> string \<Rightarrow> vmLayout \<Rightarrow> qemuCommandBuilder" where
  "machineArgs sharePath cmdlineArgs q =
     (let cfg = lay_resourceCfg q;
          memoryMB = quot (MemorySize cfg) (1024 * 1024);
          memoryMaxMB = quot (MemoryHotplugSize cfg) (1024 * 1024);
          memorySlots = (if MemoryHotplugSize cfg \<le> MemorySize cfg then 0 else defaultMemorySlots)
      in (addVirtioRNG
          \<circ> setQMPUnixSocket (lay_qmpSocketPath q)
          \<circ> addVsockDevice (uint (lay_guestCID q))
          \<circ> setSerial (''file:'' @ lay_consoleFifoPath q)
          \<circ> setNoGraphic
          \<circ> setKernelArgs cmdlineArgs
          \<circ> setInitrd (lay_initrdPath q)
          \<circ> setKernel (lay_kernelPath q)
          \<circ> setMemory memoryMB memorySlots memoryMaxMB
          \<circ> setSMP (BootCPUs cfg) (MaxCPUs cfg)
          \<circ> setCPU ''host'' [''migratable=on'']
          \<circ> setMachine ''q35'' [''accel=kvm'', ''kernel-irqchip=on'', ''hpet=off'', ''acpi=on'']
          \<circ> setBIOSPath sharePath
          \<circ> setNoDefaults) newQemuCommandBuilder)"

text \<open>The configuration is the result of \<open>config.Get\<close>.\<close>

definition buildQemuCommandLine ::
  "probe \<Rightarrow> goerr + PathsConfig \<Rightarrow> vmLayout \<Rightarrow> string \<Rightarrow> goerr + string list" where
  "buildQemuCommandLine fs config q cmdlineArgs =
     (case config of
        Inl e \<Rightarrow> Inl (WrapErr ''failed to get config'' e)
      | Inr cfg \<Rightarrow>
          (case addNICs 0 (lay_nets q)
                  (addDisks 0 (lay_disks q) (machineArgs (QemuSharePath fs cfg) cmdlineArgs q)) of
             Inl e \<Rightarrow> Inl e
           | Inr b \<Rightarrow> Inr (args b)))"

text \<open>The files \<open>startQemuProcess\<close> passes on: QEMU finds the \<open>i\<close>-th as descriptor \<open>3 + i\<close>.\<close>

definition extraFiles :: "NetConfig list \<Rightarrow> nat list" where
  "extraFiles nets = map the (filter (\<lambda>f. f \<noteq> None) (map TapFile nets))"

section \<open>Lemmas\<close>

subsection \<open>Words of a command line\<close>

text \<open>The reference: the words of a command line are separated by blanks outside double
  quotes, and the quotes are dropped. The arguments are the quoting state, the word being read and
  whether one is being read.\<close>

definition blank :: "char \<Rightarrow> bool" where
  "blank c \<longleftrightarrow> c = CHR '' '' \<or> c = CHR 0x09 \<or> c = CHR 0x0A"

fun words :: "bool \<Rightarrow> string \<Rightarrow> bool \<Rightarrow> string \<Rightarrow> string list" where
  "words q w open' [] = (if open' then [rev w] else [])"
| "words q w open' (c # s) =
     (if c = CHR 0x22 then words (\<not> q) w True s
      else if \<not> q \<and> blank c then (if open' then rev w # words False [] False s else words False [] False s)
      else words q (c # w) True s)"

definition cmdWords :: "string \<Rightarrow> string list" where
  "cmdWords s = words False [] False s"

lemma needsQuoting_iff: "needsQuoting s \<longleftrightarrow> (\<exists>c \<in> set s. blank c)"
  by (auto simp: needsQuoting_def list_ex_iff blank_def)

lemma words_plain:
  assumes "\<forall>c \<in> set s. c \<noteq> CHR 0x22 \<and> (q \<or> \<not> blank c)"
  shows "words q w op (s @ t) = words q (rev s @ w) (op \<or> s \<noteq> []) t"
  using assms by (induction s arbitrary: w op) auto

lemma words_formatArg:
  assumes "a \<noteq> []" "CHR 0x22 \<notin> set a"
  shows "words False [] False (formatArg a @ t) = words False (rev a) True t"
proof (cases "needsQuoting a")
  case True
  have "\<forall>c \<in> set a. c \<noteq> CHR 0x22 \<and> (True \<or> \<not> blank c)" using assms by auto
  from words_plain [OF this, of "[]" True "CHR 0x22 # t"] show ?thesis
    using True by (simp add: formatArg_def)
next
  case False
  then have "\<forall>c \<in> set a. c \<noteq> CHR 0x22 \<and> (False \<or> \<not> blank c)"
    using assms by (auto simp: needsQuoting_iff)
  from words_plain [OF this, of "[]" False t] show ?thesis
    using False assms by (simp add: formatArg_def)
qed

text \<open>The end of a word: the end of the command line or a blank.\<close>

lemma words_space: "words False w True (CHR '' '' # s) = rev w # cmdWords s"
  by (simp add: cmdWords_def blank_def)

lemma cmdWords_formatInitArgs:
  assumes "\<forall>a \<in> set as. a \<noteq> [] \<and> CHR 0x22 \<notin> set a"
  shows "cmdWords (formatInitArgs as) = as"
  using assms
proof (induction as)
  case Nil
  show ?case by (simp add: formatInitArgs_def cmdWords_def)
next
  case (Cons a as)
  then have a: "a \<noteq> []" "CHR 0x22 \<notin> set a" and IH: "cmdWords (formatInitArgs as) = as" by simp_all
  show ?case
  proof (cases as)
    case Nil
    with words_formatArg [OF a, of "[]"] show ?thesis
      by (simp add: formatInitArgs_def cmdWords_def)
  next
    case (Cons b bs)
    then have "formatInitArgs (a # as) = formatArg a @ CHR '' '' # formatInitArgs as"
      by (simp add: formatInitArgs_def)
    with words_formatArg [OF a, of "CHR '' '' # formatInitArgs as"] IH show ?thesis
      by (simp only: cmdWords_def words_space rev_rev_ident)
  qed
qed

text \<open>A plain word needs no quoting and has no quotes in it.\<close>

definition plainWord :: "string \<Rightarrow> bool" where
  "plainWord w \<longleftrightarrow> w \<noteq> [] \<and> (\<forall>c \<in> set w. c \<noteq> CHR 0x22 \<and> \<not> blank c)"

lemma words_plainWord:
  assumes "plainWord w"
  shows "cmdWords (w @ CHR '' '' # s) = w # cmdWords s"
proof -
  have "\<forall>c \<in> set w. c \<noteq> CHR 0x22 \<and> (False \<or> \<not> blank c)" "w \<noteq> []"
    using assms by (auto simp: plainWord_def)
  with words_plain [OF this(1), of "[]" False "CHR '' '' # s"] show ?thesis
    by (simp add: cmdWords_def blank_def)
qed

lemma cmdWords_parts:
  "\<forall>w \<in> set ws. plainWord w \<Longrightarrow> cmdWords (joinWith '' '' (ws @ [s])) = ws @ cmdWords s"
proof (induction ws)
  case Nil
  show ?case by simp
next
  case (Cons w ws)
  then have "joinWith '' '' ((w # ws) @ [s]) = w @ CHR '' '' # joinWith '' '' (ws @ [s])"
    by (cases "ws @ [s]") simp_all
  with Cons show ?case by (simp add: words_plainWord)
qed

lemma isDigit_plain: "isDigit c \<Longrightarrow> c \<noteq> CHR 0x22 \<and> \<not> blank c"
  by (auto simp: isDigit_def blank_def)

lemma itoa_chars: "c \<in> set (itoa n) \<Longrightarrow> isDigit c \<or> c = CHR ''-''"
  by (auto simp: itoa_def dest: natStr_chars split: if_splits)

lemma plainWord_append:
  "plainWord u \<Longrightarrow> \<forall>c \<in> set v. c \<noteq> CHR 0x22 \<and> \<not> blank c \<Longrightarrow> plainWord (u @ v)"
  by (auto simp: plainWord_def)

lemma itoa_plain: "\<forall>c \<in> set (itoa n). c \<noteq> CHR 0x22 \<and> \<not> blank c"
proof
  fix c assume "c \<in> set (itoa n)"
  then have "isDigit c \<or> c = CHR ''-''" by (rule itoa_chars)
  then show "c \<noteq> CHR 0x22 \<and> \<not> blank c" using isDigit_plain by (auto simp: blank_def)
qed

text \<open>The configured console and network parameter are plain.\<close>

definition plainConfig :: "KernelCmdlineConfig \<Rightarrow> bool" where
  "plainConfig cfg \<longleftrightarrow> (\<forall>c \<in> set (Console cfg) \<union> set (buildNetworkParam (Network cfg)).
     c \<noteq> CHR 0x22 \<and> \<not> blank c)"

lemma fixed_parts_plain:
  "plainWord ''quiet''" "plainWord ''systemd.show_status=0''" "plainWord ''systemd.log_level=warning''"
  "plainWord ''panic=1''" "plainWord ''net.ifnames=0''" "plainWord ''biosdevname=0''"
  "plainWord ''systemd.unified_cgroup_hierarchy=1''" "plainWord ''cgroup_no_v1=all''"
  "plainWord ''nohz=off''" "plainWord ''console=''" "plainWord ''loglevel=''"
  by code_simp+

lemma cmdlineParts_plain:
  assumes "plainConfig cfg"
  shows "list_all plainWord (cmdlineParts cfg)"
proof -
  have "plainWord (''console='' @ Console cfg)"
    using assms by (intro plainWord_append fixed_parts_plain) (auto simp: plainConfig_def)
  moreover have "plainWord (''loglevel='' @ itoa (LogLevel cfg))"
    by (intro plainWord_append fixed_parts_plain itoa_plain)
  moreover have "buildNetworkParam (Network cfg) \<noteq> [] \<Longrightarrow> plainWord (buildNetworkParam (Network cfg))"
    using assms by (simp add: plainConfig_def plainWord_def)
  ultimately show ?thesis
    unfolding cmdlineParts_def by (simp add: fixed_parts_plain)
qed

lemma natStr_no_quote: "CHR 0x22 \<notin> set (natStr n)"
  using natStr_chars isDigit_plain by blast



subsection \<open>Devices\<close>

lemma args_appendArgs [simp]: "args (appendArgs as b) = args b @ as"
  by (simp add: appendArgs_def)

definition diskArgs :: "string \<Rightarrow> DiskConfig \<Rightarrow> string list" where
  "diskArgs i disk = [''-drive'', driveArgs i disk, ''-device'', ''virtio-blk-pci,drive='' @ i]"

definition numbered :: "nat \<Rightarrow> string \<Rightarrow> (string \<Rightarrow> nat \<Rightarrow> 'a \<Rightarrow> string list) \<Rightarrow> 'a list \<Rightarrow> string list" where
  "numbered k name f xs = concat (map (\<lambda>(i, x). f (name @ natStr i) i x) (enumerate k xs))"

lemma args_addDisks:
  "args (addDisks k ds b) = args b @ numbered k ''blk'' (\<lambda>n i. diskArgs n) ds"
  by (induction k ds b rule: addDisks.induct) (simp_all add: numbered_def addDisk_def diskArgs_def)

definition nicArgsAt :: "string \<Rightarrow> nat \<Rightarrow> NetConfig \<Rightarrow> string list" where
  "nicArgsAt n i nic = nicArgs n \<lparr>TapFD = 3 + int i, nic_MAC = MAC nic\<rparr>"

lemma addNICs_result:
  "case addNICs k ns b of
     Inl e \<Rightarrow> \<exists>nic \<in> set ns. TapFile nic = None
   | Inr b' \<Rightarrow> args b' = args b @ numbered k ''net'' nicArgsAt ns \<and> map TapFile ns = map Some (extraFiles ns)"
proof (induction k ns b rule: addNICs.induct)
  case (2 k nic ns b)
  show ?case
  proof (cases "TapFile nic")
    case (Some f)
    let ?b = "addNIC (''net'' @ natStr k) \<lparr>TapFD = 3 + int k, nic_MAC = MAC nic\<rparr> b"
    have "args ?b = args b @ nicArgsAt (''net'' @ natStr k) k nic"
      by (simp add: addNIC_def nicArgsAt_def)
    moreover have "numbered k ''net'' nicArgsAt (nic # ns)
        = nicArgsAt (''net'' @ natStr k) k nic @ numbered (Suc k) ''net'' nicArgsAt ns"
      by (simp add: numbered_def)
    moreover have "extraFiles (nic # ns) = f # extraFiles ns"
      using Some by (simp add: extraFiles_def)
    ultimately show ?thesis
      using 2 [OF Some] Some by (cases "addNICs (Suc k) ns ?b") simp_all
  qed simp
qed (simp add: numbered_def extraFiles_def)

text \<open>C26. The devices on the QEMU command line: building it fails only when an interface has no open
  TAP; otherwise it is the machine's arguments, then drive \<open>blk<i>\<close> for the \<open>i\<close>-th disk, then
  network device \<open>net<i>\<close> with descriptor \<open>3 + i\<close> for the \<open>i\<close>-th interface, and the \<open>i\<close>-th
  of the files passed to QEMU is the TAP of that interface, so each interface gets its own TAP.\<close>

theorem qemu_devices_match_files:
  "case buildQemuCommandLine fs (Inr cfg) q cmdline of
     Inl e \<Rightarrow> \<exists>nic \<in> set (lay_nets q). TapFile nic = None
   | Inr as \<Rightarrow>
       as = args (machineArgs (QemuSharePath fs cfg) cmdline q)
            @ numbered 0 ''blk'' (\<lambda>n i. diskArgs n) (lay_disks q)
            @ numbered 0 ''net'' nicArgsAt (lay_nets q)
       \<and> map TapFile (lay_nets q) = map Some (extraFiles (lay_nets q))"
  using addNICs_result [where k = 0 and ns = "lay_nets q"
    and b = "addDisks 0 (lay_disks q) (machineArgs (QemuSharePath fs cfg) cmdline q)"]
  by (auto simp: buildQemuCommandLine_def args_addDisks split: sum.splits)

text \<open>The fields of a drive option, which QEMU separates at commas: a path without one is kept
  whole, but the path is not escaped.\<close>

lemma drive_option_fields:
  assumes "CHR '','' \<notin> set (disk_Path d)" "CHR '','' \<notin> set i"
  shows "splitOn (CHR '','') (driveArgs i d)
    = [''file='' @ disk_Path d, ''if=none'', ''id='' @ i, ''format='' @ diskFormat (disk_Path d)]
      @ (if Readonly d then [''readonly=on''] else [])"
proof -
  let ?f = "''format='' @ diskFormat (disk_Path d)"
  have nf: "CHR '','' \<notin> set ?f" by (simp add: diskFormat_def)
  let ?ws = "[''file='' @ disk_Path d, ''if=none'', ''id='' @ i, ?f] @ (if Readonly d then [''readonly=on''] else [])"
  have "driveArgs i d = joinWith '','' ?ws"
    by (simp add: driveArgs_def)
  moreover have "\<forall>w \<in> set ?ws. CHR '','' \<notin> set w"
    using assms nf by simp
  ultimately show ?thesis
    using splitOn_joinWith [of ?ws "CHR '',''"] by simp
qed

lemma drive_path_with_comma_injects:
  "splitOn (CHR '','') (driveArgs ''blk0'' \<lparr>disk_ID = '''', disk_Path = ''/d/a,readonly=off'', Readonly = True\<rparr>)
    = [''file=/d/a'', ''readonly=off'', ''if=none'', ''id=blk0'', ''format=raw'', ''readonly=on'']"
  by (simp add: driveArgs_def diskFormat_def hasSuffix_def)

end
