(* ===== verification/Vsock_Dial.thy ===== *)
theory Vsock_Dial
  imports Go_Loops Qemu_Command
begin

text \<open>
  How the shim reaches the guest over vsock: the TTRPC ping and the loop that waits for the QMP
  socket (\<^verbatim>\<open>host/vm/qemu/utils.go\<close>), the connection to the guest's RPC server and the
  stream connections (\<^verbatim>\<open>host/vm/qemu/streaming.go\<close>), and the guest's side of the streams
  (\<^verbatim>\<open>guest/vminit/streaming/plugin.go\<close>).

  The network, the clock and the context are functions of an environment record over a world. A
  call that blocks until its deadline is one call of the environment. The clock laws that
  the loops rely on are \<open>clockOk\<close>: no call turns the clock back, and \<open>time.Sleep\<close> lasts at
  least as long as asked.
\<close>

section \<open>The environment\<close>

record 'w net_os =
  no_now :: "'w \<Rightarrow> go_time"
  no_sleep :: "duration \<Rightarrow> 'w \<Rightarrow> 'w"
  no_ctxErr :: "'w \<Rightarrow> goerr option"
  no_stat :: "string \<Rightarrow> 'w \<Rightarrow> goerr option"
  no_tick :: "go_time \<Rightarrow> nat \<Rightarrow> 'w \<Rightarrow> goerr option \<times> 'w"
  no_dial :: "32 word \<Rightarrow> 32 word \<Rightarrow> 'w \<Rightarrow> (goerr + nat) \<times> 'w"
  no_setReadDeadline :: "nat \<Rightarrow> go_time \<Rightarrow> 'w \<Rightarrow> goerr option \<times> 'w"
  no_write :: "nat \<Rightarrow> 8 word list \<Rightarrow> 'w \<Rightarrow> (nat \<times> goerr option) \<times> 'w"
  no_readFull :: "nat \<Rightarrow> nat \<Rightarrow> 'w \<Rightarrow> (goerr + 8 word list) \<times> 'w"
  no_discard :: "nat \<Rightarrow> 32 word \<Rightarrow> 'w \<Rightarrow> goerr option \<times> 'w"
  no_close :: "nat \<Rightarrow> 'w \<Rightarrow> 'w"

text \<open>A receive from the ticker started at \<open>t\<close>, after \<open>k\<close> earlier ones, or the context's error. The
  \<open>k\<close>-th tick does not come before \<open>k\<close> periods have passed.\<close>

definition clockOk :: "'w net_os \<Rightarrow> bool" where
  "clockOk os \<longleftrightarrow>
     (\<forall>d w. no_now os w + d \<le> no_now os (no_sleep os d w)) \<and>
     (\<forall>c p w. no_now os w \<le> no_now os (snd (no_dial os c p w))) \<and>
     (\<forall>c t w. no_now os w \<le> no_now os (snd (no_setReadDeadline os c t w))) \<and>
     (\<forall>c b w. no_now os w \<le> no_now os (snd (no_write os c b w))) \<and>
     (\<forall>c n w. no_now os w \<le> no_now os (snd (no_readFull os c n w))) \<and>
     (\<forall>c n w. no_now os w \<le> no_now os (snd (no_discard os c n w))) \<and>
     (\<forall>c w. no_now os w \<le> no_now os (no_close os c w)) \<and>
     (\<forall>t k w. fst (no_tick os t k w) = None \<longrightarrow>
        t + 50 * Millisecond * int (Suc k) \<le> no_now os (snd (no_tick os t k w)))"

section \<open>Big-endian integers\<close>

definition beUint32 :: "8 word list \<Rightarrow> 32 word" where
  "beUint32 b =
     push_bit 24 (ucast (b ! 0)) OR push_bit 16 (ucast (b ! 1)) OR push_bit 8 (ucast (b ! 2)) OR ucast (b ! 3)"

definition bePutUint32 :: "32 word \<Rightarrow> 8 word list" where
  "bePutUint32 v = [ucast (drop_bit 24 v), ucast (drop_bit 16 v), ucast (drop_bit 8 v), ucast v]"

section \<open>The TTRPC ping\<close>

definition pingTTRPC :: "'w net_os \<Rightarrow> nat \<Rightarrow> 'w \<Rightarrow> goerr option \<times> 'w" where
  "pingTTRPC os rw w =
     (case no_write os rw (replicate 10 0) w of
        ((n, Some err), w1) \<Rightarrow> (Some (WrapErr ''failed to write to TTRPC server'' err), w1)
      | ((n, None), w1) \<Rightarrow>
          if n \<noteq> 10 then (Some (Errorf (''short write: '' @ natStr n @ '' bytes written'')), w1)
          else
            (case no_readFull os rw 10 w1 of
               (Inl err, w2) \<Rightarrow> (Some err, w2)
             | (Inr p, w2) \<Rightarrow>
                 (let len = beUint32 (take 4 p); sid = beUint32 (take 4 (drop 4 p))
                  in if sid \<noteq> 0 then (Some (Errorf (''unexpected stream ID '' @ uint32Str sid @ '', expected 0'')), w2)
                     else if len = 0 then (Some (Errorf ''expected error response, but got length 0''), w2)
                     else no_discard os rw len w2)))"

section \<open>Waiting for the QMP socket\<close>

definition waitBody ::
  "'w net_os \<Rightarrow> string \<Rightarrow> duration \<Rightarrow> go_time \<Rightarrow> nat \<times> 'w \<Rightarrow> (nat \<times> 'w) + (goerr option \<times> 'w)" where
  "waitBody os socketPath timeout startedAt = (\<lambda>(k, w).
     if timeSub (no_now os w) startedAt > timeout
     then Inr (Some (Errorf (''timeout waiting for socket: '' @ socketPath)), w)
     else
       (case no_tick os startedAt k w of
          (Some e, w1) \<Rightarrow> Inr (Some e, w1)
        | (None, w1) \<Rightarrow> if no_stat os socketPath w1 = None then Inr (None, w1) else Inl (Suc k, w1)))"

definition waitForSocket ::
  "'w net_os \<Rightarrow> string \<Rightarrow> duration \<Rightarrow> 'w \<Rightarrow> (goerr option \<times> 'w) option" where
  "waitForSocket os socketPath timeout w =
     forLoop (waitBody os socketPath timeout (no_now os w)) (0, w)"

section \<open>Connecting to the guest's RPC server\<close>

definition connectRetryTimeout :: duration where
  "connectRetryTimeout = 10 * Second"

definition rpcMaxBackoff :: duration where
  "rpcMaxBackoff = 200 * Millisecond"

definition rpcBackoff :: "duration \<Rightarrow> duration" where
  "rpcBackoff backoff = min (wrap64 (backoff * 2)) rpcMaxBackoff"

text \<open>The checks of a new connection: \<open>None\<close> when it is ready, otherwise the deadline of the
  next ping (the connection is then closed and the loop goes on).\<close>

definition checkConn ::
  "'w net_os \<Rightarrow> nat \<Rightarrow> duration \<Rightarrow> 'w \<Rightarrow> duration option \<times> 'w" where
  "checkConn os conn pingDeadline w1 =
     (case no_setReadDeadline os conn (no_now os w1 + pingDeadline) w1 of
        (Some err, w2) \<Rightarrow> (Some pingDeadline, w2)
      | (None, w2) \<Rightarrow>
          (case pingTTRPC os conn w2 of
             (Some err, w3) \<Rightarrow> (Some (wrap64 (pingDeadline + 10 * Millisecond)), w3)
           | (None, w3) \<Rightarrow>
               (case no_setReadDeadline os conn 0 w3 of
                  (Some err, w4) \<Rightarrow> (Some pingDeadline, w4)
                | (None, w4) \<Rightarrow>
                    (case pingTTRPC os conn w4 of
                       (Some err, w5) \<Rightarrow> (Some pingDeadline, w5)
                     | (None, w5) \<Rightarrow> (None, w5)))))"

definition connectBody ::
  "'w net_os \<Rightarrow> 32 word \<Rightarrow> go_time \<Rightarrow> duration \<times> duration \<times> 'w
     \<Rightarrow> (duration \<times> duration \<times> 'w) + ((goerr + nat) \<times> 'w)" where
  "connectBody os guestCID retryStart = (\<lambda>(backoff, pingDeadline, w).
     case no_ctxErr os w of
       Some e \<Rightarrow> Inr (Inl e, w)
     | None \<Rightarrow>
         if timeSub (no_now os w) retryStart > connectRetryTimeout
         then Inr (Inl (Errorf ''timeout waiting for vminitd to accept connections''), w)
         else
           (case no_dial os guestCID DefaultRPCPort w of
              (Inl err, w1) \<Rightarrow> Inl (rpcBackoff backoff, pingDeadline, no_sleep os backoff w1)
            | (Inr conn, w1) \<Rightarrow>
                (case checkConn os conn pingDeadline w1 of
                   (Some pd, w2) \<Rightarrow> Inl (rpcBackoff backoff, pd, no_sleep os backoff (no_close os conn w2))
                 | (None, w2) \<Rightarrow> Inr (Inr conn, w2))))"

definition connectVsockRPC :: "'w net_os \<Rightarrow> 32 word \<Rightarrow> 'w \<Rightarrow> ((goerr + nat) \<times> 'w) option" where
  "connectVsockRPC os guestCID w =
     forLoop (connectBody os guestCID (no_now os w)) (10 * Millisecond, 50 * Millisecond, w)"

section \<open>Streams\<close>

definition streamMaxBackoff :: duration where
  "streamMaxBackoff = 100 * Millisecond"

definition streamTimeout :: duration where
  "streamTimeout = Second"

text \<open>The exchange of the stream identifier on a new connection; \<open>None\<close> when it is
  acknowledged. On an error the connection is closed.\<close>

definition handshake :: "'w net_os \<Rightarrow> nat \<Rightarrow> 32 word \<Rightarrow> 'w \<Rightarrow> goerr option \<times> 'w" where
  "handshake os conn sid w1 =
     (case no_write os conn (bePutUint32 sid) w1 of
        ((n, Some err), w2) \<Rightarrow> (Some (WrapErr ''failed to write stream id'' err), no_close os conn w2)
      | ((n, None), w2) \<Rightarrow>
          (case no_readFull os conn 4 w2 of
             (Inl err, w3) \<Rightarrow> (Some (WrapErr ''failed to read stream ack'' err), no_close os conn w3)
           | (Inr streamAck, w3) \<Rightarrow>
               if beUint32 streamAck \<noteq> sid
               then (Some (Errorf ''stream ack mismatch''), no_close os conn w3)
               else (None, w3)))"

text \<open>The loop's state is the stream counter, the back-off and the world.\<close>

definition streamBackoff :: "duration \<Rightarrow> duration" where
  "streamBackoff backoff = min (wrap64 (backoff * 2)) streamMaxBackoff"

definition streamBody ::
  "'w net_os \<Rightarrow> 32 word \<Rightarrow> go_time \<Rightarrow> 32 word \<times> duration \<times> 'w
     \<Rightarrow> (32 word \<times> duration \<times> 'w) + ((goerr + 32 word \<times> nat) \<times> 32 word \<times> 'w)" where
  "streamBody os guestCID deadline = (\<lambda>(streamC, backoff, w).
     if \<not> no_now os w < deadline
     then Inr (Inl (WrapErr ''timeout waiting for stream server'' ErrUnavailable), streamC, w)
     else
       (let sid = streamC + 1
        in if sid = 0 then Inr (Inl (WrapErr ''exhausted stream identifiers'' ErrUnavailable), sid, w)
           else
             (case no_ctxErr os w of
                Some e \<Rightarrow> Inr (Inl e, sid, w)
              | None \<Rightarrow>
                  (case no_dial os guestCID DefaultStreamPort w of
                     (Inl err, w1) \<Rightarrow> Inl (sid, streamBackoff backoff, no_sleep os backoff w1)
                   | (Inr conn, w1) \<Rightarrow>
                       (case handshake os conn sid w1 of
                          (Some err, w2) \<Rightarrow> Inr (Inl err, sid, w2)
                        | (None, w2) \<Rightarrow> Inr (Inr (sid, conn), sid, w2))))))"

text \<open>\<open>Instance.StartStream\<close>, with whether the VM is running and the instance's stream counter.\<close>

definition StartStream ::
  "'w net_os \<Rightarrow> bool \<Rightarrow> 32 word \<Rightarrow> 32 word \<Rightarrow> 'w \<Rightarrow> ((goerr + 32 word \<times> nat) \<times> 32 word \<times> 'w) option" where
  "StartStream os running guestCID streamC w =
     (if \<not> running then Some (Inl (WrapErr ''vm not running'' ErrFailedPrecondition), streamC, w)
      else forLoop (streamBody os guestCID (no_now os w + streamTimeout)) (streamC, 5 * Millisecond, w))"

section \<open>The guest's stream service\<close>

text \<open>A stream is entered under its identifier; a connection is named by a number. \<open>ss_closed\<close> are the
  connections the service has closed.\<close>

record streamService =
  ss_streams :: "32 word \<rightharpoonup> nat"
  ss_closed :: "nat list"

text \<open>One accepted connection: what the read of four bytes filled in (or its error), and the
  error of writing the acknowledgement. The result is the acknowledgement, if one was written.\<close>

definition acceptStream ::
  "nat \<Rightarrow> goerr + 8 word list \<Rightarrow> goerr option \<Rightarrow> streamService \<Rightarrow> 8 word list option \<times> streamService" where
  "acceptStream conn readB writeErr s =
     (case readB of
        Inl err \<Rightarrow> (None, s\<lparr>ss_closed := ss_closed s @ [conn]\<rparr>)
      | Inr b \<Rightarrow>
          (let sid = beUint32 b
           in if ss_streams s sid \<noteq> None then (None, s\<lparr>ss_closed := ss_closed s @ [conn]\<rparr>)
              else
                (let s1 = s\<lparr>ss_streams := (ss_streams s)(sid \<mapsto> conn)\<rparr>
                 in case writeErr of
                      Some err \<Rightarrow> (None, s1\<lparr>ss_closed := ss_closed s1 @ [conn]\<rparr>)
                    | None \<Rightarrow> (Some b, s1))))"

definition stream_Get :: "32 word \<Rightarrow> streamService \<Rightarrow> goerr + nat" where
  "stream_Get i s =
     (case ss_streams s i of
        None \<Rightarrow> Inl (WrapErr (''stream '' @ uint32Str i @ '' not found'') ErrNotFound)
      | Some c \<Rightarrow> Inr c)"

text \<open>\<open>streamConn.Close\<close> of the stream with the identifier and connection.\<close>

definition streamConn_Close :: "32 word \<Rightarrow> nat \<Rightarrow> streamService \<Rightarrow> streamService" where
  "streamConn_Close sid conn s =
     s\<lparr>ss_streams := (ss_streams s)(sid := None), ss_closed := ss_closed s @ [conn]\<rparr>"

section \<open>Lemmas\<close>

lemma bePut_length [simp]: "length (bePutUint32 v) = 4"
  by (simp add: bePutUint32_def)

lemma be_roundtrip: "beUint32 (bePutUint32 v) = v"
proof (rule bit_word_eqI)
  fix n assume "n < LENGTH(32)"
  then have "n < 32" by simp
  then consider "n < 8" | "8 \<le> n" "n < 16" | "16 \<le> n" "n < 24" | "24 \<le> n" "n < 32" by linarith
  then show "bit (beUint32 (bePutUint32 v)) n = bit v n"
    by cases (auto simp: beUint32_def bePutUint32_def bit_simps)
qed

subsection \<open>Open connections\<close>

text \<open>The environment that records in its world which connections are open.\<close>

definition trackedNet :: "'w net_os \<Rightarrow> ('w \<times> nat set) net_os" where
  "trackedNet os =
     \<lparr>no_now = \<lambda>(w, op). no_now os w,
      no_sleep = \<lambda>d (w, op). (no_sleep os d w, op),
      no_ctxErr = \<lambda>(w, op). no_ctxErr os w,
      no_stat = \<lambda>p (w, op). no_stat os p w,
      no_tick = \<lambda>t k (w, op). (case no_tick os t k w of (r, w') \<Rightarrow> (r, w', op)),
      no_dial = \<lambda>c p (w, op). (case no_dial os c p w of
                  (Inl e, w') \<Rightarrow> (Inl e, w', op) | (Inr c, w') \<Rightarrow> (Inr c, w', insert c op)),
      no_setReadDeadline = \<lambda>c t (w, op). (case no_setReadDeadline os c t w of (r, w') \<Rightarrow> (r, w', op)),
      no_write = \<lambda>c b (w, op). (case no_write os c b w of (r, w') \<Rightarrow> (r, w', op)),
      no_readFull = \<lambda>c n (w, op). (case no_readFull os c n w of (r, w') \<Rightarrow> (r, w', op)),
      no_discard = \<lambda>c n (w, op). (case no_discard os c n w of (r, w') \<Rightarrow> (r, w', op)),
      no_close = \<lambda>c (w, op). (no_close os c w, op - {c})\<rparr>"

lemma clockOk_tracked: "clockOk os \<Longrightarrow> clockOk (trackedNet os)"
  by (auto simp: clockOk_def trackedNet_def split: prod.splits sum.splits; metis fst_conv snd_conv)

lemma clockD:
  assumes "clockOk os"
  shows "no_now os w + d \<le> no_now os (no_sleep os d w)"
    and "no_dial os c p w = (r1, w') \<Longrightarrow> no_now os w \<le> no_now os w'"
    and "no_setReadDeadline os k t w = (r2, w') \<Longrightarrow> no_now os w \<le> no_now os w'"
    and "no_write os k b w = (r3, w') \<Longrightarrow> no_now os w \<le> no_now os w'"
    and "no_readFull os k n w = (r4, w') \<Longrightarrow> no_now os w \<le> no_now os w'"
    and "no_discard os k m w = (r5, w') \<Longrightarrow> no_now os w \<le> no_now os w'"
    and "no_now os w \<le> no_now os (no_close os k w)"
    and "no_tick os t i w = (None, w') \<Longrightarrow> t + 50 * Millisecond * int (Suc i) \<le> no_now os w'"
  using assms unfolding clockOk_def by (metis fst_conv snd_conv)+

lemma pingTTRPC_clock:
  assumes "clockOk os" "pingTTRPC os c w = (r, w')"
  shows "no_now os w \<le> no_now os w'"
  using assms(2) clockD(4-6) [OF assms(1)]
  by (fastforce simp: pingTTRPC_def Let_def split: prod.splits sum.splits option.splits if_splits
      intro: order_trans)

lemma pingTTRPC_open:
  "pingTTRPC (trackedNet os) c (w, op) = (r, w', op') \<Longrightarrow> op' = op"
  by (auto simp: pingTTRPC_def trackedNet_def Let_def split: prod.splits sum.splits option.splits if_splits)

lemma timeSub_gt_iff: "0 \<le> d \<Longrightarrow> d < maxInt64 \<Longrightarrow> timeSub t u > d \<longleftrightarrow> t - u > d"
  by (auto simp: timeSub_def maxInt64_def minInt64_def)

subsection \<open>Connecting ends\<close>

lemma checkConn_clock:
  assumes "clockOk os" "checkConn os c pd w = (r, w')"
  shows "no_now os w \<le> no_now os w'"
proof -
  note mono = clockD(3) [OF assms(1)] pingTTRPC_clock [OF assms(1)]
  show ?thesis
    using assms(2) unfolding checkConn_def
    by (auto split: prod.splits option.splits dest!: mono)
qed

text \<open>An iteration that goes on: the context and the time-out have been checked, the clock has moved by
  the back-off, and the connection it opened is closed again.\<close>

lemma connectBody_continue:
  assumes "connectBody os cid start (b, pd, w) = Inl (b', pd', w')" "clockOk os"
  shows "b' = rpcBackoff b \<and> no_now os w - start \<le> connectRetryTimeout \<and> no_now os w + b \<le> no_now os w'"
proof -
  have T: "\<not> timeSub (no_now os w) start > connectRetryTimeout" and ctx: "no_ctxErr os w = None"
    using assms(1) by (auto simp: connectBody_def split: option.splits if_splits)
  obtain r w1 where d: "no_dial os cid DefaultRPCPort w = (r, w1)" by fastforce
  have "b' = rpcBackoff b \<and> no_now os w + b \<le> no_now os w'"
  proof (cases r)
    case (Inl e)
    with assms(1) T ctx d have "b' = rpcBackoff b" "w' = no_sleep os b w1"
      by (simp_all add: connectBody_def)
    then show ?thesis using clockD(2) [OF assms(2) d] clockD(1) [OF assms(2), of w1 b] by simp
  next
    case (Inr c)
    obtain p w2 where k: "checkConn os c pd w1 = (p, w2)" by fastforce
    with assms(1) T ctx d Inr have "b' = rpcBackoff b" "w' = no_sleep os b (no_close os c w2)"
      by (auto simp: connectBody_def split: option.splits)
    then show ?thesis
      using clockD(2) [OF assms(2) d] checkConn_clock [OF assms(2) k] clockD(7) [OF assms(2), of w2 c]
        clockD(1) [OF assms(2), of "no_close os c w2" b] by simp
  qed
  moreover have "no_now os w - start \<le> connectRetryTimeout"
    using T by (simp add: timeSub_gt_iff connectRetryTimeout_def maxInt64_def)
  ultimately show ?thesis by simp
qed

definition connectInv :: "'w net_os \<Rightarrow> duration \<times> duration \<times> 'w \<Rightarrow> bool" where
  "connectInv os = (\<lambda>(b, pd, w). clockOk os \<and> 0 < b \<and> b \<le> rpcMaxBackoff)"

definition connectLeft :: "'w net_os \<Rightarrow> go_time \<Rightarrow> duration \<times> duration \<times> 'w \<Rightarrow> nat" where
  "connectLeft os start = (\<lambda>(b, pd, w). nat (start + connectRetryTimeout + 1 - no_now os w))"

lemma rpcBackoff_range: "0 < b \<Longrightarrow> b \<le> rpcMaxBackoff \<Longrightarrow> 0 < rpcBackoff b \<and> rpcBackoff b \<le> rpcMaxBackoff"
  by (simp add: rpcBackoff_def rpcMaxBackoff_def wrap64_def)

interpretation connecting: bounded_loop "connectBody os cid start" "connectInv os" "connectLeft os start"
  for os :: "'w net_os" and cid start
proof unfold_locales
  fix s s' :: "duration \<times> duration \<times> 'w"
  assume inv: "connectInv os s" and body: "connectBody os cid start s = Inl s'"
  obtain b pd w b' pd' w' where s: "s = (b, pd, w)" "s' = (b', pd', w')" by (metis prod_cases3)
  with inv have ok: "clockOk os" "0 < b" "b \<le> rpcMaxBackoff" by (simp_all add: connectInv_def)
  with connectBody_continue [of os cid start b pd w b' pd' w'] body s
  have c: "b' = rpcBackoff b" "no_now os w - start \<le> connectRetryTimeout" "no_now os w + b \<le> no_now os w'"
    by auto
  show "connectInv os s'" using s c(1) ok rpcBackoff_range by (auto simp: connectInv_def)
  show "connectLeft os start s' < connectLeft os start s"
    using s c(2,3) ok(2) by (simp add: connectLeft_def)
qed

text \<open>Which connections an iteration leaves open.\<close>

lemma tracked_open:
  shows "no_dial (trackedNet os) cid p (w, op) = (r1, w', op') \<Longrightarrow>
      op' = (case r1 of Inl e \<Rightarrow> op | Inr c \<Rightarrow> insert c op)"
    and "no_setReadDeadline (trackedNet os) k t (w, op) = (r2, w', op') \<Longrightarrow> op' = op"
    and "no_write (trackedNet os) k bs (w, op) = (r3, w', op') \<Longrightarrow> op' = op"
    and "no_readFull (trackedNet os) k n (w, op) = (r4, w', op') \<Longrightarrow> op' = op"
    and "no_close (trackedNet os) k (w, op) = (no_close os k w, op - {k})"
    and "no_sleep (trackedNet os) d (w, op) = (no_sleep os d w, op)"
  by (auto simp: trackedNet_def split: prod.splits sum.splits)

lemma checkConn_open:
  "checkConn (trackedNet os) c pd (w, op) = (r, w', op') \<Longrightarrow> op' = op"
  unfolding checkConn_def
  by (auto split: prod.splits option.splits dest!: tracked_open(2) pingTTRPC_open)

definition connOpen :: "nat set \<Rightarrow> (goerr + nat) \<times> 'w \<times> nat set \<Rightarrow> bool" where
  "connOpen op0 = (\<lambda>(r, w, op). case r of Inl e \<Rightarrow> op \<subseteq> op0 | Inr c \<Rightarrow> op \<subseteq> insert c op0)"

lemma connectBody_open:
  assumes "op \<subseteq> op0"
  shows "case connectBody (trackedNet os) cid start (b, pd, w, op) of
      Inl (b', pd', w', op') \<Rightarrow> op' \<subseteq> op0
    | Inr r \<Rightarrow> connOpen op0 r"
proof -
  obtain r w1 op1 where d: "no_dial (trackedNet os) cid DefaultRPCPort (w, op) = (r, w1, op1)"
    by (metis prod_cases3)
  show ?thesis
  proof (cases r)
    case (Inl e)
    then show ?thesis
      using assms d tracked_open(1) [OF d]
      by (simp add: connectBody_def connOpen_def tracked_open(6) split: option.splits)
  next
    case (Inr c)
    obtain p w2 op2 where k: "checkConn (trackedNet os) c pd (w1, op1) = (p, w2, op2)"
      by (metis prod_cases3)
    show ?thesis
      using assms d Inr k tracked_open(1) [OF d] checkConn_open [OF k]
      by (cases p) (auto simp: connectBody_def connOpen_def tracked_open(5,6) split: option.splits)
  qed
qed

abbreviation openOf :: "'a \<times> 'b \<times> 'w \<times> nat set \<Rightarrow> nat set" where
  "openOf s \<equiv> snd (snd (snd s))"

lemma connectBody_openD:
  assumes "openOf s \<subseteq> op0"
  shows "connectBody (trackedNet os) cid start s = Inl s' \<Longrightarrow> openOf s' \<subseteq> op0"
    and "connectBody (trackedNet os) cid start s = Inr r \<Longrightarrow> connOpen op0 r"
proof -
  obtain b pd w op where s: "s = (b, pd, w, op)" by (metis prod_cases4)
  have x: "case connectBody (trackedNet os) cid start s of
      Inl (b', pd', w', op') \<Rightarrow> op' \<subseteq> op0 | Inr r \<Rightarrow> connOpen op0 r"
    unfolding s by (rule connectBody_open) (use assms s in simp)
  show "connectBody (trackedNet os) cid start s = Inl s' \<Longrightarrow> openOf s' \<subseteq> op0"
    and "connectBody (trackedNet os) cid start s = Inr r \<Longrightarrow> connOpen op0 r"
    using x by (auto split: prod.splits)
qed

lemma connectVsockRPC_open:
  assumes "connectVsockRPC (trackedNet os) cid (w, op) = Some r"
  shows "connOpen op r"
  using assms unfolding connectVsockRPC_def
  by (rule forLoop_post [where P = "\<lambda>s. openOf s \<subseteq> op"])
    (simp, erule (1) connectBody_openD(1), erule (1) connectBody_openD(2))

lemma waitBody_open:
  assumes "snd (snd s) = op"
  shows "waitBody (trackedNet os) path t start s = Inl s' \<Longrightarrow> snd (snd s') = op"
    and "waitBody (trackedNet os) path t start s = Inr r \<Longrightarrow> snd (snd r) = op"
proof -
  obtain k v where s: "s = (k, v, op)" using assms by (metis prod.collapse)
  obtain x v' where tk: "no_tick os start k v = (x, v')" by (metis surj_pair)
  then have tk': "no_tick (trackedNet os) start k (v, op) = (x, v', op)"
    by (simp add: trackedNet_def)
  show "waitBody (trackedNet os) path t start s = Inl s' \<Longrightarrow> snd (snd s') = op"
    and "waitBody (trackedNet os) path t start s = Inr r \<Longrightarrow> snd (snd r) = op"
    unfolding s waitBody_def by (auto simp: tk' split: if_splits option.splits)
qed

lemma waitForSocket_open:
  assumes "waitForSocket (trackedNet os) path t (w, op) = Some r"
  shows "snd (snd r) = op"
  using assms unfolding waitForSocket_def
  by (rule forLoop_post [where P = "\<lambda>s. snd (snd s) = op"])
    (simp, erule (1) waitBody_open(1), erule (1) waitBody_open(2))


subsection \<open>Waiting for the socket ends\<close>

definition waitInv :: "'w net_os \<Rightarrow> go_time \<Rightarrow> nat \<times> 'w \<Rightarrow> bool" where
  "waitInv os start = (\<lambda>(k, w). clockOk os \<and> start + 50 * Millisecond * int k \<le> no_now os w)"

interpretation waiting: bounded_loop "waitBody os path (10 * Second) start" "waitInv os start"
    "\<lambda>(k, w). 201 - k"
  for os :: "'w net_os" and path start
proof unfold_locales
  fix s s' :: "nat \<times> 'w"
  assume inv: "waitInv os start s" and body: "waitBody os path (10 * Second) start s = Inl s'"
  obtain k w where s: "s = (k, w)" by fastforce
  obtain r w1 where t: "no_tick os start k w = (r, w1)" by fastforce
  have ok: "clockOk os" and lo: "start + 50 * Millisecond * int k \<le> no_now os w"
    using inv s by (simp_all add: waitInv_def)
  have T: "no_now os w - start \<le> 10 * Second" and r: "r = None" and s': "s' = (Suc k, w1)"
    using body s t by (auto simp: waitBody_def timeSub_gt_iff maxInt64_def split: if_splits option.splits)
  show "waitInv os start s'"
    using ok clockD(8) [OF ok, of start k w w1] t r s' by (simp add: waitInv_def)
  show "(case s' of (k, w) \<Rightarrow> 201 - k) < (case s of (k, w) \<Rightarrow> 201 - k)"
    using T lo s s' by simp
qed

lemma waitForSocket_returns: "clockOk os \<Longrightarrow> \<exists>r. waitForSocket os path (10 * Second) w = Some r"
  unfolding waitForSocket_def by (rule waiting.returns) (simp add: waitInv_def)

subsection \<open>Streams end\<close>

lemma handshake_open:
  assumes "handshake (trackedNet os) c sid (w, op) = (r, w', op')"
  shows "op' = (if r = None then op else op - {c})"
  using assms unfolding handshake_def
  by (auto simp: tracked_open(5) split: prod.splits option.splits sum.splits if_splits
      dest!: tracked_open(3,4))

definition streamInv :: "'w net_os \<Rightarrow> 32 word \<times> duration \<times> 'w \<Rightarrow> bool" where
  "streamInv os = (\<lambda>(c, b, w). clockOk os \<and> 0 < b \<and> b \<le> streamMaxBackoff)"

lemma streamBackoff_range:
  "0 < b \<Longrightarrow> b \<le> streamMaxBackoff \<Longrightarrow> 0 < streamBackoff b \<and> streamBackoff b \<le> streamMaxBackoff"
  by (simp add: streamBackoff_def streamMaxBackoff_def wrap64_def)

lemma streamBody_continue:
  assumes "streamBody os cid deadline (sc, b, w) = Inl (sc', b', w')" "clockOk os"
  shows "sc' = sc + 1 \<and> sc' \<noteq> 0 \<and> b' = streamBackoff b \<and> no_now os w < deadline \<and> no_now os w + b \<le> no_now os w'"
proof -
  obtain r w1 where d: "no_dial os cid DefaultStreamPort w = (r, w1)" by fastforce
  have c: "no_now os w < deadline" "sc + 1 \<noteq> 0" "no_ctxErr os w = None"
    using assms(1) by (auto simp: streamBody_def Let_def split: option.splits if_splits)
  have "sc' = sc + 1" "b' = streamBackoff b" "w' = no_sleep os b w1"
    using assms(1) c d by (auto simp: streamBody_def Let_def split: sum.splits prod.splits option.splits)
  then show ?thesis
    using c clockD(2) [OF assms(2) d] clockD(1) [OF assms(2), of w1 b] by simp
qed

interpretation streaming: bounded_loop "streamBody os cid deadline" "streamInv os"
    "\<lambda>(c, b, w). nat (deadline - no_now os w)"
  for os :: "'w net_os" and cid deadline
proof unfold_locales
  fix s s' :: "32 word \<times> duration \<times> 'w"
  assume inv: "streamInv os s" and body: "streamBody os cid deadline s = Inl s'"
  obtain c b w c' b' w' where s: "s = (c, b, w)" "s' = (c', b', w')" by (metis prod_cases3)
  with inv have ok: "clockOk os" "0 < b" "b \<le> streamMaxBackoff" by (simp_all add: streamInv_def)
  with streamBody_continue [of os cid deadline c b w c' b' w'] body s
  have x: "b' = streamBackoff b" "no_now os w < deadline" "no_now os w + b \<le> no_now os w'" by auto
  show "streamInv os s'" using s x(1) ok streamBackoff_range by (auto simp: streamInv_def)
  show "(case s' of (c, b, w) \<Rightarrow> nat (deadline - no_now os w)) < (case s of (c, b, w) \<Rightarrow> nat (deadline - no_now os w))"
    using s x(2,3) ok(2) by simp
qed

text \<open>What a call returns, given the counter and the connections it started with.\<close>

definition streamResult ::
  "32 word \<Rightarrow> nat set \<Rightarrow> (goerr + 32 word \<times> nat) \<times> 32 word \<times> 'w \<times> nat set \<Rightarrow> bool" where
  "streamResult c0 op0 = (\<lambda>(r, c, w, op).
     case r of Inl e \<Rightarrow> op \<subseteq> op0 \<and> (c0 \<le> c \<or> c = 0)
     | Inr (sid, conn) \<Rightarrow> op \<subseteq> insert conn op0 \<and> c0 < sid \<and> sid = c)"

lemma word_Suc_less: "(c0 :: 32 word) \<le> c \<Longrightarrow> c + 1 \<noteq> 0 \<Longrightarrow> c0 < c + 1"
  using unatSuc [of c] by (simp add: add.commute word_less_nat_alt word_le_nat_alt)

lemma streamBody_result:
  assumes "c0 \<le> c" "op \<subseteq> op0"
  shows "case streamBody (trackedNet os) cid deadline (c, b, w, op) of
      Inl (c', b', w', op') \<Rightarrow> c0 \<le> c' \<and> op' \<subseteq> op0
    | Inr r \<Rightarrow> streamResult c0 op0 r"
proof (cases "c + 1 = 0")
  case True
  then show ?thesis using assms by (simp add: streamBody_def streamResult_def)
next
  case False
  then have lt: "c0 < c + 1" by (rule word_Suc_less [OF assms(1)])
  obtain r w1 op1 where d: "no_dial (trackedNet os) cid DefaultStreamPort (w, op) = (r, w1, op1)"
    by (metis prod_cases3)
  show ?thesis
  proof (cases r)
    case (Inl e)
    then show ?thesis
      using assms d lt order_less_imp_le [OF lt] False tracked_open(1) [OF d]
      by (simp add: streamBody_def streamResult_def tracked_open(6) Let_def split: option.splits)
  next
    case (Inr k)
    obtain p w2 op2 where h: "handshake (trackedNet os) k (c + 1) (w1, op1) = (p, w2, op2)"
      by (metis prod_cases3)
    show ?thesis
      using assms d Inr h lt order_less_imp_le [OF lt] False tracked_open(1) [OF d] handshake_open [OF h]
      by (cases p) (auto simp: streamBody_def streamResult_def Let_def split: option.splits)
  qed
qed

lemma streamBody_resultD:
  assumes "c0 \<le> fst s" "openOf s \<subseteq> op0"
  shows "streamBody (trackedNet os) cid deadline s = Inl s' \<Longrightarrow> c0 \<le> fst s' \<and> openOf s' \<subseteq> op0"
    and "streamBody (trackedNet os) cid deadline s = Inr r \<Longrightarrow> streamResult c0 op0 r"
proof -
  obtain c b w op where s: "s = (c, b, w, op)" by (metis prod_cases4)
  have x: "case streamBody (trackedNet os) cid deadline s of
      Inl (c', b', w', op') \<Rightarrow> c0 \<le> c' \<and> op' \<subseteq> op0 | Inr r \<Rightarrow> streamResult c0 op0 r"
    unfolding s by (rule streamBody_result) (use assms s in simp_all)
  show "streamBody (trackedNet os) cid deadline s = Inl s' \<Longrightarrow> c0 \<le> fst s' \<and> openOf s' \<subseteq> op0"
    and "streamBody (trackedNet os) cid deadline s = Inr r \<Longrightarrow> streamResult c0 op0 r"
    using x by (auto split: prod.splits)
qed

text \<open>Opening a stream always ends as long as the clock goes on; the stream it returns has a
  larger identifier than the counter had, which is the counter's new value, so no
  identifier is given out twice before the counter is exhausted; and of the connections it opened only the one it returns
  stays open.\<close>

theorem stream_start_returns:
  assumes "clockOk os"
  shows "\<exists>r. StartStream (trackedNet os) running cid c (w, op) = Some r \<and> streamResult c op r"
proof (cases running)
  case False
  then show ?thesis by (simp add: StartStream_def streamResult_def)
next
  case True
  let ?body = "streamBody (trackedNet os) cid (no_now (trackedNet os) (w, op) + streamTimeout)"
  let ?s = "(c, 5 * Millisecond, w, op)"
  have inv: "streamInv (trackedNet os) ?s"
    using assms by (simp add: streamInv_def clockOk_tracked streamMaxBackoff_def)
  obtain r where r: "forLoop ?body ?s = Some r"
    using streaming.returns [OF inv] by blast
  have "streamResult c op r"
    using r by (rule forLoop_post [where P = "\<lambda>s. c \<le> fst s \<and> openOf s \<subseteq> op"])
      (simp, metis streamBody_resultD(1), metis streamBody_resultD(2))
  then show ?thesis using r True by (simp add: StartStream_def)
qed

text \<open>An environment in which time passes and nothing answers.\<close>

definition silentNet :: "int net_os" where
  "silentNet =
     \<lparr>no_now = \<lambda>t. t, no_sleep = \<lambda>d t. t + \<bar>d\<bar>, no_ctxErr = \<lambda>t. None, no_stat = \<lambda>p t. Some (Errno ''ENOENT''),
      no_tick = \<lambda>s k t. (None, max t (s + 50 * Millisecond * int (Suc k))),
      no_dial = \<lambda>c p t. (Inl (Errno ''ECONNRESET''), t),
      no_setReadDeadline = \<lambda>c d t. (None, t), no_write = \<lambda>c b t. ((length b, None), t),
      no_readFull = \<lambda>c n t. (Inl (Errno ''EIO''), t), no_discard = \<lambda>c n t. (None, t), no_close = \<lambda>c t. t\<rparr>"

lemma silentNet_clock: "clockOk silentNet"
  by (auto simp: clockOk_def silentNet_def)


theorem stream_start_returns_witness:
  "clockOk silentNet
    \<and> (\<exists>r. StartStream (trackedNet silentNet) True 7 3 (0, {}) = Some r \<and> streamResult 3 {} r)"
  using silentNet_clock stream_start_returns [OF silentNet_clock, of True 7 3 0 "{}"] by simp

subsection \<open>The guest's side\<close>

text \<open>C32. The two ends of a stream agree: when the guest reads the identifier the shim sent and the identifier is not
  in use, it enters the connection under exactly that identifier, its acknowledgement is what the shim
  expects, and every other stream stays as it was; an identifier in use is refused.\<close>

theorem stream_ends_agree:
  "case acceptStream conn (Inr (bePutUint32 sid)) None s of
     (Some ack, s') \<Rightarrow> ss_streams s sid = None \<and> beUint32 ack = sid \<and> stream_Get sid s' = Inr conn
        \<and> (\<lambda>i. if i = sid then None else ss_streams s' i) = ss_streams s \<and> ss_closed s' = ss_closed s
   | (None, s') \<Rightarrow> ss_streams s sid \<noteq> None \<and> ss_streams s' = ss_streams s \<and> conn \<in> set (ss_closed s')"
  by (auto simp: acceptStream_def Let_def be_roundtrip stream_Get_def)

text \<open>A failed acknowledgement closes the connection but leaves its entry, so the stream is
  still handed out.\<close>

lemma failed_ack_leaves_stream:
  assumes "ss_streams s (beUint32 b) = None"
  shows "stream_Get (beUint32 b) (snd (acceptStream conn (Inr b) (Some err) s)) = Inr conn
    \<and> conn \<in> set (ss_closed (snd (acceptStream conn (Inr b) (Some err) s)))"
  using assms by (simp add: acceptStream_def Let_def stream_Get_def)

end
