(* ===== verification/Vsock_Alloc.thy ===== *)
theory Vsock_Alloc
  imports Contracts Go_Filepath "HOL-Library.Word"
begin

text \<open>
  \<^verbatim>\<open>internal/vsock/allocator.go\<close>: the allocator of vsock context identifiers (CIDs), one
  lock file per CID.

  A CID is a 32-bit word and the scan increments it with wrap-around, so the scan is a
  partial function: not returning is \<open>None\<close>. The lock directory is a map from file names
  to files; a file has its decoded metadata (absent when it is empty or malformed), its
  modification time and the open file description that holds its lock. What the operating
  system answers to each call is the record \<open>cid_env\<close>.
\<close>

section \<open>Data\<close>

record cidMetadata =
  md_PID :: int
  md_AllocatedAt :: go_time
  md_ReleasedAt :: "go_time option"

record lockfile =
  lf_meta :: "cidMetadata option"
  lf_mtime :: go_time
  lf_holder :: "nat option"

record lockdir =
  ld_files :: "string \<rightharpoonup> lockfile"
  ld_nextFd :: nat

record Allocator =
  al_lockDir :: string
  al_minCID :: "32 word"
  al_maxCID :: "32 word"
  al_cooldown :: duration

record Lease =
  le_CID :: "32 word"
  le_file :: "nat option"
  le_path :: string

text \<open>\<open>ce_write\<close> gives the error of \<open>writeMetadata\<close> on a file and whether the file had
  been truncated by then.\<close>

record cid_env =
  ce_mkdir :: "goerr option"
  ce_open :: "string \<Rightarrow> goerr option"
  ce_stat :: "string \<Rightarrow> bool"
  ce_write :: "string \<Rightarrow> (goerr \<times> bool) option"
  ce_close :: "string \<Rightarrow> goerr option"
  ce_now :: go_time
  ce_mtime :: go_time
  ce_pid :: int

section \<open>Operations\<close>

definition NewAllocator :: "string \<Rightarrow> 32 word \<Rightarrow> 32 word \<Rightarrow> duration \<Rightarrow> Allocator" where
  "NewAllocator lockDir minCID maxCID cooldown =
     \<lparr>al_lockDir = lockDir, al_minCID = minCID, al_maxCID = maxCID, al_cooldown = cooldown\<rparr>"

definition lockName :: "32 word \<Rightarrow> string" where
  "lockName cid = natStr (unat cid) @ ''.lock''"

definition emptyMeta :: cidMetadata where
  "emptyMeta = \<lparr>md_PID = 0, md_AllocatedAt = 0, md_ReleasedAt = None\<rparr>"

definition readMetadata :: "lockfile \<Rightarrow> cidMetadata" where
  "readMetadata f = (case lf_meta f of None \<Rightarrow> emptyMeta | Some m \<Rightarrow> m)"

definition writeMetadata ::
  "cid_env \<Rightarrow> string \<Rightarrow> cidMetadata \<Rightarrow> lockfile \<Rightarrow> goerr option \<times> lockfile" where
  "writeMetadata env name meta f =
     (case ce_write env name of
        None \<Rightarrow> (None, f\<lparr>lf_meta := Some meta, lf_mtime := ce_mtime env\<rparr>)
      | Some (err, truncated) \<Rightarrow>
          (Some err, if truncated then f\<lparr>lf_meta := None, lf_mtime := ce_mtime env\<rparr> else f))"

definition isCoolingDown ::
  "go_time \<Rightarrow> cidMetadata \<Rightarrow> go_time option \<Rightarrow> duration \<Rightarrow> bool" where
  "isCoolingDown now meta modTime cooldown =
     (if cooldown \<le> 0 then False
      else
        (let last = (case md_ReleasedAt meta of
                       Some r \<Rightarrow> r
                     | None \<Rightarrow>
                         if \<not> timeIsZero (md_AllocatedAt meta) then md_AllocatedAt meta
                         else (case modTime of Some m \<Rightarrow> m | None \<Rightarrow> 0))
         in if timeIsZero last then False else timeSub now last < cooldown))"

text \<open>\<open>os.OpenFile\<close> with \<open>O_CREATE\<close>: the file, made if it is missing.\<close>

definition openLock :: "cid_env \<Rightarrow> string \<Rightarrow> lockdir \<Rightarrow> lockfile" where
  "openLock env name d =
     (case ld_files d name of
        Some f \<Rightarrow> f
      | None \<Rightarrow> \<lparr>lf_meta = None, lf_mtime = ce_mtime env, lf_holder = None\<rparr>)"

definition putFile :: "string \<Rightarrow> lockfile \<Rightarrow> lockdir \<Rightarrow> lockdir" where
  "putFile name f d = d\<lparr>ld_files := (ld_files d)(name \<mapsto> f)\<rparr>"

text \<open>One iteration of the scan: the lease, or nothing when the loop continues.\<close>

definition tryCID ::
  "cid_env \<Rightarrow> Allocator \<Rightarrow> 32 word \<Rightarrow> lockdir \<Rightarrow> Lease option \<times> lockdir" where
  "tryCID env a cid d =
     (let name = lockName cid
      in if ce_open env name \<noteq> None then (None, d)
         else
           (let f = openLock env name d; d1 = putFile name f d
            in if lf_holder f \<noteq> None then (None, d1)
               else if isCoolingDown (ce_now env) (readMetadata f)
                         (if ce_stat env name then Some (lf_mtime f) else None) (al_cooldown a)
               then (None, d1)
               else
                 (case writeMetadata env name
                         \<lparr>md_PID = ce_pid env, md_AllocatedAt = ce_now env, md_ReleasedAt = None\<rparr> f of
                    (Some err, f') \<Rightarrow> (None, putFile name f' d1)
                  | (None, f') \<Rightarrow>
                      (Some \<lparr>le_CID = cid, le_file = Some (ld_nextFd d1),
                             le_path = pathJoin [al_lockDir a, name]\<rparr>,
                       (putFile name (f'\<lparr>lf_holder := Some (ld_nextFd d1)\<rparr>) d1)
                         \<lparr>ld_nextFd := ld_nextFd d1 + 1\<rparr>))))"

partial_function (option) allocLoop ::
  "cid_env \<Rightarrow> Allocator \<Rightarrow> 32 word \<Rightarrow> lockdir \<Rightarrow> (Lease option \<times> lockdir) option" where
  "allocLoop env a cid d =
     (if cid \<le> al_maxCID a then
        (case tryCID env a cid d of
           (Some lease, d') \<Rightarrow> Some (Some lease, d')
         | (None, d') \<Rightarrow> allocLoop env a (cid + 1) d')
      else Some (None, d))"

definition Allocate ::
  "cid_env \<Rightarrow> Allocator \<Rightarrow> lockdir \<Rightarrow> ((goerr + Lease) \<times> lockdir) option" where
  "Allocate env a d =
     (case ce_mkdir env of
        Some e \<Rightarrow> Some (Inl (WrapErr ''failed to create CID lock directory'' e), d)
      | None \<Rightarrow>
          (case allocLoop env a (al_minCID a) d of
             None \<Rightarrow> None
           | Some (Some lease, d') \<Rightarrow> Some (Inr lease, d')
           | Some (None, d') \<Rightarrow>
               Some (Inl (Errorf (''no available vsock CID in range ['' @ natStr (unat (al_minCID a))
                            @ '', '' @ natStr (unat (al_maxCID a)) @ '']'')), d')))"

text \<open>\<open>Release\<close> acts on the file description the lease holds; a released lease has none.\<close>

definition Release :: "cid_env \<Rightarrow> Lease \<Rightarrow> lockdir \<Rightarrow> goerr option \<times> Lease \<times> lockdir" where
  "Release env l d =
     (case le_file l of
        None \<Rightarrow> (None, l, d)
      | Some fd \<Rightarrow>
          (let name = lockName (le_CID l); f = openLock env name d;
               meta = readMetadata f;
               meta1 = (if timeIsZero (md_AllocatedAt meta)
                        then meta\<lparr>md_AllocatedAt := ce_now env\<rparr> else meta);
               meta2 = meta1\<lparr>md_PID := ce_pid env, md_ReleasedAt := Some (ce_now env)\<rparr>;
               (_, f') = writeMetadata env name meta2 f
           in (ce_close env name, l\<lparr>le_file := None\<rparr>, putFile name (f'\<lparr>lf_holder := None\<rparr>) d)))"

section \<open>Lemmas\<close>

lemma lockName_inject [simp]: "lockName a = lockName b \<longleftrightarrow> a = b"
  by (auto simp: lockName_def dest: natStr_inject unsigned_word_eqI)

definition fileOf :: "lockdir \<Rightarrow> 32 word \<Rightarrow> lockfile option" where
  "fileOf d cid = ld_files d (lockName cid)"

definition heldBy :: "lockdir \<Rightarrow> 32 word \<Rightarrow> nat option" where
  "heldBy d cid = (case fileOf d cid of None \<Rightarrow> None | Some f \<Rightarrow> lf_holder f)"

text \<open>When the scan would take a CID, and the list of CIDs it looks at.\<close>

definition usable :: "cid_env \<Rightarrow> Allocator \<Rightarrow> lockdir \<Rightarrow> 32 word \<Rightarrow> bool" where
  "usable env a d cid \<longleftrightarrow> fst (tryCID env a cid d) \<noteq> None"

definition cidRange :: "32 word \<Rightarrow> 32 word \<Rightarrow> 32 word list" where
  "cidRange lo hi = map word_of_nat [unat lo ..< Suc (unat hi)]"

lemma tryCID_other: "cid' \<noteq> cid \<Longrightarrow> fileOf (snd (tryCID env a cid d)) cid' = fileOf d cid'"
  by (simp add: tryCID_def putFile_def fileOf_def Let_def split: prod.splits option.splits)

lemma usable_cong:
  "fileOf d' cid = fileOf d cid \<Longrightarrow> usable env a d' cid = usable env a d cid"
  by (auto simp: usable_def tryCID_def fileOf_def openLock_def Let_def split: prod.splits option.splits)

lemma tryCID_Some:
  assumes "tryCID env a cid d = (Some l, d')"
  shows "le_CID l = cid \<and> le_file l = Some (ld_nextFd d) \<and> heldBy d cid = None
     \<and> heldBy d' cid = Some (ld_nextFd d) \<and> ld_nextFd d' = Suc (ld_nextFd d)"
  using assms
  by (auto simp: tryCID_def putFile_def heldBy_def fileOf_def openLock_def Let_def
      split: if_splits prod.splits option.splits)

lemma tryCID_None:
  assumes "tryCID env a cid d = (None, d')"
  shows "heldBy d' cid = heldBy d cid \<and> ld_nextFd d' = ld_nextFd d"
  using assms
  by (auto simp: tryCID_def putFile_def heldBy_def fileOf_def openLock_def writeMetadata_def Let_def
      split: if_splits prod.splits option.splits)

text \<open>The first CID of a range, when the scan cannot wrap around.\<close>

lemma unat_next: "unat (lo :: 32 word) < 4294967295 \<Longrightarrow> unat (lo + 1) = Suc (unat lo)"
proof -
  assume lt: "unat lo < 4294967295"
  have "unat (lo + 1) = (unat lo + 1) mod 4294967296" by (simp add: unat_word_ariths)
  with lt show ?thesis by simp
qed

lemma cidRange_Cons:
  assumes "lo \<le> hi" "unat hi < 4294967295"
  shows "cidRange lo hi = lo # cidRange (lo + 1) hi"
proof -
  have le: "unat lo \<le> unat hi" using assms(1) by (simp add: word_le_nat_alt)
  then have "[unat lo ..< Suc (unat hi)] = unat lo # [Suc (unat lo) ..< Suc (unat hi)]"
    by (simp add: upt_conv_Cons)
  then show ?thesis using le assms(2) unat_next [of lo] by (simp add: cidRange_def)
qed

lemma cidRange_Nil: "\<not> lo \<le> hi \<Longrightarrow> cidRange lo hi = []"
  by (simp add: cidRange_def word_le_nat_alt)

lemma cidRange_greater: "c \<in> set (cidRange (lo + 1) hi) \<Longrightarrow> unat hi < 4294967295 \<Longrightarrow> lo \<le> hi \<Longrightarrow> c \<noteq> lo"
  using unat_next [of lo]
  by (auto simp: cidRange_def word_le_nat_alt unat_of_nat)

lemma set_cidRange: "c \<in> set (cidRange lo hi) \<longleftrightarrow> lo \<le> c \<and> c \<le> hi"
proof
  assume "lo \<le> c \<and> c \<le> hi"
  then have "unat c \<in> set [unat lo ..< Suc (unat hi)]" by (auto simp: word_le_nat_alt)
  from imageI [OF this, of "word_of_nat :: nat \<Rightarrow> 32 word"] show "c \<in> set (cidRange lo hi)"
    unfolding cidRange_def by (simp del: upt_Suc)
next
  assume "c \<in> set (cidRange lo hi)"
  then obtain x where x: "c = word_of_nat x" "unat lo \<le> x" "x \<le> unat hi"
    by (auto simp: cidRange_def)
  moreover have "unat hi < 4294967296" using unsigned_less [of hi] by simp
  ultimately show "lo \<le> c \<and> c \<le> hi" by (simp add: word_le_nat_alt unat_of_nat)
qed

text \<open>What a scan from a CID on does, in terms of the directory it starts with.\<close>

definition scan_result :: "cid_env \<Rightarrow> Allocator \<Rightarrow> lockdir \<Rightarrow> 32 word list \<Rightarrow> Lease option \<Rightarrow> lockdir \<Rightarrow> bool" where
  "scan_result env a d cids r d' \<longleftrightarrow>
     (case find (usable env a d) cids of
        None \<Rightarrow> r = None \<and> heldBy d' = heldBy d \<and> ld_nextFd d' = ld_nextFd d
      | Some c \<Rightarrow>
          heldBy d c = None \<and> heldBy d' = (heldBy d)(c := Some (ld_nextFd d))
          \<and> ld_nextFd d' = Suc (ld_nextFd d)
          \<and> (\<exists>l. r = Some l \<and> le_CID l = c \<and> le_file l = Some (ld_nextFd d)))"

lemma heldBy_other: "cid' \<noteq> cid \<Longrightarrow> heldBy (snd (tryCID env a cid d)) cid' = heldBy d cid'"
  by (simp add: heldBy_def tryCID_other)

lemma allocLoop_spec:
  assumes "unat (al_maxCID a) < 4294967295"
  shows "\<exists>r d'. allocLoop env a cid d = Some (r, d')
     \<and> scan_result env a d (cidRange cid (al_maxCID a)) r d'"
proof (induction "Suc (unat (al_maxCID a)) - unat cid" arbitrary: cid d rule: less_induct)
  case less
  show ?case
  proof (cases "cid \<le> al_maxCID a")
    case False
    then show ?thesis
      by (subst allocLoop.simps) (simp add: cidRange_Nil scan_result_def)
  next
    case True
    obtain r d1 where t: "tryCID env a cid d = (r, d1)" by (cases "tryCID env a cid d")
    note range = cidRange_Cons [OF True assms]
    show ?thesis
    proof (cases r)
      case (Some l)
      have u: "usable env a d cid" using t Some by (simp add: usable_def)
      have "heldBy d1 = (heldBy d)(cid := Some (ld_nextFd d))"
        using tryCID_Some [of env a cid d l d1] t Some heldBy_other [of _ cid env a d] by auto
      with u t Some True tryCID_Some [of env a cid d l d1] show ?thesis
        by (subst allocLoop.simps) (simp add: range scan_result_def)
    next
      case None
      have nu: "\<not> usable env a d cid" using t None by (simp add: usable_def)
      have h: "heldBy d1 = heldBy d" and n: "ld_nextFd d1 = ld_nextFd d"
        using tryCID_None [of env a cid d d1] t None heldBy_other [of _ cid env a d] by fastforce+
      have same: "usable env a d1 c = usable env a d c" if "c \<in> set (cidRange (cid + 1) (al_maxCID a))" for c
        using that cidRange_greater [OF that assms True] tryCID_other [of c cid env a d] t
        by (intro usable_cong) simp
      have "unat (cid + 1) = Suc (unat cid)"
        using True assms by (intro unat_next) (simp add: word_le_nat_alt)
      then have "Suc (unat (al_maxCID a)) - unat (cid + 1) < Suc (unat (al_maxCID a)) - unat cid"
        using True by (simp add: word_le_nat_alt)
      from less [OF this, of d1] obtain r' d' where
        "allocLoop env a (cid + 1) d1 = Some (r', d')"
        "scan_result env a d1 (cidRange (cid + 1) (al_maxCID a)) r' d'" by blast
      moreover have "find (usable env a d1) (cidRange (cid + 1) (al_maxCID a))
          = find (usable env a d) (cidRange (cid + 1) (al_maxCID a))"
        by (rule find_cong) (simp_all add: same)
      ultimately show ?thesis
        using nu t None True h n
        by (subst allocLoop.simps) (simp add: range scan_result_def split: option.splits)
    qed
  qed
qed

lemma find_range: "find P (cidRange lo hi) = Some c \<Longrightarrow> P c \<and> lo \<le> c \<and> c \<le> hi"
  by (metis find_Some_iff nth_mem set_cidRange)

section \<open>Runs\<close>

text \<open>The allocator the VM instances use (\<open>minGuestCID\<close>, \<open>maxGuestCID\<close>,
  \<open>cidCooldownPeriod\<close> of \<^verbatim>\<open>host/vm/qemu/instance.go\<close>).\<close>

definition guestAllocator :: "string \<Rightarrow> Allocator" where
  "guestAllocator lockDir = NewAllocator lockDir 4 65535 (2 * Second)"

lemma guest_max [simp]:
  "unat (al_maxCID (guestAllocator dir)) < 4294967295" "al_minCID (guestAllocator dir) = 4"
  by (simp_all add: guestAllocator_def NewAllocator_def)

text \<open>Several shims allocate and release CIDs in the same directory, the system answering
  as it likes; the leases handed out and not released are kept in a list.\<close>

datatype cid_op = OpAllocate cid_env | OpRelease nat cid_env

fun cid_exec :: "Allocator \<Rightarrow> cid_op \<Rightarrow> lockdir \<times> Lease list \<Rightarrow> lockdir \<times> Lease list" where
  "cid_exec a (OpAllocate env) (d, ls) =
     (case Allocate env a d of
        Some (Inr l, d') \<Rightarrow> (d', ls @ [l])
      | Some (Inl e, d') \<Rightarrow> (d', ls)
      | None \<Rightarrow> (d, ls))"
| "cid_exec a (OpRelease i env) (d, ls) =
     (if i < length ls
      then (snd (snd (Release env (ls ! i) d)), take i ls @ drop (Suc i) ls) else (d, ls))"

text \<open>Outstanding leases are for different CIDs of the range, and each holds its lock.\<close>

fun cid_inv :: "Allocator \<Rightarrow> lockdir \<times> Lease list \<Rightarrow> bool" where
  "cid_inv a (d, ls) \<longleftrightarrow>
     distinct (map le_CID ls) \<and>
     (\<forall>l \<in> set ls. le_file l \<noteq> None \<and> heldBy d (le_CID l) = le_file l
        \<and> al_minCID a \<le> le_CID l \<and> le_CID l \<le> al_maxCID a)"

lemma Allocate_cases:
  assumes "unat (al_maxCID a) < 4294967295" "Allocate env a d = Some (r, d')"
  obtains
    (lease) l where "r = Inr l" "usable env a d (le_CID l)" "heldBy d (le_CID l) = None"
      "heldBy d' = (heldBy d)(le_CID l := le_file l)" "le_file l \<noteq> None"
      "al_minCID a \<le> le_CID l" "le_CID l \<le> al_maxCID a"
  | (fail) e where "r = Inl e" "heldBy d' = heldBy d"
proof (cases "ce_mkdir env")
  case (Some e)
  with assms(2) fail show ?thesis by (auto simp: Allocate_def)
next
  case None
  from allocLoop_spec [OF assms(1), of env "al_minCID a" d] obtain r0 d0 where
    l: "allocLoop env a (al_minCID a) d = Some (r0, d0)"
    "scan_result env a d (cidRange (al_minCID a) (al_maxCID a)) r0 d0" by blast
  show ?thesis
  proof (cases "find (usable env a d) (cidRange (al_minCID a) (al_maxCID a))")
    case (Some c)
    with l(2) obtain l' where r: "r0 = Some l'" "le_CID l' = c" "le_file l' = Some (ld_nextFd d)"
      "heldBy d c = None" "heldBy d0 = (heldBy d)(c := Some (ld_nextFd d))"
      by (auto simp: scan_result_def)
    from assms(2) None l(1) r(1) have "r = Inr l'" "d' = d0" by (auto simp: Allocate_def)
    with r find_range [OF Some] lease [of l'] show ?thesis by auto
  next
    case none: None
    with l(2) assms(2) None l(1) fail show ?thesis by (auto simp: Allocate_def scan_result_def)
  qed
qed

lemma heldBy_Release:
  "le_file l \<noteq> None \<Longrightarrow> heldBy (snd (snd (Release env l d))) = (heldBy d)(le_CID l := None)"
  by (auto simp: Release_def heldBy_def fileOf_def putFile_def Let_def fun_eq_iff
      split: option.splits prod.splits)

lemma remove_nth: "i < length xs \<Longrightarrow> distinct (map f xs) \<Longrightarrow>
  x \<in> set (take i xs @ drop (Suc i) xs) \<Longrightarrow> x \<in> set xs \<and> f x \<noteq> f (xs ! i)"
  and distinct_remove_nth: "distinct (map f xs) \<Longrightarrow> distinct (map f (take i xs @ drop (Suc i) xs))"
proof -
  assume i: "i < length xs" and d: "distinct (map f xs)"
    and x: "x \<in> set (take i xs @ drop (Suc i) xs)"
  from d have "distinct (map f (take i xs @ xs ! i # drop (Suc i) xs))"
    using id_take_nth_drop [OF i] by simp
  then have "f (xs ! i) \<notin> f ` set (take i xs @ drop (Suc i) xs)" by auto
  with x have "f x \<noteq> f (xs ! i)" by (metis imageI)
  with x show "x \<in> set xs \<and> f x \<noteq> f (xs ! i)"
    by (auto dest: in_set_takeD in_set_dropD)
next
  assume d: "distinct (map f xs)"
  have "set (map f (take i xs)) \<inter> set (map f (drop (Suc i) xs)) = {}"
    using d set_take_disj_set_drop_if_distinct [OF d, of i "Suc i"] by (simp add: take_map drop_map)
  then show "distinct (map f (take i xs @ drop (Suc i) xs))"
    using d by (simp add: distinct_take distinct_drop take_map [symmetric] drop_map [symmetric])
qed

interpretation cid_machine: op_machine "cid_exec (guestAllocator dir)" "cid_inv (guestAllocator dir)" for dir
proof
  fix s :: "lockdir \<times> Lease list" and x
  assume inv: "cid_inv (guestAllocator dir) s"
  obtain d ls where s: "s = (d, ls)" by (cases s)
  show "cid_inv (guestAllocator dir) (cid_exec (guestAllocator dir) x s)"
  proof (cases x)
    case (OpRelease i env)
    show ?thesis
    proof (cases "i < length ls")
      case True
      have "le_file (ls ! i) \<noteq> None" using inv s True by auto
      with inv s OpRelease True remove_nth [OF True, of le_CID] distinct_remove_nth [of le_CID ls i]
      show ?thesis by (auto simp: heldBy_Release)
    qed (use inv s OpRelease in auto)
  next
    case (OpAllocate env)
    show ?thesis
    proof (cases "Allocate env (guestAllocator dir) d")
      case (Some rd)
      obtain r d' where rd: "rd = (r, d')" by (cases rd)
      from Some rd show ?thesis
        using inv s OpAllocate
        by (cases rule: Allocate_cases [OF guest_max(1), of env dir d r d']) (auto split: if_splits)
    qed (use inv s OpAllocate in auto)
  qed
qed

section \<open>Properties\<close>

text \<open>C19. No two VMs share a CID: whatever sequence of allocations and releases the shims
  of a host make in one lock directory, and whatever errors the file system returns, the
  leases that are outstanding have pairwise different CIDs, all in the guest range (so
  never one of the reserved CIDs 0 to 3), and each holds the lock of its file.\<close>

theorem outstanding_cids_distinct:
  "case fold (cid_exec (guestAllocator dir)) xs (\<lparr>ld_files = Map.empty, ld_nextFd = 0\<rparr>, []) of
     (d, ls) \<Rightarrow>
       distinct (map le_CID ls) \<and>
       list_all (\<lambda>l. le_file l \<noteq> None \<and> heldBy d (le_CID l) = le_file l
         \<and> 4 \<le> le_CID l \<and> le_CID l \<le> 65535) ls"
proof -
  let ?s = "fold (cid_exec (guestAllocator dir)) xs (\<lparr>ld_files = Map.empty, ld_nextFd = 0\<rparr>, [])"
  have "cid_inv (guestAllocator dir) ?s" by (rule cid_machine.inv_run) simp
  moreover have "al_maxCID (guestAllocator dir) = 65535"
    by (simp add: guestAllocator_def NewAllocator_def)
  ultimately show ?thesis by (cases ?s) (auto simp: list_all_iff)
qed

text \<open>C20. The scan ends and takes the first CID it can: for a range whose upper end is not
  the largest 32-bit number, \<open>Allocate\<close> returns, it returns the lowest usable CID when
  there is one, and an error otherwise.\<close>

theorem allocate_takes_first_usable:
  assumes "unat (al_maxCID a) < 4294967295" and "ce_mkdir env = None"
  shows "\<exists>r d'. Allocate env a d = Some (r, d')
     \<and> (case find (usable env a d) (cidRange (al_minCID a) (al_maxCID a)) of
          Some c \<Rightarrow> \<exists>l. r = Inr l \<and> le_CID l = c \<and> heldBy d c = None \<and> heldBy d' c = le_file l
        | None \<Rightarrow> \<exists>e. r = Inl e)"
proof -
  from allocLoop_spec [OF assms(1), of env "al_minCID a" d] obtain r d' where
    l: "allocLoop env a (al_minCID a) d = Some (r, d')"
    "scan_result env a d (cidRange (al_minCID a) (al_maxCID a)) r d'" by blast
  then show ?thesis using assms(2)
    by (cases "find (usable env a d) (cidRange (al_minCID a) (al_maxCID a))")
       (auto simp: Allocate_def scan_result_def)
qed

definition quiet_cid_env :: cid_env where
  "quiet_cid_env = \<lparr>ce_mkdir = None, ce_open = \<lambda>_. None, ce_stat = \<lambda>_. True, ce_write = \<lambda>_. None,
     ce_close = \<lambda>_. None, ce_now = 10 * Second, ce_mtime = 10 * Second, ce_pid = 1\<rparr>"

theorem allocate_takes_first_usable_witness:
  "\<exists>l d'. Allocate quiet_cid_env (NewAllocator ''/run'' 4 9 0) \<lparr>ld_files = Map.empty, ld_nextFd = 0\<rparr>
       = Some (Inr l, d') \<and> le_CID l = 4"
proof -
  let ?a = "NewAllocator ''/run'' 4 9 0" and ?d = "\<lparr>ld_files = Map.empty, ld_nextFd = 0\<rparr>"
  have "usable quiet_cid_env ?a ?d 4"
    by (simp add: usable_def tryCID_def quiet_cid_env_def NewAllocator_def openLock_def putFile_def
        isCoolingDown_def writeMetadata_def Let_def)
  moreover have "cidRange 4 9 = 4 # cidRange 5 9"
    using cidRange_Cons [of 4 9] by simp
  ultimately have "find (usable quiet_cid_env ?a ?d) (cidRange (al_minCID ?a) (al_maxCID ?a)) = Some 4"
    by (simp add: NewAllocator_def)
  moreover have "unat (al_maxCID ?a) < 4294967295" "ce_mkdir quiet_cid_env = None"
    by (simp_all add: NewAllocator_def quiet_cid_env_def)
  ultimately show ?thesis using allocate_takes_first_usable [of ?a quiet_cid_env ?d] by auto
qed

text \<open>A released CID rests: after a release whose metadata was written, no allocation
  that starts less than the cool-down period later can take that CID.\<close>

theorem released_cid_cools_down:
  assumes "Release env l d = (err, l', d')" and "le_file l \<noteq> None"
    and "ce_write env (lockName (le_CID l)) = None" and "\<not> timeIsZero (ce_now env)"
    and "ce_now env' - ce_now env < al_cooldown a" and "0 < al_cooldown a"
    and "al_cooldown a \<le> maxInt64"
  shows "\<not> usable env' a d' (le_CID l)"
proof -
  have cool: "timeSub (ce_now env') (ce_now env) < al_cooldown a"
    using assms(5-7) timeSub_less_iff [of "al_cooldown a"] by (simp add: minInt64_def)
  from assms(1-3) obtain f m where "ld_files d' (lockName (le_CID l)) = Some f"
    "lf_meta f = Some m" "md_ReleasedAt m = Some (ce_now env)"
    by (auto simp: Release_def Let_def putFile_def writeMetadata_def)
  with cool assms(4,6) show ?thesis
    by (simp add: usable_def tryCID_def openLock_def readMetadata_def isCoolingDown_def Let_def)
qed

theorem released_cid_cools_down_witness:
  "\<not> usable (quiet_cid_env\<lparr>ce_now := 11 * Second\<rparr>) (guestAllocator ''/run'')
      (snd (snd (Release quiet_cid_env \<lparr>le_CID = 7, le_file = Some 0, le_path = ''x''\<rparr>
         \<lparr>ld_files = Map.empty, ld_nextFd = 1\<rparr>))) 7"
proof -
  let ?l = "\<lparr>le_CID = 7 :: 32 word, le_file = Some (0::nat), le_path = ''x''\<rparr>"
  let ?r = "Release quiet_cid_env ?l \<lparr>ld_files = Map.empty, ld_nextFd = 1\<rparr>"
  have "\<not> usable (quiet_cid_env\<lparr>ce_now := 11 * Second\<rparr>) (guestAllocator ''/run'')
      (snd (snd ?r)) (le_CID ?l)"
    by (rule released_cid_cools_down [of quiet_cid_env ?l _ "fst ?r" "fst (snd ?r)"])
       (simp_all add: quiet_cid_env_def guestAllocator_def NewAllocator_def timeIsZero_def maxInt64_def)
  then show ?thesis by simp
qed

text \<open>A lock file that does not exist yet counts as cooling down, because creating it
  gives it the current modification time: in a lock directory with no files, an allocator
  with a cool-down period takes no CID at all and returns an error.\<close>

theorem fresh_directory_allocates_nothing:
  assumes "unat (al_maxCID a) < 4294967295" and "ce_mkdir env = None"
    and "ld_files d = Map.empty" and "\<And>n. ce_stat env n"
    and "\<not> timeIsZero (ce_mtime env)" and "ce_now env - ce_mtime env < al_cooldown a"
    and "0 < al_cooldown a" and "al_cooldown a \<le> maxInt64"
  shows "\<exists>e d'. Allocate env a d = Some (Inl e, d')"
proof -
  have cool: "timeSub (ce_now env) (ce_mtime env) < al_cooldown a"
    using assms(6-8) timeSub_less_iff [of "al_cooldown a"] by (simp add: minInt64_def)
  have "\<not> usable env a d c" for c
    using assms(3-5,7) cool
    by (simp add: usable_def tryCID_def openLock_def readMetadata_def emptyMeta_def isCoolingDown_def
        timeIsZero_def Let_def)
  then have "find (usable env a d) (cidRange (al_minCID a) (al_maxCID a)) = None"
    by (simp add: find_None_iff)
  moreover from allocLoop_spec [OF assms(1), of env "al_minCID a" d] obtain r d' where
    "allocLoop env a (al_minCID a) d = Some (r, d')"
    "scan_result env a d (cidRange (al_minCID a) (al_maxCID a)) r d'" by blast
  ultimately show ?thesis using assms(2) by (simp add: Allocate_def scan_result_def)
qed

theorem fresh_directory_allocates_nothing_witness:
  "\<exists>e d'. Allocate quiet_cid_env (guestAllocator ''/run'') \<lparr>ld_files = Map.empty, ld_nextFd = 0\<rparr>
     = Some (Inl e, d')"
  by (rule fresh_directory_allocates_nothing)
     (simp_all add: quiet_cid_env_def guestAllocator_def NewAllocator_def timeIsZero_def maxInt64_def)

end
