(* ===== verification/Qemu_Instance.thy ===== *)
theory Qemu_Instance
  imports Vsock_Dial Vsock_Alloc
begin

text \<open>
  The QEMU instance of a shim: construction and paths (\<^verbatim>\<open>host/vm/qemu/instance.go\<close>), the life-cycle
  state (\<^verbatim>\<open>qemu.go\<close>), devices (\<^verbatim>\<open>devices.go\<close>), \<open>Start\<close> with its roll-back (\<^verbatim>\<open>start.go\<close>), the guest
  clients (\<^verbatim>\<open>client.go\<close>) and \<open>Shutdown\<close> (\<^verbatim>\<open>shutdown.go\<close>).

  The operating system, the QEMU process and the QMP connection are functions of an environment
  record over a world. Open files and connections are named by numbers. The
  background goroutines appear through their effects: the console reader stores the handle of the FIFO
  (\<open>consoleReaderOpened\<close>), and the process monitor is the answer of \<open>qo_waitExit\<close>. A call
  returns \<open>None\<close> when one of the loops in it never ends.
\<close>

section \<open>The environment\<close>

text \<open>How a dial with a time limit ends: by the context, by the limit, or with the dial's result.\<close>

datatype dialOutcome = DialCtx goerr | DialTimeout | DialDone "goerr + nat"

record 'w qemu_os =
  qo_net :: "'w net_os"
  qo_probe :: "'w \<Rightarrow> probe"
  qo_config :: "'w \<Rightarrow> goerr + PathsConfig"
  qo_mkdirAll :: "string \<Rightarrow> 'w \<Rightarrow> goerr option \<times> 'w"
  qo_remove :: "string \<Rightarrow> 'w \<Rightarrow> 'w"
  qo_removeAll :: "string \<Rightarrow> 'w \<Rightarrow> 'w"
  qo_mkfifo :: "string \<Rightarrow> 'w \<Rightarrow> goerr option \<times> 'w"
  qo_create :: "string \<Rightarrow> 'w \<Rightarrow> (goerr + nat) \<times> 'w"
  qo_openTAP :: "string \<Rightarrow> string \<Rightarrow> 'w \<Rightarrow> (goerr + nat) \<times> 'w"
  qo_startCmd :: "string \<Rightarrow> string list \<Rightarrow> nat list \<Rightarrow> 'w \<Rightarrow> (goerr + nat) \<times> 'w"
  qo_kill :: "nat \<Rightarrow> 'w \<Rightarrow> goerr option \<times> 'w"
  qo_waitExit :: "nat \<Rightarrow> duration \<Rightarrow> 'w \<Rightarrow> bool \<times> 'w"
  qo_newMonitor :: "string \<Rightarrow> 'w \<Rightarrow> (goerr + nat) \<times> 'w"
  qo_monConnect :: "nat \<Rightarrow> 'w \<Rightarrow> goerr option \<times> 'w"
  qo_monEvents :: "nat \<Rightarrow> 'w \<Rightarrow> goerr option \<times> 'w"
  qo_qmpRun :: "nat \<Rightarrow> string \<Rightarrow> 'w \<Rightarrow> goerr option \<times> 'w"
  qo_release :: "Lease \<Rightarrow> 'w \<Rightarrow> 'w"
  qo_dialTimeout :: "32 word \<Rightarrow> 32 word \<Rightarrow> duration \<Rightarrow> 'w \<Rightarrow> dialOutcome \<times> 'w"
  qo_statDev :: "string \<Rightarrow> 'w \<Rightarrow> goerr + nat \<times> nat"

abbreviation closeH :: "'w qemu_os \<Rightarrow> nat \<Rightarrow> 'w \<Rightarrow> 'w" where
  "closeH os \<equiv> no_close (qo_net os)"

abbreviation statErr :: "'w qemu_os \<Rightarrow> string \<Rightarrow> 'w \<Rightarrow> goerr option" where
  "statErr os \<equiv> no_stat (qo_net os)"

section \<open>Data\<close>

datatype vmState = vmStateNew | vmStateStarting | vmStateRunning | vmStateShutdown

record instancePaths =
  ip_stateDir :: string
  ip_logDir :: string
  ip_qmpSocketPath :: string
  ip_vsockPath :: string
  ip_consolePath :: string
  ip_consoleFifoPath :: string
  ip_qemuLogPath :: string

text \<open>\<open>q_cmd\<close> is \<open>Some None\<close> for a command whose process was not started.\<close>

record Instance =
  q_vmState :: vmState
  q_streamC :: "32 word"
  q_binaryPath :: string
  q_paths :: instancePaths
  q_kernelPath :: string
  q_initrdPath :: string
  q_resourceCfg :: VMResourceConfig
  q_guestCID :: "32 word"
  q_cidLease :: "Lease option"
  q_consoleFile :: "nat option"
  q_consoleFifo :: "nat option"
  q_cmd :: "nat option option"
  q_qmpClient :: "nat option"
  q_client :: "nat option"
  q_vsockConn :: "nat option"
  q_runCancel :: bool
  q_cancelled :: bool
  q_tapNetns :: string
  q_disks :: "DiskConfig list"
  q_nets :: "NetConfig list"
  q_networkCfg :: "NetworkConfig option"

definition getState :: "Instance \<Rightarrow> vmState" where
  "getState q = q_vmState q"

definition setState :: "vmState \<Rightarrow> Instance \<Rightarrow> Instance" where
  "setState st q = q\<lparr>q_vmState := st\<rparr>"

definition compareAndSwapState :: "vmState \<Rightarrow> vmState \<Rightarrow> Instance \<Rightarrow> bool \<times> Instance" where
  "compareAndSwapState old new q =
     (if q_vmState q = old then (True, q\<lparr>q_vmState := new\<rparr>) else (False, q))"

section \<open>Construction\<close>

definition maxUnixSocketPath :: nat where
  "maxUnixSocketPath = 107"

definition newInstancePaths :: "string \<Rightarrow> string \<Rightarrow> goerr + instancePaths" where
  "newInstancePaths stateDir logDir =
     (let p = \<lparr>ip_stateDir = stateDir, ip_logDir = logDir,
               ip_qmpSocketPath = pathJoin [stateDir, ''qmp.sock''],
               ip_vsockPath = pathJoin [stateDir, ''vsock.sock''],
               ip_consolePath = pathJoin [logDir, ''console.log''],
               ip_consoleFifoPath = pathJoin [stateDir, ''console.fifo''],
               ip_qemuLogPath = pathJoin [logDir, ''qemu.log'']\<rparr>
      in if length (ip_qmpSocketPath p) > maxUnixSocketPath
         then Inl (Errorf (''QMP socket path too long: '' @ ip_qmpSocketPath p))
         else if length (ip_vsockPath p) > maxUnixSocketPath
         then Inl (Errorf (''vsock socket path too long: '' @ ip_vsockPath p))
         else Inr p)"

definition findQemu :: "'w qemu_os \<Rightarrow> 'w \<Rightarrow> goerr + string" where
  "findQemu os w =
     (case qo_config os w of
        Inl e \<Rightarrow> Inl (WrapErr ''failed to get config'' e)
      | Inr cfg \<Rightarrow>
          (let path = QemuPath (qo_probe os w) cfg
           in if statErr os path w = None then Inr path
              else Inl (Errorf (''qemu-system-x86_64 binary not found at '' @ path))))"

definition findKernel :: "'w qemu_os \<Rightarrow> 'w \<Rightarrow> goerr + string" where
  "findKernel os w =
     (case qo_config os w of
        Inl e \<Rightarrow> Inl (WrapErr ''failed to get config'' e)
      | Inr cfg \<Rightarrow>
          (let path = KernelPath cfg
           in if statErr os path w = None then Inr path
              else Inl (Errorf (''kernel not found at '' @ path))))"

definition findInitrd :: "'w qemu_os \<Rightarrow> 'w \<Rightarrow> goerr + string" where
  "findInitrd os w =
     (case qo_config os w of
        Inl e \<Rightarrow> Inl (WrapErr ''failed to get config'' e)
      | Inr cfg \<Rightarrow>
          (let path = InitrdPath cfg
           in if statErr os path w = None then Inr path
              else Inl (Errorf (''initrd not found at '' @ path))))"

definition mkInstance ::
  "string \<Rightarrow> instancePaths \<Rightarrow> string \<Rightarrow> string \<Rightarrow> VMResourceConfig \<Rightarrow> Lease \<Rightarrow> Instance" where
  "mkInstance binaryPath p kernelPath initrdPath resourceCfg lease =
     \<lparr>q_vmState = vmStateNew, q_streamC = 0, q_binaryPath = binaryPath, q_paths = p,
      q_kernelPath = kernelPath, q_initrdPath = initrdPath, q_resourceCfg = resourceCfg,
      q_guestCID = le_CID lease, q_cidLease = Some lease,
      q_consoleFile = None, q_consoleFifo = None, q_cmd = None, q_qmpClient = None, q_client = None,
      q_vsockConn = None, q_runCancel = False, q_cancelled = False, q_tapNetns = '''',
      q_disks = [], q_nets = [], q_networkCfg = None\<rparr>"

text \<open>The CID lock directory is passed along; its environment is that of the allocator.\<close>

definition newInstance ::
  "'w qemu_os \<Rightarrow> cid_env \<Rightarrow> string \<Rightarrow> string \<Rightarrow> string \<Rightarrow> VMResourceConfig option \<Rightarrow> lockdir \<Rightarrow> 'w
     \<Rightarrow> ((goerr + Instance) \<times> lockdir \<times> 'w) option" where
  "newInstance os env containerID binaryPath stateDir cfg0 d w =
     (case findKernel os w of
        Inl e \<Rightarrow> Some (Inl e, d, w)
      | Inr kernelPath \<Rightarrow>
        (case findInitrd os w of
           Inl e \<Rightarrow> Some (Inl e, d, w)
         | Inr initrdPath \<Rightarrow>
           (case qo_config os w of
              Inl e \<Rightarrow> Some (Inl (WrapErr ''failed to get config for log directory'' e), d, w)
            | Inr cfg \<Rightarrow>
              (let logDir = pathJoin [LogDir cfg, containerID]
               in case qo_mkdirAll os logDir w of
                    (Some e, w1) \<Rightarrow> Some (Inl (WrapErr ''failed to create log directory'' e), d, w1)
                  | (None, w1) \<Rightarrow>
                    (case newInstancePaths stateDir logDir of
                       Inl e \<Rightarrow> Some (Inl e, d, w1)
                     | Inr p \<Rightarrow>
                       (case Allocate env (guestAllocator (pathJoin [StateDir cfg, ''cid''])) d of
                          None \<Rightarrow> None
                        | Some (Inl e, d1) \<Rightarrow> Some (Inl (WrapErr ''failed to allocate vsock CID'' e), d1, w1)
                        | Some (Inr lease, d1) \<Rightarrow>
                            Some (Inr (mkInstance binaryPath p kernelPath initrdPath
                                         (validateResourceConfig cfg0) lease), d1, w1)))))))"

text \<open>\<open>NewInstance\<close> returns the interface \<open>vm.Instance\<close>. Its own errors come with a nil interface,
  but the results of \<open>newInstance\<close> are passed on converted, so that on an error of that call the
  interface holds a nil \<open>*Instance\<close>.\<close>

definition NewInstance ::
  "'w qemu_os \<Rightarrow> cid_env \<Rightarrow> string \<Rightarrow> string \<Rightarrow> VMResourceConfig option \<Rightarrow> lockdir \<Rightarrow> 'w
     \<Rightarrow> ((goerr option \<times> Instance iface) \<times> lockdir \<times> 'w) option" where
  "NewInstance os env containerID stateDir cfg d w =
     (case findQemu os w of
        Inl e \<Rightarrow> Some ((Some e, NilIface), d, w)
      | Inr binaryPath \<Rightarrow>
          (case qo_mkdirAll os stateDir w of
             (Some e, w1) \<Rightarrow> Some ((Some (WrapErr ''failed to create state directory'' e), NilIface), d, w1)
           | (None, w1) \<Rightarrow>
               (case newInstance os env containerID binaryPath stateDir cfg d w1 of
                  None \<Rightarrow> None
                | Some (Inl e, d1, w2) \<Rightarrow> Some ((Some e, TypedNil), d1, w2)
                | Some (Inr q, d1, w2) \<Rightarrow> Some ((None, Iface q), d1, w2))))"

section \<open>Devices\<close>

text \<open>\<open>%x\<close>.\<close>

fun hexStr :: "nat \<Rightarrow> string" where
  "hexStr n = (if n < 16 then [''0123456789abcdef'' ! n] else hexStr (n div 16) @ [''0123456789abcdef'' ! (n mod 16)])"

declare hexStr.simps [simp del]

text \<open>On Linux \<open>os.Stat\<close> always gives the device and inode numbers, so the fallback on the path's
  encoding is not reached.\<close>

definition generateStableDiskID :: "'w qemu_os \<Rightarrow> string \<Rightarrow> 'w \<Rightarrow> goerr + string" where
  "generateStableDiskID os path w =
     (case qo_statDev os path w of
        Inl e \<Rightarrow> Inl (WrapErr ''failed to stat disk path'' e)
      | Inr (dev, ino) \<Rightarrow> Inr (''disk-'' @ hexStr dev @ ''-'' @ hexStr ino))"

definition AddDisk ::
  "'w qemu_os \<Rightarrow> string \<Rightarrow> string \<Rightarrow> bool \<Rightarrow> Instance \<Rightarrow> 'w \<Rightarrow> goerr option \<times> Instance" where
  "AddDisk os blockID mountPath ro q w =
     (if getState q \<noteq> vmStateNew then (Some (Errorf ''cannot add disk after VM started''), q)
      else
        (case (if blockID = '''' then generateStableDiskID os mountPath w else Inr blockID) of
           Inl e \<Rightarrow> (Some (WrapErr ''failed to generate stable disk ID'' e), q)
         | Inr i \<Rightarrow>
             (None, q\<lparr>q_disks := q_disks q @ [\<lparr>disk_ID = i, disk_Path = mountPath, Readonly = ro\<rparr>]\<rparr>)))"

definition AddNIC :: "Instance \<Rightarrow> goerr option \<times> Instance" where
  "AddNIC q = (Some (WrapErr ''UNIX socket networking not supported by QEMU microvm; use AddTAPNIC instead''
                 ErrNotImplemented), q)"

definition AddTAPNIC :: "string \<Rightarrow> string \<Rightarrow> Instance \<Rightarrow> goerr option \<times> Instance" where
  "AddTAPNIC tapName mac q =
     (if getState q \<noteq> vmStateNew then (Some (Errorf ''cannot add NIC after VM started''), q)
      else
        (None, q\<lparr>q_nets := q_nets q @
           [\<lparr>net_ID = ''net'' @ natStr (length (q_nets q)), TapName = tapName, TapFile = None, MAC = mac\<rparr>]\<rparr>))"

section \<open>Starting\<close>

definition setupConsoleFIFO :: "'w qemu_os \<Rightarrow> Instance \<Rightarrow> 'w \<Rightarrow> goerr option \<times> Instance \<times> 'w" where
  "setupConsoleFIFO os q w =
     (let fifo = ip_consoleFifoPath (q_paths q); w0 = qo_remove os fifo w
      in case qo_mkfifo os fifo w0 of
           (Some e, w1) \<Rightarrow> (Some (WrapErr ''failed to create console FIFO'' e), q, w1)
         | (None, w1) \<Rightarrow>
             (case qo_create os (ip_consolePath (q_paths q)) w1 of
                (Inl e, w2) \<Rightarrow> (Some (WrapErr ''failed to create console log file'' e), q, qo_remove os fifo w2)
              | (Inr f, w2) \<Rightarrow> (None, q\<lparr>q_consoleFile := Some f\<rparr>, w2)))"

text \<open>The background reader of the console has opened the FIFO.\<close>

definition consoleReaderOpened :: "nat \<Rightarrow> Instance \<Rightarrow> Instance" where
  "consoleReaderOpened h q = q\<lparr>q_consoleFifo := Some h\<rparr>"

definition minMemory :: int where
  "minMemory = 128 * 1024 * 1024"

definition validateConfiguration :: "'w qemu_os \<Rightarrow> Instance \<Rightarrow> 'w \<Rightarrow> goerr option" where
  "validateConfiguration os q w =
     (case statErr os (q_kernelPath q) w of
        Some e \<Rightarrow> Some (WrapErr (''kernel not found at '' @ q_kernelPath q) e)
      | None \<Rightarrow>
     (case statErr os (q_initrdPath q) w of
        Some e \<Rightarrow> Some (WrapErr (''initrd not found at '' @ q_initrdPath q) e)
      | None \<Rightarrow>
     (case statErr os (q_binaryPath q) w of
        Some e \<Rightarrow> Some (WrapErr (''QEMU binary not found at '' @ q_binaryPath q) e)
      | None \<Rightarrow>
     (case find (\<lambda>d. statErr os (disk_Path d) w \<noteq> None) (q_disks q) of
        Some d \<Rightarrow> Some (WrapErr (''disk not found at '' @ disk_Path d) (the (statErr os (disk_Path d) w)))
      | None \<Rightarrow>
          if MemorySize (q_resourceCfg q) < minMemory
          then Some (Errorf (''memory too low: '' @ itoa (MemorySize (q_resourceCfg q)) @ '' bytes''))
          else if BootCPUs (q_resourceCfg q) < 1
          then Some (Errorf (''boot CPUs must be at least 1, got '' @ itoa (BootCPUs (q_resourceCfg q))))
          else if MaxCPUs (q_resourceCfg q) < BootCPUs (q_resourceCfg q)
          then Some (Errorf (''max CPUs ('' @ itoa (MaxCPUs (q_resourceCfg q)) @ '') cannot be less than boot CPUs''))
          else if q_nets q = []
          then Some (Errorf ''no network interface configured: call AddNetwork() before Start()'')
          else None))))"

fun closeAll :: "'w qemu_os \<Rightarrow> nat list \<Rightarrow> 'w \<Rightarrow> 'w" where
  "closeAll os [] w = w"
| "closeAll os (h # hs) w = closeAll os hs (closeH os h w)"

definition closeTAPFiles :: "'w qemu_os \<Rightarrow> Instance \<Rightarrow> 'w \<Rightarrow> Instance \<times> 'w" where
  "closeTAPFiles os q w =
     (q\<lparr>q_nets := map (\<lambda>nic. nic\<lparr>TapFile := None\<rparr>) (q_nets q), q_tapNetns := ''''\<rparr>,
      closeAll os (extraFiles (q_nets q)) w)"

text \<open>The TAPs are opened one by one; the interfaces before the failing one keep their files.\<close>

fun openTaps ::
  "'w qemu_os \<Rightarrow> string \<Rightarrow> NetConfig list \<Rightarrow> 'w \<Rightarrow> goerr option \<times> NetConfig list \<times> 'w" where
  "openTaps os netns [] w = (None, [], w)"
| "openTaps os netns (nic # ns) w =
     (case qo_openTAP os (TapName nic) netns w of
        (Inl e, w1) \<Rightarrow> (Some (WrapErr (''failed to open tap '' @ TapName nic @ '' in netns'') e), nic # ns, w1)
      | (Inr f, w1) \<Rightarrow>
          (let (r, ns', w2) = openTaps os netns ns w1 in (r, nic\<lparr>TapFile := Some f\<rparr> # ns', w2)))"

definition openTapFiles ::
  "'w qemu_os \<Rightarrow> string \<Rightarrow> Instance \<Rightarrow> 'w \<Rightarrow> goerr option \<times> Instance \<times> 'w" where
  "openTapFiles os netns q w =
     (if q_nets q = [] then (None, q, w)
      else if netns = '''' then (Some (Errorf ''network namespace is required when NICs are configured''), q, w)
      else
        (case openTaps os netns (q_nets q) w of
           (Some e, ns, w1) \<Rightarrow> (let (q', w2) = closeTAPFiles os (q\<lparr>q_nets := ns\<rparr>) w1 in (Some e, q', w2))
         | (None, ns, w1) \<Rightarrow> (None, q\<lparr>q_nets := ns, q_tapNetns := netns\<rparr>, w1)))"

text \<open>The log file is passed to QEMU as its standard output and is not closed by the shim.\<close>

definition startQemuProcess ::
  "'w qemu_os \<Rightarrow> string list \<Rightarrow> Instance \<Rightarrow> 'w \<Rightarrow> goerr option \<times> Instance \<times> 'w" where
  "startQemuProcess os qemuArgs q w =
     (case qo_create os (ip_qemuLogPath (q_paths q)) w of
        (Inl e, w1) \<Rightarrow> (Some (WrapErr ''failed to create qemu log file'' e), q, w1)
      | (Inr logFile, w1) \<Rightarrow>
          (let q1 = q\<lparr>q_cmd := Some None\<rparr>; files = extraFiles (q_nets q)
           in case qo_startCmd os (q_binaryPath q) qemuArgs files w1 of
                (Inl e, w2) \<Rightarrow> (Some (WrapErr ''failed to start qemu'' e), q1, closeAll os files w2)
              | (Inr pid, w2) \<Rightarrow> (None, q1\<lparr>q_cmd := Some (Some pid)\<rparr>, w2)))"

definition vmStartTimeout :: duration where
  "vmStartTimeout = 10 * Second"

definition ErrEventsNotSupported :: goerr where
  "ErrEventsNotSupported = Sentinel ''event monitor is not supported''"

text \<open>\<open>Disconnect\<close> of a monitor is closing its handle.\<close>

definition newQMPClient :: "'w qemu_os \<Rightarrow> string \<Rightarrow> 'w \<Rightarrow> ((goerr + nat) \<times> 'w) option" where
  "newQMPClient os socketPath w =
     (case waitForSocket (qo_net os) socketPath vmStartTimeout w of
        None \<Rightarrow> None
      | Some (Some e, w1) \<Rightarrow> Some (Inl (WrapErr ''QMP socket not available'' e), w1)
      | Some (None, w1) \<Rightarrow>
          (case qo_newMonitor os socketPath w1 of
             (Inl e, w2) \<Rightarrow> Some (Inl (WrapErr ''failed to connect to QMP socket'' e), w2)
           | (Inr m, w2) \<Rightarrow>
               (case qo_monConnect os m w2 of
                  (Some e, w3) \<Rightarrow> Some (Inl (WrapErr ''failed to negotiate QMP capabilities'' e), closeH os m w3)
                | (None, w3) \<Rightarrow>
                    (case qo_monEvents os m w3 of
                       (Some e, w4) \<Rightarrow>
                         if errIs e ErrEventsNotSupported then Some (Inr m, w4)
                         else Some (Inl (WrapErr ''failed to subscribe to QMP events'' e), closeH os m w4)
                     | (None, w4) \<Rightarrow> Some (Inr m, w4)))))"

definition killProcess :: "'w qemu_os \<Rightarrow> Instance \<Rightarrow> 'w \<Rightarrow> 'w" where
  "killProcess os q w = (case q_cmd q of Some (Some pid) \<Rightarrow> snd (qo_kill os pid w) | _ \<Rightarrow> w)"

definition connectQMP :: "'w qemu_os \<Rightarrow> Instance \<Rightarrow> 'w \<Rightarrow> (goerr option \<times> Instance \<times> 'w) option" where
  "connectQMP os q w =
     (case newQMPClient os (ip_qmpSocketPath (q_paths q)) w of
        None \<Rightarrow> None
      | Some (Inl e, w1) \<Rightarrow> Some (Some (WrapErr ''failed to connect to QMP'' e), q, killProcess os q w1)
      | Some (Inr c, w1) \<Rightarrow> Some (None, q\<lparr>q_qmpClient := Some c\<rparr>, w1))"

definition closeQMP :: "'w qemu_os \<Rightarrow> Instance \<Rightarrow> 'w \<Rightarrow> 'w" where
  "closeQMP os q w = (case q_qmpClient q of Some c \<Rightarrow> closeH os c w | None \<Rightarrow> w)"

definition connectVsockClient ::
  "'w qemu_os \<Rightarrow> Instance \<Rightarrow> 'w \<Rightarrow> (goerr option \<times> Instance \<times> 'w) option" where
  "connectVsockClient os q w =
     (case no_ctxErr (qo_net os) w of
        Some e \<Rightarrow> Some (Some e, q, closeQMP os q (killProcess os q w))
      | None \<Rightarrow>
          (case connectVsockRPC (qo_net os) (q_guestCID q) w of
             None \<Rightarrow> None
           | Some (Inl e, w1) \<Rightarrow> Some (Some e, q, closeQMP os q (killProcess os q w1))
           | Some (Inr conn, w1) \<Rightarrow> Some (None, q\<lparr>q_vsockConn := Some conn, q_client := Some conn\<rparr>, w1)))"

definition closeOpt :: "'w qemu_os \<Rightarrow> nat option \<Rightarrow> 'w \<Rightarrow> 'w" where
  "closeOpt os h w = (case h of Some c \<Rightarrow> closeH os c w | None \<Rightarrow> w)"

definition releaseLease :: "'w qemu_os \<Rightarrow> Instance \<Rightarrow> 'w \<Rightarrow> 'w" where
  "releaseLease os q w = (case q_cidLease q of Some l \<Rightarrow> qo_release os l w | None \<Rightarrow> w)"

definition removeIf :: "('w \<Rightarrow> 'w) \<Rightarrow> string \<Rightarrow> 'w \<Rightarrow> 'w" where
  "removeIf rm path w = (if path \<noteq> '''' then rm w else w)"

definition rollbackStart :: "'w qemu_os \<Rightarrow> Instance \<Rightarrow> 'w \<Rightarrow> Instance \<times> 'w" where
  "rollbackStart os q w =
     (let q0 = setState vmStateNew q;
          w1 = closeOpt os (q_vsockConn q0) w; q1 = q0\<lparr>q_vsockConn := None\<rparr>;
          w2 = closeOpt os (q_client q1) w1; q2 = q1\<lparr>q_client := None\<rparr>;
          w3 = closeOpt os (q_qmpClient q2) w2; q3 = q2\<lparr>q_qmpClient := None\<rparr>;
          w4 = closeOpt os (q_consoleFile q3) w3; q4 = q3\<lparr>q_consoleFile := None\<rparr>;
          fifo = ip_consoleFifoPath (q_paths q4);
          w5 = removeIf (qo_remove os fifo) fifo w4;
          (q5, w6) = closeTAPFiles os q4 w5;
          w7 = releaseLease os q5 w6; q6 = q5\<lparr>q_cidLease := None\<rparr>;
          dir = ip_stateDir (q_paths q6)
      in (q6, removeIf (qo_removeAll os dir) dir w7))"

text \<open>The part of \<open>Start\<close> that runs with the roll-back armed, up to setting the state.\<close>

definition layoutOf :: "Instance \<Rightarrow> vmLayout" where
  "layoutOf q =
     \<lparr>lay_kernelPath = q_kernelPath q, lay_initrdPath = q_initrdPath q,
      lay_consoleFifoPath = ip_consoleFifoPath (q_paths q), lay_qmpSocketPath = ip_qmpSocketPath (q_paths q),
      lay_guestCID = q_guestCID q, lay_resourceCfg = q_resourceCfg q, lay_disks = q_disks q, lay_nets = q_nets q\<rparr>"

definition startRun ::
  "'w qemu_os \<Rightarrow> StartOpts \<Rightarrow> Instance \<Rightarrow> 'w \<Rightarrow> (goerr option \<times> Instance \<times> 'w) option" where
  "startRun os startOpts q0 w0 =
     (let w1 = qo_remove os (ip_vsockPath (q_paths q0)) (qo_remove os (ip_qmpSocketPath (q_paths q0)) w0);
          q1 = q0\<lparr>q_networkCfg := so_NetworkConfig startOpts\<rparr>
      in case openTapFiles os (so_NetworkNamespace startOpts) q1 w1 of
           (Some e, q2, w2) \<Rightarrow> Some (Some e, q2, w2)
         | (None, q2, w2) \<Rightarrow>
             (case buildQemuCommandLine (qo_probe os w2) (qo_config os w2) (layoutOf q2)
                     (buildKernelCommandLine (q_guestCID q2) startOpts) of
                Inl e \<Rightarrow> Some (Some e, q2, w2)
              | Inr qemuArgs \<Rightarrow>
                  (case startQemuProcess os qemuArgs q2 w2 of
                     (Some e, q3, w3) \<Rightarrow> Some (Some e, q3, w3)
                   | (None, q3, w3) \<Rightarrow>
                       (case connectQMP os q3 w3 of
                          None \<Rightarrow> None
                        | Some (Some e, q4, w4) \<Rightarrow> Some (Some e, q4, w4)
                        | Some (None, q4, w4) \<Rightarrow>
                            connectVsockClient os (q4\<lparr>q_runCancel := True\<rparr>) w4))))"

definition Start ::
  "'w qemu_os \<Rightarrow> StartOpts \<Rightarrow> Instance \<Rightarrow> 'w \<Rightarrow> (goerr option \<times> Instance \<times> 'w) option" where
  "Start os startOpts q w =
     (case compareAndSwapState vmStateNew vmStateStarting q of
        (False, q') \<Rightarrow> Some (Some (Errorf ''cannot start VM in this state''), q', w)
      | (True, q0) \<Rightarrow>
          (case validateConfiguration os q0 w of
             Some e \<Rightarrow> Some (Some (WrapErr ''configuration validation failed'' e), setState vmStateNew q0, w)
           | None \<Rightarrow>
               (case setupConsoleFIFO os q0 w of
                  (Some e, q1, w1) \<Rightarrow>
                    Some (Some (WrapErr ''failed to setup console FIFO'' e), setState vmStateNew q1, w1)
                | (None, q1, w1) \<Rightarrow>
                    (case startRun os startOpts q1 w1 of
                       None \<Rightarrow> None
                     | Some (Some e, q2, w2) \<Rightarrow>
                         (let (q3, w3) = rollbackStart os q2 w2 in Some (Some e, q3, w3))
                     | Some (None, q2, w2) \<Rightarrow> Some (None, setState vmStateRunning q2, w2)))))"

section \<open>The guest's clients\<close>

definition Client :: "Instance \<Rightarrow> goerr + nat option" where
  "Client q =
     (if getState q \<noteq> vmStateRunning then Inl (WrapErr ''vm not running'' ErrFailedPrecondition)
      else Inr (q_client q))"

definition dialTimeout :: duration where
  "dialTimeout = 2 * Second"

definition DialClient :: "'w qemu_os \<Rightarrow> Instance \<Rightarrow> 'w \<Rightarrow> (goerr + nat) \<times> 'w" where
  "DialClient os q w =
     (if getState q \<noteq> vmStateRunning then (Inl (WrapErr ''vm not running'' ErrFailedPrecondition), w)
      else
        (case no_ctxErr (qo_net os) w of
           Some e \<Rightarrow> (Inl e, w)
         | None \<Rightarrow>
             (case qo_dialTimeout os (q_guestCID q) DefaultRPCPort dialTimeout w of
                (DialCtx e, w1) \<Rightarrow> (Inl e, w1)
              | (DialTimeout, w1) \<Rightarrow> (Inl (Errorf ''vsock dial timeout after 2s''), w1)
              | (DialDone (Inl e), w1) \<Rightarrow> (Inl e, w1)
              | (DialDone (Inr conn), w1) \<Rightarrow>
                  (case no_setReadDeadline (qo_net os) conn (no_now (qo_net os) w1 + 200 * Millisecond) w1 of
                     (Some e, w2) \<Rightarrow> (Inl e, closeH os conn w2)
                   | (None, w2) \<Rightarrow>
                       (case pingTTRPC (qo_net os) conn w2 of
                          (Some e, w3) \<Rightarrow> (Inl e, closeH os conn w3)
                        | (None, w3) \<Rightarrow>
                            (case no_setReadDeadline (qo_net os) conn 0 w3 of
                               (Some e, w4) \<Rightarrow> (Inl e, closeH os conn w4)
                             | (None, w4) \<Rightarrow> (Inr conn, w4)))))))"

definition QMPClient :: "Instance \<Rightarrow> nat option" where
  "QMPClient q = (if getState q = vmStateShutdown then None else q_qmpClient q)"

definition CPUHotplugger :: "Instance \<Rightarrow> goerr + nat option" where
  "CPUHotplugger q =
     (if getState q \<noteq> vmStateRunning then Inl (WrapErr ''vm not running'' ErrFailedPrecondition)
      else Inr (q_qmpClient q))"

section \<open>Shutting down\<close>

definition shutdownACPIWait :: duration where "shutdownACPIWait = 500 * Millisecond"
definition shutdownQuitWait :: duration where "shutdownQuitWait = 2 * Second"
definition shutdownKillWait :: duration where "shutdownKillWait = 2 * Second"

definition shutdownGuest :: "'w qemu_os \<Rightarrow> Instance \<Rightarrow> 'w \<Rightarrow> 'w" where
  "shutdownGuest os q w =
     (case q_qmpClient q of
        None \<Rightarrow> w
      | Some c \<Rightarrow>
          (case qo_qmpRun os c ''send-key'' w of
             (Some e, w1) \<Rightarrow> snd (qo_qmpRun os c ''system_powerdown'' w1)
           | (None, w1) \<Rightarrow> w1))"

definition cleanupAfterFailedKill :: "'w qemu_os \<Rightarrow> Instance \<Rightarrow> 'w \<Rightarrow> Instance \<times> 'w" where
  "cleanupAfterFailedKill os q w =
     closeTAPFiles os (q\<lparr>q_qmpClient := None\<rparr>) (closeOpt os (q_qmpClient q) w)"

text \<open>The last resort: SIGKILL, and waiting for the process to go.\<close>

definition killQemu :: "'w qemu_os \<Rightarrow> nat \<Rightarrow> Instance \<Rightarrow> 'w \<Rightarrow> goerr option \<times> Instance \<times> 'w" where
  "killQemu os pid q w =
     (let q' = q\<lparr>q_cmd := None\<rparr>
      in case qo_kill os pid w of
           (Some e, w1) \<Rightarrow>
             (let (q2, w2) = cleanupAfterFailedKill os q' w1
              in (Some (WrapErr ''failed to kill QEMU process'' e), q2, w2))
         | (None, w1) \<Rightarrow>
             (case qo_waitExit os pid shutdownKillWait w1 of
                (True, w2) \<Rightarrow> (None, q', w2)
              | (False, w2) \<Rightarrow>
                  (let (q2, w3) = cleanupAfterFailedKill os q' w2
                   in (Some (Errorf ''process did not exit after SIGKILL''), q2, w3))))"

definition stopQemuProcess ::
  "'w qemu_os \<Rightarrow> Instance \<Rightarrow> 'w \<Rightarrow> goerr option \<times> Instance \<times> 'w" where
  "stopQemuProcess os q w =
     (case q_cmd q of
        None \<Rightarrow> (None, q, w)
      | Some None \<Rightarrow> (None, q, w)
      | Some (Some pid) \<Rightarrow>
          (case qo_waitExit os pid shutdownACPIWait w of
             (True, w1) \<Rightarrow> (None, q\<lparr>q_cmd := None\<rparr>, w1)
           | (False, w1) \<Rightarrow>
               (case q_qmpClient q of
                  None \<Rightarrow> killQemu os pid q w1
                | Some c \<Rightarrow>
                    (case qo_qmpRun os c ''quit'' w1 of
                       (Some e, w2) \<Rightarrow> killQemu os pid q w2
                     | (None, w2) \<Rightarrow>
                         (case qo_waitExit os pid shutdownQuitWait w2 of
                            (True, w3) \<Rightarrow> (None, q\<lparr>q_cmd := None\<rparr>, w3)
                          | (False, w3) \<Rightarrow> killQemu os pid q w3)))))"

definition closeClientConnections :: "'w qemu_os \<Rightarrow> Instance \<Rightarrow> 'w \<Rightarrow> Instance \<times> 'w" where
  "closeClientConnections os q w =
     (q\<lparr>q_client := None, q_vsockConn := None, q_consoleFifo := None\<rparr>,
      closeOpt os (q_consoleFifo q) (closeOpt os (q_vsockConn q) (closeOpt os (q_client q) w)))"

definition cancelBackgroundMonitors :: "Instance \<Rightarrow> Instance" where
  "cancelBackgroundMonitors q = (if q_runCancel q then q\<lparr>q_cancelled := True\<rparr> else q)"

text \<open>The QMP client is passed to \<open>closeAndLog\<close> as an interface, so a nil client is not recognised
  there and its \<open>Close\<close> dereferences the nil pointer; closing a nil \<open>os.File\<close> is only an error.\<close>

definition cleanupResources :: "'w qemu_os \<Rightarrow> Instance \<Rightarrow> 'w \<Rightarrow> (Instance \<times> 'w) go" where
  "cleanupResources os q w =
     (case q_qmpClient q of
        None \<Rightarrow> Panic ''nil pointer dereference''
      | Some c \<Rightarrow>
          (let w1 = closeH os c w; q1 = q\<lparr>q_qmpClient := None\<rparr>;
               w2 = closeOpt os (q_consoleFile q1) w1; q2 = q1\<lparr>q_consoleFile := None\<rparr>;
               fifo = ip_consoleFifoPath (q_paths q2);
               w3 = removeIf (qo_remove os fifo) fifo w2;
               (q3, w4) = closeTAPFiles os q2 w3;
               w5 = releaseLease os q3 w4; q4 = q3\<lparr>q_cidLease := None\<rparr>;
               dir = ip_stateDir (q_paths q4)
           in Ret (q4, removeIf (qo_removeAll os dir) dir w5)))"

definition Shutdown :: "'w qemu_os \<Rightarrow> Instance \<Rightarrow> 'w \<Rightarrow> (goerr option \<times> Instance \<times> 'w) go" where
  "Shutdown os q w =
     (case compareAndSwapState vmStateRunning vmStateShutdown q of
        (False, q') \<Rightarrow> Ret (None, q', w)
      | (True, q0) \<Rightarrow>
          (let (q1, w1) = closeClientConnections os (cancelBackgroundMonitors q0) w;
               w2 = shutdownGuest os q1 w1
           in case stopQemuProcess os q1 w2 of
                (Some e, q2, w3) \<Rightarrow> Ret (Some e, q2, w3)
              | (None, q2, w3) \<Rightarrow>
                  bindGo (cleanupResources os q2 w3) (\<lambda>(q3, w4). Ret (None, q3, w4))))"

section \<open>Lemmas\<close>

interpretation vm_state: cas_cell getState setState compareAndSwapState
  by unfold_locales (simp_all add: getState_def setState_def compareAndSwapState_def)

subsection \<open>Handles\<close>

definition tapsClosed :: "NetConfig list \<Rightarrow> bool" where
  "tapsClosed ns = list_all (\<lambda>nic. TapFile nic = None) ns"

text \<open>The handles an instance holds besides the console FIFO, which the reader stores.\<close>

definition held :: "Instance \<Rightarrow> nat set" where
  "held q = set_option (q_consoleFile q) \<union> set_option (q_qmpClient q) \<union> set_option (q_client q)
     \<union> set_option (q_vsockConn q) \<union> set (extraFiles (q_nets q))"

definition quiet :: "Instance \<Rightarrow> bool" where
  "quiet q \<longleftrightarrow> q_consoleFile q = None \<and> q_qmpClient q = None \<and> q_client q = None \<and> q_vsockConn q = None
     \<and> tapsClosed (q_nets q)"

definition allConnected :: "Instance \<Rightarrow> bool" where
  "allConnected q \<longleftrightarrow> q_consoleFile q \<noteq> None \<and> q_qmpClient q \<noteq> None \<and> q_client q \<noteq> None \<and> q_vsockConn q \<noteq> None
     \<and> (\<exists>pid. q_cmd q = Some (Some pid)) \<and> q_runCancel q"

definition instInv :: "Instance \<Rightarrow> bool" where
  "instInv q \<longleftrightarrow>
     (case q_vmState q of
        vmStateNew \<Rightarrow> quiet q
      | vmStateStarting \<Rightarrow> False
      | vmStateRunning \<Rightarrow> allConnected q
      | vmStateShutdown \<Rightarrow> q_qmpClient q = None \<and> q_client q = None \<and> q_vsockConn q = None \<and> tapsClosed (q_nets q))"

lemma extraFiles_closed: "tapsClosed ns \<Longrightarrow> extraFiles ns = []"
  by (induction ns) (simp_all add: extraFiles_def tapsClosed_def)

lemma quiet_held: "quiet q \<Longrightarrow> held q = {}"
  by (simp add: quiet_def held_def extraFiles_closed)

lemma closeTAPFiles_shape:
  "fst (closeTAPFiles os q w) = q\<lparr>q_nets := map (\<lambda>nic. nic\<lparr>TapFile := None\<rparr>) (q_nets q), q_tapNetns := ''''\<rparr>"
  by (simp add: closeTAPFiles_def)

lemma tapsClosed_map [simp]: "tapsClosed (map (\<lambda>nic. nic\<lparr>TapFile := None\<rparr>) ns)"
  by (simp add: tapsClosed_def list_all_iff)

subsection \<open>What starting changes\<close>

text \<open>The fields that the armed part of \<open>Start\<close> leaves alone.\<close>

definition sameBase :: "Instance \<Rightarrow> Instance \<Rightarrow> bool" where
  "sameBase q q' \<longleftrightarrow> q_vmState q' = q_vmState q \<and> q_cidLease q' = q_cidLease q \<and> q_guestCID q' = q_guestCID q
     \<and> q_consoleFile q' = q_consoleFile q \<and> q_paths q' = q_paths q \<and> q_disks q' = q_disks q
     \<and> map TapName (q_nets q') = map TapName (q_nets q)"

lemma openTaps_names:
  "openTaps os netns ns w = (r, ns', w') \<Longrightarrow> map TapName ns' = map TapName ns"
  by (induction os netns ns w arbitrary: r ns' w' rule: openTaps.induct)
    (auto split: prod.splits sum.splits)

lemma openTapFiles_shape:
  assumes "openTapFiles os netns q w = (r, q', w')"
  shows "\<exists>ns netns'. q' = q\<lparr>q_nets := ns, q_tapNetns := netns'\<rparr> \<and> map TapName ns = map TapName (q_nets q)"
proof -
  obtain r1 ns w1 where o: "openTaps os netns (q_nets q) w = (r1, ns, w1)" by (metis prod_cases3)
  have nm: "map TapName ns = map TapName (q_nets q)" by (rule openTaps_names [OF o])
  show ?thesis
  proof (cases "q_nets q = [] \<or> netns = ''''")
    case True
    then have "q' = q" using assms by (auto simp: openTapFiles_def split: if_splits)
    then show ?thesis by (intro exI [of _ "q_nets q"] exI [of _ "q_tapNetns q"]) simp
  next
    case open': False
    show ?thesis
    proof (cases r1)
      case None
      with assms o open' have "q' = q\<lparr>q_nets := ns, q_tapNetns := netns\<rparr>" by (simp add: openTapFiles_def)
      with nm show ?thesis by blast
    next
      case (Some e)
      with assms o open'
      have "q' = q\<lparr>q_nets := map (\<lambda>nic. nic\<lparr>TapFile := None\<rparr>) ns, q_tapNetns := ''''\<rparr>"
        by (simp add: openTapFiles_def closeTAPFiles_def)
      moreover have "map TapName (map (\<lambda>nic. nic\<lparr>TapFile := None\<rparr>) ns) = map TapName (q_nets q)"
        using nm by (simp add: comp_def)
      ultimately show ?thesis by blast
    qed
  qed
qed

lemma startQemuProcess_shape:
  assumes "startQemuProcess os as q w = (r, q', w')"
  shows "\<exists>c. q' = q\<lparr>q_cmd := c\<rparr> \<and> (r = None \<longrightarrow> (\<exists>pid. c = Some (Some pid)))"
  using assms by (auto simp: startQemuProcess_def Let_def split: prod.splits sum.splits intro: exI [of _ "q_cmd q"])

lemma connectQMP_shape:
  assumes "connectQMP os q w = Some (r, q', w')"
  shows "if r = None then \<exists>c. q' = q\<lparr>q_qmpClient := Some c\<rparr> else q' = q"
  using assms by (auto simp: connectQMP_def split: option.splits prod.splits sum.splits)

lemma connectVsockClient_shape:
  assumes "connectVsockClient os q w = Some (r, q', w')"
  shows "if r = None then \<exists>c. q' = q\<lparr>q_vsockConn := Some c, q_client := Some c\<rparr> else q' = q"
  using assms by (auto simp: connectVsockClient_def split: option.splits prod.splits sum.splits)

lemma sameBase_refl: "sameBase q q"
  by (simp add: sameBase_def)

lemma sameBase_trans: "sameBase q q1 \<Longrightarrow> sameBase q1 q2 \<Longrightarrow> sameBase q q2"
  by (simp add: sameBase_def)

lemma stage_sameBase:
  shows "openTapFiles os netns q w = (r, q', w') \<Longrightarrow> sameBase q q'"
    and "startQemuProcess os as q w = (r, q', w') \<Longrightarrow> sameBase q q'"
    and "connectQMP os q w = Some (r, q', w') \<Longrightarrow> sameBase q q'"
    and "connectVsockClient os q w = Some (r, q', w') \<Longrightarrow> sameBase q q'"
    and "sameBase q (q\<lparr>q_runCancel := True\<rparr>)" "sameBase q (q\<lparr>q_networkCfg := n\<rparr>)"
  by (auto simp: sameBase_def dest!: openTapFiles_shape startQemuProcess_shape connectQMP_shape
      connectVsockClient_shape split: if_splits)

text \<open>The armed part ends in one of its stages: opening the TAPs, building the command line, starting the
  process, connecting QMP, or connecting to the guest.\<close>

abbreviation removeSockets :: "'w qemu_os \<Rightarrow> Instance \<Rightarrow> 'w \<Rightarrow> 'w" where
  "removeSockets os q w \<equiv> qo_remove os (ip_vsockPath (q_paths q)) (qo_remove os (ip_qmpSocketPath (q_paths q)) w)"

lemma startRun_stages:
  assumes run: "startRun os so q w = Some (r, q', w')"
  obtains (tap) e where "r = Some e"
      "openTapFiles os (so_NetworkNamespace so) (q\<lparr>q_networkCfg := so_NetworkConfig so\<rparr>) (removeSockets os q w) = (r, q', w')"
  | (cmdline) e where "r = Some e"
      "openTapFiles os (so_NetworkNamespace so) (q\<lparr>q_networkCfg := so_NetworkConfig so\<rparr>) (removeSockets os q w) = (None, q', w')"
  | (process) q2 w2 as e where "r = Some e"
      "openTapFiles os (so_NetworkNamespace so) (q\<lparr>q_networkCfg := so_NetworkConfig so\<rparr>) (removeSockets os q w) = (None, q2, w2)"
      "startQemuProcess os as q2 w2 = (r, q', w')"
  | (qmp) q2 w2 as q3 w3 e where "r = Some e"
      "openTapFiles os (so_NetworkNamespace so) (q\<lparr>q_networkCfg := so_NetworkConfig so\<rparr>) (removeSockets os q w) = (None, q2, w2)"
      "startQemuProcess os as q2 w2 = (None, q3, w3)" "connectQMP os q3 w3 = Some (r, q', w')"
  | (vsock) q2 w2 as q3 w3 q4 w4 where
      "openTapFiles os (so_NetworkNamespace so) (q\<lparr>q_networkCfg := so_NetworkConfig so\<rparr>) (removeSockets os q w) = (None, q2, w2)"
      "startQemuProcess os as q2 w2 = (None, q3, w3)" "connectQMP os q3 w3 = Some (None, q4, w4)"
      "connectVsockClient os (q4\<lparr>q_runCancel := True\<rparr>) w4 = Some (r, q', w')"
proof -
  obtain r2 q2 w2 where t: "openTapFiles os (so_NetworkNamespace so) (q\<lparr>q_networkCfg := so_NetworkConfig so\<rparr>)
      (removeSockets os q w) = (r2, q2, w2)" by (metis prod_cases3)
  show thesis
  proof (cases r2)
    case (Some e)
    then show thesis using run t by (intro tap) (auto simp: startRun_def)
  next
    case r2: None
    show thesis
    proof (cases "buildQemuCommandLine (qo_probe os w2) (qo_config os w2) (layoutOf q2)
        (buildKernelCommandLine (q_guestCID q2) so)")
      case (Inl e)
      then show thesis using run t r2 by (intro cmdline) (auto simp: startRun_def)
    next
      case b: (Inr as)
      obtain r3 q3 w3 where p: "startQemuProcess os as q2 w2 = (r3, q3, w3)" by (metis prod_cases3)
      show thesis
      proof (cases r3)
        case (Some e)
        then show thesis using run t r2 b p by (intro process) (auto simp: startRun_def)
      next
        case r3: None
        obtain r4 q4 w4 where m: "connectQMP os q3 w3 = Some (r4, q4, w4)"
          using run t r2 b p r3 by (cases "connectQMP os q3 w3") (auto simp: startRun_def)
        show thesis
        proof (cases r4)
          case (Some e)
          have "(r, q', w') = (r4, q4, w4)" using run t r2 b p r3 m Some by (simp add: startRun_def)
          then show thesis using t r2 p r3 m Some by (intro qmp [of e q2 w2 as q3 w3]) simp_all
        next
          case None
          then have "connectVsockClient os (q4\<lparr>q_runCancel := True\<rparr>) w4 = Some (r, q', w')"
            using run t r2 b p r3 m by (simp add: startRun_def)
          then show thesis using t r2 p r3 m None by (intro vsock [of q2 w2 as q3 w3 q4 w4]) simp_all
        qed
      qed
    qed
  qed
qed

lemma startRun_shape:
  assumes run: "startRun os so q w = Some (r, q', w')"
  shows "sameBase q q' \<and> (r = None \<longrightarrow> q_qmpClient q' \<noteq> None \<and> q_client q' \<noteq> None \<and> q_vsockConn q' \<noteq> None
     \<and> (\<exists>pid. q_cmd q' = Some (Some pid)) \<and> q_runCancel q')"
  using run
proof (cases rule: startRun_stages)
  case (tap e)
  have "sameBase q q'" using stage_sameBase(6) stage_sameBase(1) [OF tap(2)] by (meson sameBase_trans)
  then show ?thesis using tap(1) by simp
next
  case (cmdline e)
  have "sameBase q q'" using stage_sameBase(6) stage_sameBase(1) [OF cmdline(2)] by (meson sameBase_trans)
  then show ?thesis using cmdline(1) by simp
next
  case (process q2 w2 as e)
  have "sameBase q q'"
    using stage_sameBase(6) stage_sameBase(1) [OF process(2)] stage_sameBase(2) [OF process(3)] by (meson sameBase_trans)
  then show ?thesis using process(1) by simp
next
  case (qmp q2 w2 as q3 w3 e)
  have "sameBase q q'"
    using stage_sameBase(6) stage_sameBase(1) [OF qmp(2)] stage_sameBase(2) [OF qmp(3)]
      stage_sameBase(3) [OF qmp(4)] by (meson sameBase_trans)
  then show ?thesis using qmp(1) by simp
next
  case (vsock q2 w2 as q3 w3 q4 w4)
  have "sameBase q q'"
    using stage_sameBase(6) stage_sameBase(1) [OF vsock(1)] stage_sameBase(2) [OF vsock(2)]
      stage_sameBase(3) [OF vsock(3)] stage_sameBase(5) stage_sameBase(4) [OF vsock(4)] by (meson sameBase_trans)
  then show ?thesis
    using startQemuProcess_shape [OF vsock(2)] connectQMP_shape [OF vsock(3)] connectVsockClient_shape [OF vsock(4)] by auto
qed

lemma setupConsoleFIFO_shape:
  "setupConsoleFIFO os q w = (r, q', w') \<Longrightarrow>
    if r = None then \<exists>f. q' = q\<lparr>q_consoleFile := Some f\<rparr> else q' = q"
  by (auto simp: setupConsoleFIFO_def Let_def split: prod.splits sum.splits option.splits)

lemma rollbackStart_shape:
  "fst (rollbackStart os q w) = q\<lparr>q_vmState := vmStateNew, q_vsockConn := None, q_client := None, q_qmpClient := None,
     q_consoleFile := None, q_nets := map (\<lambda>nic. nic\<lparr>TapFile := None\<rparr>) (q_nets q), q_tapNetns := '''', q_cidLease := None\<rparr>"
  by (simp add: rollbackStart_def setState_def closeTAPFiles_def Let_def)

lemma Start_not_new: "q_vmState q \<noteq> vmStateNew \<Longrightarrow>
    Start os so q w = Some (Some (Errorf ''cannot start VM in this state''), q, w)"
  by (simp add: Start_def compareAndSwapState_def)

lemma sameBase_quiet: "sameBase q q' \<Longrightarrow> q_consoleFile q' = q_consoleFile q"
  by (simp add: sameBase_def)

lemma Start_shape:
  assumes "Start os so q w = Some (r, q', w')" "q_vmState q = vmStateNew"
  shows "if r = None
    then q_vmState q' = vmStateRunning \<and> allConnected q' \<and> q_cidLease q' = q_cidLease q \<and> q_guestCID q' = q_guestCID q
    else q_vmState q' = vmStateNew \<and> q_guestCID q' = q_guestCID q \<and> (quiet q \<longrightarrow> quiet q')"
proof -
  let ?q0 = "q\<lparr>q_vmState := vmStateStarting\<rparr>"
  have cas: "compareAndSwapState vmStateNew vmStateStarting q = (True, ?q0)"
    using assms(2) by (simp add: compareAndSwapState_def)
  show ?thesis
  proof (cases "validateConfiguration os ?q0 w")
    case (Some e)
    then show ?thesis
      using assms(1) cas by (auto simp: Start_def setState_def quiet_def)
  next
    case v: None
    obtain r1 q1 w1 where c: "setupConsoleFIFO os ?q0 w = (r1, q1, w1)" by (metis prod_cases3)
    show ?thesis
    proof (cases r1)
      case (Some e)
      then have "q1 = ?q0" using setupConsoleFIFO_shape [OF c] by simp
      then show ?thesis
        using assms(1) cas v c Some by (auto simp: Start_def setState_def quiet_def)
    next
      case r1: None
      then obtain f where f: "q1 = ?q0\<lparr>q_consoleFile := Some f\<rparr>" using setupConsoleFIFO_shape [OF c] by auto
      obtain r2 q2 w2 where run: "startRun os so q1 w1 = Some (r2, q2, w2)"
        using assms(1) cas v c r1 by (cases "startRun os so q1 w1") (auto simp: Start_def)
      note sh = startRun_shape [OF run]
      show ?thesis
      proof (cases r2)
        case None
        then have "r = None" "q' = setState vmStateRunning q2"
          using assms(1) cas v c r1 run by (auto simp: Start_def)
        then show ?thesis using sh None f by (auto simp: setState_def allConnected_def sameBase_def)
      next
        case (Some e)
        then have "r = Some e" "q' = fst (rollbackStart os q2 w2)"
          using assms(1) cas v c r1 run by (auto simp: Start_def split: prod.splits)
        then show ?thesis using sh f by (auto simp: rollbackStart_shape quiet_def sameBase_def)
      qed
    qed
  qed
qed

subsection \<open>Starting returns\<close>

lemma connectVsockRPC_returns: "clockOk os \<Longrightarrow> \<exists>r. connectVsockRPC os cid w = Some r"
  unfolding connectVsockRPC_def
  by (rule connecting.returns) (simp add: connectInv_def rpcMaxBackoff_def)

lemma newQMPClient_returns:
  assumes "clockOk (qo_net os)"
  shows "newQMPClient os path w \<noteq> None"
proof -
  obtain r w1 where "waitForSocket (qo_net os) path vmStartTimeout w = Some (r, w1)"
    using waitForSocket_returns [OF assms, of path w] by (auto simp: vmStartTimeout_def)
  then show ?thesis
    by (auto simp: newQMPClient_def split: option.splits prod.splits sum.splits)
qed

lemma connectQMP_returns: "clockOk (qo_net os) \<Longrightarrow> connectQMP os q w \<noteq> None"
  using newQMPClient_returns [of os "ip_qmpSocketPath (q_paths q)" w]
  by (auto simp: connectQMP_def split: option.splits prod.splits sum.splits)

lemma connectVsockClient_returns: "clockOk (qo_net os) \<Longrightarrow> connectVsockClient os q w \<noteq> None"
  using connectVsockRPC_returns [of "qo_net os" "q_guestCID q" w]
  by (auto simp: connectVsockClient_def split: option.splits prod.splits sum.splits)

lemma startRun_returns:
  assumes "clockOk (qo_net os)"
  shows "startRun os so q w \<noteq> None"
proof -
  have "connectQMP os q w = None \<Longrightarrow> False" "\<exists>r q' w'. connectVsockClient os q w = Some (r, q', w')" for q w
    using connectQMP_returns [OF assms, of q w] connectVsockClient_returns [OF assms, of q w] by auto
  then show ?thesis
    unfolding startRun_def Let_def by (auto split: option.splits prod.splits sum.splits)
qed

lemma Start_returns:
  assumes "clockOk (qo_net os)"
  shows "\<exists>r q' w'. Start os so q w = Some (r, q', w')"
proof -
  have "startRun os so q w = None \<Longrightarrow> False" for q w
    using startRun_returns [OF assms] by blast
  then have "Start os so q w \<noteq> None"
    unfolding Start_def Let_def by (auto split: option.splits prod.splits bool.splits)
  then show ?thesis by auto
qed

subsection \<open>Shutting down\<close>

lemma killQemu_shape:
  assumes "killQemu os pid q w = (r, q', w')"
  shows "if r = None then q' = q\<lparr>q_cmd := None\<rparr>
    else q' = q\<lparr>q_cmd := None, q_qmpClient := None,
      q_nets := map (\<lambda>nic. nic\<lparr>TapFile := None\<rparr>) (q_nets q), q_tapNetns := ''''\<rparr>"
  using assms by (auto simp: killQemu_def cleanupAfterFailedKill_def closeTAPFiles_def Let_def
      split: option.splits prod.splits bool.splits)

lemma stopQemuProcess_shape:
  assumes "stopQemuProcess os q w = (r, q', w')" "q_cmd q = Some (Some pid)"
  shows "if r = None then q' = q\<lparr>q_cmd := None\<rparr>
    else q' = q\<lparr>q_cmd := None, q_qmpClient := None,
      q_nets := map (\<lambda>nic. nic\<lparr>TapFile := None\<rparr>) (q_nets q), q_tapNetns := ''''\<rparr>"
  using assms unfolding stopQemuProcess_def
  by (auto split: option.splits prod.splits bool.splits dest: killQemu_shape)

text \<open>The instance after \<open>Shutdown\<close> of a running one: everything is given up, except
  that after a failure to stop QEMU the console log, the CID lease and the state directory stay.\<close>

definition afterShutdown :: "Instance \<Rightarrow> Instance" where
  "afterShutdown q = (cancelBackgroundMonitors q)
     \<lparr>q_vmState := vmStateShutdown, q_client := None, q_vsockConn := None, q_consoleFifo := None, q_cmd := None,
      q_qmpClient := None, q_nets := map (\<lambda>nic. nic\<lparr>TapFile := None\<rparr>) (q_nets q), q_tapNetns := ''''\<rparr>"

lemma Shutdown_idle: "q_vmState q \<noteq> vmStateRunning \<Longrightarrow> Shutdown os q w = Ret (None, q, w)"
  by (simp add: Shutdown_def compareAndSwapState_def)

lemma Shutdown_shape:
  assumes "q_vmState q = vmStateRunning" "allConnected q"
  shows "\<exists>r w'. Shutdown os q w = Ret (r,
     (if r = None then (afterShutdown q)\<lparr>q_consoleFile := None, q_cidLease := None\<rparr> else afterShutdown q), w')"
proof -
  let ?q1 = "(cancelBackgroundMonitors q)\<lparr>q_vmState := vmStateShutdown, q_client := None, q_vsockConn := None,
     q_consoleFifo := None\<rparr>"
  obtain c pid where c: "q_qmpClient q = Some c" "q_cmd q = Some (Some pid)"
    using assms(2) by (auto simp: allConnected_def)
  obtain w1 where w1: "closeClientConnections os (cancelBackgroundMonitors (q\<lparr>q_vmState := vmStateShutdown\<rparr>)) w = (?q1, w1)"
    by (simp add: closeClientConnections_def cancelBackgroundMonitors_def)
  obtain r q2 w2 where st: "stopQemuProcess os ?q1 (shutdownGuest os ?q1 w1) = (r, q2, w2)" by (metis prod_cases3)
  have q1: "q_cmd ?q1 = Some (Some pid)" "q_qmpClient ?q1 = Some c" "q_nets ?q1 = q_nets q"
    using c by (simp_all add: cancelBackgroundMonitors_def)
  note sh = stopQemuProcess_shape [OF st q1(1)]
  show ?thesis
  proof (cases r)
    case (Some e)
    with sh have "q2 = afterShutdown q" by (simp add: afterShutdown_def q1(3))
    then show ?thesis
      using assms(1) w1 st Some by (intro exI [of _ r] exI [of _ w2]) (simp add: Shutdown_def compareAndSwapState_def)
  next
    case None
    with sh have q2: "q2 = ?q1\<lparr>q_cmd := None\<rparr>" by simp
    then have "\<exists>w'. cleanupResources os q2 w2 = Ret ((afterShutdown q)\<lparr>q_consoleFile := None, q_cidLease := None\<rparr>, w')"
      using q1(2) by (simp add: cleanupResources_def closeTAPFiles_def afterShutdown_def cancelBackgroundMonitors_def Let_def)
    then show ?thesis
      using assms(1) w1 st None by (auto simp: Shutdown_def compareAndSwapState_def)
  qed
qed

subsection \<open>The life cycle\<close>

text \<open>Calls on an instance; a panic or a call that does not return leaves no state.\<close>

datatype vm_op =
    OpAddDisk string string bool
  | OpAddTAPNIC string string
  | OpStart StartOpts
  | OpConsoleReader nat
  | OpShutdown

fun vm_exec :: "'w qemu_os \<Rightarrow> vm_op \<Rightarrow> (Instance \<times> 'w) option \<Rightarrow> (Instance \<times> 'w) option" where
  "vm_exec os x None = None"
| "vm_exec os (OpAddDisk i p ro) (Some (q, w)) = Some (snd (AddDisk os i p ro q w), w)"
| "vm_exec os (OpAddTAPNIC t m) (Some (q, w)) = Some (snd (AddTAPNIC t m q), w)"
| "vm_exec os (OpStart so) (Some (q, w)) =
     (case Start os so q w of None \<Rightarrow> None | Some (r, q', w') \<Rightarrow> Some (q', w'))"
| "vm_exec os (OpConsoleReader h) (Some (q, w)) = Some (consoleReaderOpened h q, w)"
| "vm_exec os OpShutdown (Some (q, w)) =
     (case Shutdown os q w of Panic m \<Rightarrow> None | Ret (r, q', w') \<Rightarrow> Some (q', w'))"

definition vm_inv :: "'w qemu_os \<Rightarrow> (Instance \<times> 'w) option \<Rightarrow> bool" where
  "vm_inv os s \<longleftrightarrow> clockOk (qo_net os) \<and> (\<exists>q w. s = Some (q, w) \<and> instInv q)"

fun vm_rank :: "(Instance \<times> 'w) option \<Rightarrow> nat" where
  "vm_rank None = 0"
| "vm_rank (Some (q, w)) =
     (case q_vmState q of vmStateNew \<Rightarrow> 0 | vmStateStarting \<Rightarrow> 0 | vmStateRunning \<Rightarrow> 1 | vmStateShutdown \<Rightarrow> 2)"

lemma AddDisk_inv: "instInv q \<Longrightarrow> instInv (snd (AddDisk os i p ro q w)) \<and> q_vmState (snd (AddDisk os i p ro q w)) = q_vmState q"
  by (auto simp: AddDisk_def instInv_def quiet_def getState_def split: sum.splits if_splits vmState.splits)

lemma AddTAPNIC_inv: "instInv q \<Longrightarrow> instInv (snd (AddTAPNIC t m q)) \<and> q_vmState (snd (AddTAPNIC t m q)) = q_vmState q"
  by (auto simp: AddTAPNIC_def instInv_def quiet_def getState_def tapsClosed_def split: vmState.splits)

lemma consoleReader_inv: "instInv (consoleReaderOpened h q) = instInv q" "q_vmState (consoleReaderOpened h q) = q_vmState q"
  by (simp_all add: consoleReaderOpened_def instInv_def quiet_def allConnected_def split: vmState.splits)

lemma Start_inv:
  assumes "Start os so q w = Some (r, q', w')" "instInv q"
  shows "instInv q' \<and> vm_rank (Some (q, w)) \<le> vm_rank (Some (q', w'))"
proof (cases "q_vmState q = vmStateNew")
  case True
  then show ?thesis
    using Start_shape [OF assms(1) True] assms(2) by (auto simp: instInv_def split: if_splits)
next
  case False
  then show ?thesis using Start_not_new [OF False, of os so w] assms by simp
qed

lemma Shutdown_inv:
  assumes "instInv q"
  shows "\<exists>r q' w'. Shutdown os q w = Ret (r, q', w') \<and> instInv q' \<and> vm_rank (Some (q, w)) \<le> vm_rank (Some (q', w'))"
proof (cases "q_vmState q = vmStateRunning")
  case True
  then have "allConnected q" using assms by (simp add: instInv_def)
  from Shutdown_shape [OF True this, of os w] True show ?thesis
    by (auto simp: instInv_def afterShutdown_def)
next
  case False
  then show ?thesis using assms by (simp add: Shutdown_idle)
qed

lemma vm_exec_step:
  assumes "vm_inv os s"
  shows "vm_inv os (vm_exec os x s) \<and> vm_rank s \<le> vm_rank (vm_exec os x s)"
proof -
  obtain q w where s: "s = Some (q, w)" and inv: "instInv q" and clk: "clockOk (qo_net os)"
    using assms by (auto simp: vm_inv_def)
  show ?thesis
  proof (cases x)
    case (OpAddDisk i p ro)
    then show ?thesis using s AddDisk_inv [OF inv, of os i p ro w] clk by (simp add: vm_inv_def)
  next
    case (OpAddTAPNIC t m)
    then show ?thesis using s AddTAPNIC_inv [OF inv, of t m] clk by (simp add: vm_inv_def)
  next
    case (OpStart so)
    obtain r q' w' where "Start os so q w = Some (r, q', w')" using Start_returns [OF clk] by blast
    then show ?thesis using OpStart s clk Start_inv [OF _ inv, of os so w r q' w'] by (simp add: vm_inv_def)
  next
    case (OpConsoleReader h)
    then show ?thesis using s inv clk by (simp add: vm_inv_def consoleReader_inv)
  next
    case OpShutdown
    obtain r q' w' where "Shutdown os q w = Ret (r, q', w')" "instInv q'" "vm_rank (Some (q, w)) \<le> vm_rank (Some (q', w'))"
      using Shutdown_inv [OF inv, of os w] by blast
    then show ?thesis using OpShutdown s clk by (simp add: vm_inv_def)
  qed
qed

interpretation vm_cycle: ranked_machine "vm_exec os" "vm_inv os" vm_rank for os :: "'w qemu_os"
  by unfold_locales (simp_all add: vm_exec_step)

lemma mkInstance_inv: "instInv (mkInstance b p k i c l)"
  by (simp add: mkInstance_def instInv_def quiet_def tapsClosed_def)


text \<open>A machine on which nothing can be reached.\<close>

definition silentOs :: "int qemu_os" where
  "silentOs =
     \<lparr>qo_net = silentNet,
      qo_probe = \<lambda>w. \<lparr>evalSymlinks = \<lambda>p. Inr p, statIsDir = \<lambda>p. Inr False\<rparr>,
      qo_config = \<lambda>w. Inl (Errno ''ENOENT''),
      qo_mkdirAll = \<lambda>p w. (None, w), qo_remove = \<lambda>p w. w, qo_removeAll = \<lambda>p w. w,
      qo_mkfifo = \<lambda>p w. (None, w), qo_create = \<lambda>p w. (Inr 3, w), qo_openTAP = \<lambda>t n w. (Inr 4, w),
      qo_startCmd = \<lambda>b as fs w. (Inr 100, w), qo_kill = \<lambda>p w. (None, w), qo_waitExit = \<lambda>p d w. (True, w + d),
      qo_newMonitor = \<lambda>p w. (Inr 5, w), qo_monConnect = \<lambda>m w. (None, w), qo_monEvents = \<lambda>m w. (None, w),
      qo_qmpRun = \<lambda>c s w. (None, w), qo_release = \<lambda>l w. w,
      qo_dialTimeout = \<lambda>c p d w. (DialTimeout, w + \<bar>d\<bar>), qo_statDev = \<lambda>p w. Inr (1, 2)\<rparr>"

definition demoPaths :: instancePaths where
  "demoPaths = \<lparr>ip_stateDir = ''/s'', ip_logDir = ''/l'', ip_qmpSocketPath = ''/s/q'', ip_vsockPath = ''/s/v'',
     ip_consolePath = ''/l/c'', ip_consoleFifoPath = ''/s/f'', ip_qemuLogPath = ''/l/q''\<rparr>"

definition demoInstance :: Instance where
  "demoInstance = mkInstance ''/q'' demoPaths ''/k'' ''/i'' (validateResourceConfig None)
     \<lparr>le_CID = 7, le_file = Some 1, le_path = ''/c/7.lock''\<rparr>"


end
