(* ===== verification/Qemu_Handles.thy ===== *)
theory Qemu_Handles
  imports Qemu_Instance
begin

text \<open>
  What a VM instance holds and how it stops QEMU. The operations of \<open>Qemu_Instance\<close> run here in
  environments that record more in their world: which files and connections are open, and what was
  done to the QEMU process. The theorems show that starting is all or nothing, what shutting down
  gives up, and in which order QEMU is asked, told and forced to stop.
\<close>

subsection \<open>Nothing is left open\<close>

text \<open>The environment that records the open handles in its world. The file of QEMU's own log is left out: it is
  handed to the process and never closed by the shim.\<close>

definition trackRes :: "('w \<Rightarrow> (goerr + nat) \<times> 'w) \<Rightarrow> 'w \<times> nat set \<Rightarrow> (goerr + nat) \<times> 'w \<times> nat set" where
  "trackRes f = (\<lambda>(w, op). case f w of (Inl e, w') \<Rightarrow> (Inl e, w', op) | (Inr h, w') \<Rightarrow> (Inr h, w', insert h op))"

definition keepRes :: "('w \<Rightarrow> 'r \<times> 'w) \<Rightarrow> 'w \<times> 'x \<Rightarrow> 'r \<times> 'w \<times> 'x" where
  "keepRes f = (\<lambda>(w, op). case f w of (r, w') \<Rightarrow> (r, w', op))"

definition trackedOs :: "string \<Rightarrow> 'w qemu_os \<Rightarrow> ('w \<times> nat set) qemu_os" where
  "trackedOs logPath os =
     \<lparr>qo_net = trackedNet (qo_net os), qo_probe = \<lambda>(w, op). qo_probe os w, qo_config = \<lambda>(w, op). qo_config os w,
      qo_mkdirAll = \<lambda>p. keepRes (qo_mkdirAll os p),
      qo_remove = \<lambda>p (w, op). (qo_remove os p w, op), qo_removeAll = \<lambda>p (w, op). (qo_removeAll os p w, op),
      qo_mkfifo = \<lambda>p. keepRes (qo_mkfifo os p),
      qo_create = \<lambda>p. (if p = logPath then keepRes (qo_create os p) else trackRes (qo_create os p)),
      qo_openTAP = \<lambda>t n. trackRes (qo_openTAP os t n),
      qo_startCmd = \<lambda>b as fs. keepRes (qo_startCmd os b as fs),
      qo_kill = \<lambda>p. keepRes (qo_kill os p), qo_waitExit = \<lambda>p d. keepRes (qo_waitExit os p d),
      qo_newMonitor = \<lambda>p. trackRes (qo_newMonitor os p),
      qo_monConnect = \<lambda>m. keepRes (qo_monConnect os m), qo_monEvents = \<lambda>m. keepRes (qo_monEvents os m),
      qo_qmpRun = \<lambda>c s. keepRes (qo_qmpRun os c s), qo_release = \<lambda>l (w, op). (qo_release os l w, op),
      qo_dialTimeout = \<lambda>c p d (w, op). (case qo_dialTimeout os c p d w of
                  (DialDone (Inr h), w') \<Rightarrow> (DialDone (Inr h), w', insert h op) | (r, w') \<Rightarrow> (r, w', op)), qo_statDev = \<lambda>p (w, op). qo_statDev os p w\<rparr>"

text \<open>Every open handle is held by the instance or was open before.\<close>

definition accounted :: "nat set \<Rightarrow> Instance \<Rightarrow> 'w \<times> nat set \<Rightarrow> bool" where
  "accounted op0 q w \<longleftrightarrow> snd w \<subseteq> op0 \<union> held q"

lemma tracked_frame [simp]:
  "snd (qo_remove (trackedOs l os) p w) = snd w" "snd (qo_removeAll (trackedOs l os) p w) = snd w"
  "snd (qo_release (trackedOs l os) le w) = snd w"
  "snd (snd (qo_mkfifo (trackedOs l os) p w)) = snd w" "snd (snd (qo_kill (trackedOs l os) pid w)) = snd w"
  "snd (snd (qo_startCmd (trackedOs l os) b as fs w)) = snd w"
  "snd (snd (qo_monConnect (trackedOs l os) m w)) = snd w" "snd (snd (qo_monEvents (trackedOs l os) m w)) = snd w"
  "snd (no_close (trackedNet n) h w) = snd w - {h}"
  "qo_net (trackedOs l os) = trackedNet (qo_net os)"
  by (simp_all add: trackedOs_def keepRes_def trackedNet_def split: prod.splits)

lemma tracked_res:
  "snd (snd (qo_openTAP (trackedOs l os) t n w)) = (case fst (qo_openTAP (trackedOs l os) t n w) of Inl e \<Rightarrow> snd w | Inr h \<Rightarrow> insert h (snd w))"
  "snd (snd (qo_newMonitor (trackedOs l os) p w)) = (case fst (qo_newMonitor (trackedOs l os) p w) of Inl e \<Rightarrow> snd w | Inr h \<Rightarrow> insert h (snd w))"
  "p \<noteq> l \<Longrightarrow> snd (snd (qo_create (trackedOs l os) p w)) = (case fst (qo_create (trackedOs l os) p w) of Inl e \<Rightarrow> snd w | Inr h \<Rightarrow> insert h (snd w))"
  "snd (snd (qo_create (trackedOs l os) l w)) = snd w"
  by (simp_all add: trackedOs_def trackRes_def keepRes_def split: prod.splits sum.splits)

lemma closeAll_open: "snd (closeAll (trackedOs l os) hs w) = snd w - set hs"
  by (induction hs arbitrary: w) auto

lemma closeOpt_open: "snd (closeOpt (trackedOs l os) h w) = snd w - set_option h"
  by (cases h) (simp_all add: closeOpt_def)

lemma extraFiles_Cons: "extraFiles (nic # ns) = (case TapFile nic of None \<Rightarrow> extraFiles ns | Some f \<Rightarrow> f # extraFiles ns)"
  by (simp add: extraFiles_def split: option.splits)

lemma openTaps_open:
  assumes "openTaps (trackedOs l os) netns ns w = (r, ns', w')" "tapsClosed ns"
  shows "snd w' \<subseteq> snd w \<union> set (extraFiles ns')"
  using assms
proof (induction ns arbitrary: w r ns' w')
  case Nil
  then show ?case by simp
next
  case (Cons nic ns)
  obtain x w1 where o: "qo_openTAP (trackedOs l os) (TapName nic) netns w = (x, w1)" by (metis surj_pair)
  have cl: "TapFile nic = None" "tapsClosed ns" using Cons.prems(2) by (simp_all add: tapsClosed_def)
  show ?case
  proof (cases x)
    case (Inl e)
    then show ?thesis
      using Cons.prems(1) o tracked_res(1) [of l os "TapName nic" netns w] by auto
  next
    case (Inr f)
    obtain r2 ns2 w2 where t: "openTaps (trackedOs l os) netns ns w1 = (r2, ns2, w2)" by (metis prod_cases3)
    have "snd w2 \<subseteq> snd w1 \<union> set (extraFiles ns2)" by (rule Cons.IH [OF t cl(2)])
    moreover have "snd w1 = insert f (snd w)"
      using o Inr tracked_res(1) [of l os "TapName nic" netns w] by simp
    ultimately show ?thesis
      using Cons.prems(1) o Inr t by (auto simp: extraFiles_Cons)
  qed
qed

lemma closeTAPFiles_open:
  assumes "closeTAPFiles (trackedOs l os) q w = (q', w')"
  shows "snd w' = snd w - set (extraFiles (q_nets q)) \<and> extraFiles (q_nets q') = []"
  using assms by (auto simp: closeTAPFiles_def closeAll_open extraFiles_closed)

lemma openTapFiles_open:
  assumes "openTapFiles (trackedOs l os) netns q w = (r, q', w')" "tapsClosed (q_nets q)" "accounted op0 q w"
  shows "accounted op0 q' w'"
proof (cases "q_nets q = [] \<or> netns = ''''")
  case True
  then show ?thesis using assms by (auto simp: openTapFiles_def split: if_splits)
next
  case open': False
  obtain r1 ns w1 where o: "openTaps (trackedOs l os) netns (q_nets q) w = (r1, ns, w1)" by (metis prod_cases3)
  have sub: "snd w1 \<subseteq> snd w \<union> set (extraFiles ns)" by (rule openTaps_open [OF o assms(2)])
  have base: "snd w \<subseteq> op0 \<union> held q" and nil: "extraFiles (q_nets q) = []"
    using assms(2,3) by (simp_all add: accounted_def extraFiles_closed)
  show ?thesis
  proof (cases r1)
    case None
    with assms(1) o open' have "q' = q\<lparr>q_nets := ns, q_tapNetns := netns\<rparr>" "w' = w1"
      by (simp_all add: openTapFiles_def)
    then show ?thesis using sub base nil by (auto simp: accounted_def held_def)
  next
    case (Some e)
    obtain q2 w2 where c: "closeTAPFiles (trackedOs l os) (q\<lparr>q_nets := ns\<rparr>) w1 = (q2, w2)" by (metis surj_pair)
    with assms(1) o open' Some have eq: "q' = q2" "w' = w2" by (simp_all add: openTapFiles_def)
    have "held q2 \<union> set (extraFiles (q_nets q)) = held q"
      using c by (auto simp: closeTAPFiles_def held_def extraFiles_closed nil)
    then show ?thesis
      using eq sub base nil closeTAPFiles_open [OF c] by (auto simp: accounted_def)
  qed
qed

lemma startQemuProcess_open:
  assumes "startQemuProcess (trackedOs (ip_qemuLogPath (q_paths q)) os) as q w = (r, q', w')" "accounted op0 q w"
  shows "accounted op0 q' w'"
proof -
  let ?os = "trackedOs (ip_qemuLogPath (q_paths q)) os"
  obtain x w1 where c: "qo_create ?os (ip_qemuLogPath (q_paths q)) w = (x, w1)" by (metis surj_pair)
  have s1: "snd w1 = snd w" using c tracked_res(4) [of "ip_qemuLogPath (q_paths q)" os w] by simp
  obtain y w2 where st: "qo_startCmd ?os (q_binaryPath q) as (extraFiles (q_nets q)) w1 = (y, w2)" by (metis surj_pair)
  have s2: "snd w2 = snd w1"
    using st tracked_frame(6) [of "ip_qemuLogPath (q_paths q)" os "q_binaryPath q" as "extraFiles (q_nets q)" w1] by simp
  have h: "held (q\<lparr>q_cmd := c\<rparr>) = held q" for c by (simp add: held_def)
  show ?thesis
    using assms c st s1 s2 h
    by (cases x; cases y) (auto simp: startQemuProcess_def accounted_def closeAll_open)
qed

lemma newQMPClient_open:
  assumes "newQMPClient (trackedOs l os) path w = Some (r, w')"
  shows "snd w' \<subseteq> (case r of Inl e \<Rightarrow> snd w | Inr c \<Rightarrow> insert c (snd w))"
proof -
  obtain v op where w: "w = (v, op)" by fastforce
  obtain x w1 where ws: "waitForSocket (trackedNet (qo_net os)) path vmStartTimeout w = Some (x, w1)"
    using assms by (auto simp: newQMPClient_def split: option.splits)
  have s1: "snd w1 = snd w" using waitForSocket_open [of "qo_net os" path vmStartTimeout v op "(x, w1)"] ws w by simp
  obtain y w2 where m: "qo_newMonitor (trackedOs l os) path w1 = (y, w2)" by (metis surj_pair)
  have s2: "snd w2 = (case y of Inl e \<Rightarrow> snd w | Inr h \<Rightarrow> insert h (snd w))"
    using tracked_res(2) [of l os path w1] m s1 by (simp split: sum.split)
  show ?thesis
  proof (cases x)
    case (Some e)
    then show ?thesis using assms ws s1 by (auto simp: newQMPClient_def)
  next
    case x: None
    show ?thesis
    proof (cases y)
      case (Inl e)
      then show ?thesis using assms ws x m s2 by (auto simp: newQMPClient_def)
    next
      case (Inr h)
      obtain z w3 where c: "qo_monConnect (trackedOs l os) h w2 = (z, w3)" by (metis surj_pair)
      obtain u w4 where v: "qo_monEvents (trackedOs l os) h w3 = (u, w4)" by (metis surj_pair)
      have "snd w3 = snd w2" "snd w4 = snd w3"
        using tracked_frame(7) [of l os h w2] tracked_frame(8) [of l os h w3] c v by simp_all
      then show ?thesis
        using assms ws x m Inr s2 c v by (cases z; cases u) (auto simp: newQMPClient_def split: if_splits)
    qed
  qed
qed

lemma killProcess_open: "snd (killProcess (trackedOs l os) q w) = snd w"
  by (simp add: killProcess_def split: option.splits)

lemma held_qmp: "q_qmpClient q = None \<Longrightarrow> held (q\<lparr>q_qmpClient := Some c\<rparr>) = insert c (held q)"
  by (auto simp: held_def)

lemma held_conn:
  "q_vsockConn q = None \<Longrightarrow> q_client q = None \<Longrightarrow>
    held (q\<lparr>q_vsockConn := Some c, q_client := Some c\<rparr>) = insert c (held q)"
  by (auto simp: held_def)

lemma connectQMP_open:
  assumes "connectQMP (trackedOs l os) q w = Some (r, q', w')" "q_qmpClient q = None" "accounted op0 q w"
  shows "accounted op0 q' w'"
proof -
  obtain x w1 where n: "newQMPClient (trackedOs l os) (ip_qmpSocketPath (q_paths q)) w = Some (x, w1)"
    using assms(1) by (auto simp: connectQMP_def split: option.splits)
  show ?thesis
  proof (cases x)
    case (Inl e)
    then show ?thesis using assms n newQMPClient_open [OF n] by (auto simp: connectQMP_def accounted_def killProcess_open)
  next
    case (Inr c)
    then have "q' = q\<lparr>q_qmpClient := Some c\<rparr>" "snd w' \<subseteq> insert c (snd w)"
      using assms(1) n newQMPClient_open [OF n] by (auto simp: connectQMP_def)
    then show ?thesis using assms(2,3) held_qmp [of q c] unfolding accounted_def by blast
  qed
qed

lemma closeQMP_open: "snd (closeQMP (trackedOs l os) q w) \<subseteq> snd w"
  by (auto simp: closeQMP_def split: option.splits)

lemma connectVsockClient_open:
  assumes "connectVsockClient (trackedOs l os) q w = Some (r, q', w')" "q_vsockConn q = None" "q_client q = None"
    "accounted op0 q w"
  shows "accounted op0 q' w'"
proof (cases "no_ctxErr (trackedNet (qo_net os)) w")
  case (Some e)
  then show ?thesis
    using assms closeQMP_open [of l os q "killProcess (trackedOs l os) q w"]
    by (auto simp: connectVsockClient_def accounted_def killProcess_open)
next
  case None
  obtain v op where w: "w = (v, op)" by fastforce
  obtain x w1 where c: "connectVsockRPC (trackedNet (qo_net os)) (q_guestCID q) w = Some (x, w1)"
    using assms(1) None by (auto simp: connectVsockClient_def split: option.splits)
  have o: "connOpen op (x, w1)" using connectVsockRPC_open [of "qo_net os" "q_guestCID q" v op] c w by simp
  obtain v1 op1 where w1: "w1 = (v1, op1)" by fastforce
  show ?thesis
  proof (cases x)
    case (Inl e)
    then have "q' = q" "snd w' \<subseteq> op1"
      using assms(1) None c w1 closeQMP_open [of l os q "killProcess (trackedOs l os) q w1"]
      by (auto simp: connectVsockClient_def killProcess_open)
    moreover have "op1 \<subseteq> snd w" using o Inl w w1 by (simp add: connOpen_def)
    ultimately show ?thesis using assms(4) unfolding accounted_def by blast
  next
    case (Inr h)
    then have "q' = q\<lparr>q_vsockConn := Some h, q_client := Some h\<rparr>" "snd w' = op1"
      using assms(1) None c w1 by (auto simp: connectVsockClient_def)
    moreover have "op1 \<subseteq> insert h (snd w)" using o Inr w w1 by (simp add: connOpen_def)
    ultimately show ?thesis
      using assms(4) held_conn [OF assms(2,3), of h] unfolding accounted_def by blast
  qed
qed

lemma stage_keeps:
  shows "openTapFiles os netns q w = (r, q', w') \<Longrightarrow> q_qmpClient q' = q_qmpClient q \<and> q_client q' = q_client q \<and> q_vsockConn q' = q_vsockConn q"
    and "startQemuProcess os as q w = (r, q', w') \<Longrightarrow> q_qmpClient q' = q_qmpClient q \<and> q_client q' = q_client q \<and> q_vsockConn q' = q_vsockConn q"
    and "connectQMP os q w = Some (r, q', w') \<Longrightarrow> q_client q' = q_client q \<and> q_vsockConn q' = q_vsockConn q"
  by (auto dest!: openTapFiles_shape startQemuProcess_shape connectQMP_shape split: if_splits)

lemma startRun_open:
  assumes run: "startRun (trackedOs (ip_qemuLogPath (q_paths q)) os) so q w = Some (r, q', w')"
    and cl: "tapsClosed (q_nets q)" "q_qmpClient q = None" "q_client q = None" "q_vsockConn q = None"
    and acc: "accounted op0 q w"
  shows "accounted op0 q' w'"
proof -
  let ?os = "trackedOs (ip_qemuLogPath (q_paths q)) os" and ?q1 = "q\<lparr>q_networkCfg := so_NetworkConfig so\<rparr>"
  have acc1: "accounted op0 ?q1 (removeSockets ?os q w)" and cl1: "tapsClosed (q_nets ?q1)"
    using acc cl(1) by (simp_all add: accounted_def held_def)
  have taps: "accounted op0 q2 w2 \<and> q_paths q2 = q_paths q \<and> q_qmpClient q2 = None \<and> q_client q2 = None \<and> q_vsockConn q2 = None"
    if t: "openTapFiles ?os (so_NetworkNamespace so) ?q1 (removeSockets ?os q w) = (r2, q2, w2)" for r2 q2 w2
    using openTapFiles_open [OF t cl1 acc1] stage_keeps(1) [OF t] stage_sameBase(1) [OF t] cl
    by (simp add: sameBase_def)
  have proc: "accounted op0 q3 w3 \<and> q_qmpClient q3 = None \<and> q_client q3 = None \<and> q_vsockConn q3 = None"
    if t: "openTapFiles ?os (so_NetworkNamespace so) ?q1 (removeSockets ?os q w) = (r2, q2, w2)"
      and p: "startQemuProcess ?os as q2 w2 = (r3, q3, w3)" for r2 q2 w2 as r3 q3 w3
    using startQemuProcess_open [of q2 os as w2 r3 q3 w3 op0] taps [OF t] p stage_keeps(2) [OF p] by simp
  show ?thesis
    using run
  proof (cases rule: startRun_stages)
    case (tap e)
    then show ?thesis using taps by blast
  next
    case (cmdline e)
    then show ?thesis using taps by blast
  next
    case (process q2 w2 as e)
    then show ?thesis using proc [OF process(2,3)] by simp
  next
    case (qmp q2 w2 as q3 w3 e)
    then show ?thesis using proc [OF qmp(2,3)] connectQMP_open [OF qmp(4)] by simp
  next
    case (vsock q2 w2 as q3 w3 q4 w4)
    have "accounted op0 q4 w4" using proc [OF vsock(1,2)] connectQMP_open [OF vsock(3)] by simp
    then have "accounted op0 (q4\<lparr>q_runCancel := True\<rparr>) w4" by (simp add: accounted_def held_def)
    then show ?thesis
      using connectVsockClient_open [OF vsock(4)] proc [OF vsock(1,2)] stage_keeps(3) [OF vsock(3)] by simp
  qed
qed

lemma releaseLease_open: "snd (releaseLease (trackedOs l os) q w) = snd w"
  by (simp add: releaseLease_def split: option.splits)

lemma removeIf_open: "(\<And>w. snd (rm w) = snd w) \<Longrightarrow> snd (removeIf rm p w) = snd w"
  by (simp add: removeIf_def)

lemma rollbackStart_open: "snd (snd (rollbackStart (trackedOs l os) q w)) = snd w - held q"
proof -
  have "snd (snd (rollbackStart (trackedOs l os) q w)) = snd w - set_option (q_vsockConn q) - set_option (q_client q)
      - set_option (q_qmpClient q) - set_option (q_consoleFile q) - set (extraFiles (q_nets q))"
    by (simp add: rollbackStart_def setState_def closeTAPFiles_def closeAll_open closeOpt_open
        releaseLease_open removeIf_open Let_def)
  then show ?thesis by (auto simp: held_def)
qed

lemma Start_open:
  assumes run: "Start (trackedOs (ip_qemuLogPath (q_paths q)) os) so q w = Some (r, q', w')"
    and new: "q_vmState q = vmStateNew" "quiet q" and paths: "ip_consolePath (q_paths q) \<noteq> ip_qemuLogPath (q_paths q)"
  shows "if r = None then accounted (snd w) q' w' else snd w' \<subseteq> snd w"
proof -
  let ?q0 = "q\<lparr>q_vmState := vmStateStarting\<rparr>" and ?os = "trackedOs (ip_qemuLogPath (q_paths q)) os"
  have cas: "compareAndSwapState vmStateNew vmStateStarting q = (True, ?q0)"
    using new(1) by (simp add: compareAndSwapState_def)
  show ?thesis
  proof (cases "validateConfiguration ?os ?q0 w")
    case (Some e)
    then show ?thesis using run cas by (auto simp: Start_def)
  next
    case v: None
    obtain r1 q1 w1 where c: "setupConsoleFIFO ?os ?q0 w = (r1, q1, w1)" by (metis prod_cases3)
    let ?fifo = "ip_consoleFifoPath (q_paths q)"
    obtain x v1 where m: "qo_mkfifo ?os ?fifo (qo_remove ?os ?fifo w) = (x, v1)" by (metis surj_pair)
    obtain y v2 where f: "qo_create ?os (ip_consolePath (q_paths q)) v1 = (y, v2)" by (metis surj_pair)
    have "snd v1 = snd (snd (qo_mkfifo ?os ?fifo (qo_remove ?os ?fifo w)))" using m by simp
    then have v1: "snd v1 = snd w" by simp
    have sv: "snd v2 = (case y of Inl e \<Rightarrow> snd w | Inr h \<Rightarrow> insert h (snd w))"
      using f tracked_res(3) [OF paths, of os v1] v1 by (simp split: sum.split)
    show ?thesis
    proof (cases r1)
      case (Some e)
      then have "snd w1 \<subseteq> snd w"
        using c m f sv v1 by (cases x; cases y) (auto simp: setupConsoleFIFO_def)
      then show ?thesis using run cas v c Some by (auto simp: Start_def)
    next
      case r1: None
      then obtain h where h: "q1 = ?q0\<lparr>q_consoleFile := Some h\<rparr>" "snd w1 = insert h (snd w)"
        using c m f sv v1 by (cases x; cases y) (auto simp: setupConsoleFIFO_def)
      obtain r2 q2 w2 where st: "startRun ?os so q1 w1 = Some (r2, q2, w2)"
        using run cas v c r1 by (cases "startRun ?os so q1 w1") (auto simp: Start_def)
      have "accounted (snd w) q1 w1" using h new(2) by (auto simp: accounted_def held_def)
      then have acc: "accounted (snd w) q2 w2"
        using st new(2) h(1) startRun_open [of q1 os so w1 r2 q2 w2] by (simp add: quiet_def)
      show ?thesis
      proof (cases r2)
        case None
        then have "r = None" "q' = setState vmStateRunning q2" "w' = w2"
          using run cas v c r1 st by (auto simp: Start_def)
        then show ?thesis using acc by (simp add: accounted_def held_def setState_def)
      next
        case (Some e)
        then have "r = Some e" "w' = snd (rollbackStart ?os q2 w2)"
          using run cas v c r1 st by (auto simp: Start_def split: prod.splits)
        then show ?thesis using acc by (auto simp: rollbackStart_open accounted_def)
      qed
    qed
  qed
qed



text \<open>A failed start has released the CID lease but keeps the CID, and the instance can be started again.\<close>

lemma rollback_keeps_cid:
  "q_guestCID (fst (rollbackStart os q w)) = q_guestCID q \<and> q_cidLease (fst (rollbackStart os q w)) = None
    \<and> q_vmState (fst (rollbackStart os q w)) = vmStateNew"
  by (simp add: rollbackStart_shape)

subsection \<open>What shutting down releases\<close>

lemma tracked_wait [simp]:
  "snd (snd (qo_waitExit (trackedOs l os) p d w)) = snd w" "snd (snd (qo_qmpRun (trackedOs l os) c s w)) = snd w"
  by (simp_all add: trackedOs_def keepRes_def split: prod.splits)

lemma shutdownGuest_open: "snd (shutdownGuest (trackedOs l os) q w) = snd w"
  unfolding shutdownGuest_def
  by (auto split: option.splits prod.splits) (metis snd_conv tracked_wait(2))+

lemma killQemu_open:
  assumes "killQemu (trackedOs l os) pid q w = (r, q', w')"
  shows "snd w' = (if r = None then snd w else snd w - set_option (q_qmpClient q) - set (extraFiles (q_nets q)))"
proof -
  obtain x w1 where k: "qo_kill (trackedOs l os) pid w = (x, w1)" by (metis surj_pair)
  obtain b w2 where e: "qo_waitExit (trackedOs l os) pid shutdownKillWait w1 = (b, w2)" by (metis surj_pair)
  have "snd w1 = snd w" "snd w2 = snd w1"
    using k e tracked_frame(5) [of l os pid w] tracked_wait(1) [of l os pid shutdownKillWait w1] by simp_all
  then show ?thesis
    using assms k e by (cases x; cases b)
      (auto simp: killQemu_def cleanupAfterFailedKill_def closeTAPFiles_def closeAll_open closeOpt_open Let_def)
qed

text \<open>QEMU either has exited, or the last resort is used; nothing else is changed before.\<close>

lemma stopQemuProcess_cases:
  assumes "stopQemuProcess os q w = (r, q', w')" "q_cmd q = Some (Some pid)"
  obtains (acpi) "qo_waitExit os pid shutdownACPIWait w = (True, w')" "r = None"
  | (quit) c w1 w2 where "qo_waitExit os pid shutdownACPIWait w = (False, w1)" "q_qmpClient q = Some c"
      "qo_qmpRun os c ''quit'' w1 = (None, w2)" "qo_waitExit os pid shutdownQuitWait w2 = (True, w')" "r = None"
  | (unheard) w1 where "qo_waitExit os pid shutdownACPIWait w = (False, w1)" "q_qmpClient q = None"
      "killQemu os pid q w1 = (r, q', w')"
  | (refused) c w1 w2 e where "qo_waitExit os pid shutdownACPIWait w = (False, w1)" "q_qmpClient q = Some c"
      "qo_qmpRun os c ''quit'' w1 = (Some e, w2)" "killQemu os pid q w2 = (r, q', w')"
  | (late) c w1 w2 w3 where "qo_waitExit os pid shutdownACPIWait w = (False, w1)" "q_qmpClient q = Some c"
      "qo_qmpRun os c ''quit'' w1 = (None, w2)" "qo_waitExit os pid shutdownQuitWait w2 = (False, w3)"
      "killQemu os pid q w3 = (r, q', w')"
proof -
  obtain b w1 where a: "qo_waitExit os pid shutdownACPIWait w = (b, w1)" by (metis surj_pair)
  show thesis
  proof (cases b)
    case True
    then show thesis using assms a by (intro acpi) (auto simp: stopQemuProcess_def)
  next
    case b: False
    show thesis
    proof (cases "q_qmpClient q")
      case None
      then show thesis using assms a b by (intro unheard) (auto simp: stopQemuProcess_def)
    next
      case c: (Some c)
      obtain x w2 where x: "qo_qmpRun os c ''quit'' w1 = (x, w2)" by (metis surj_pair)
      obtain b2 w3 where d: "qo_waitExit os pid shutdownQuitWait w2 = (b2, w3)" by (metis surj_pair)
      show thesis
      proof (cases x)
        case (Some e)
        then have "killQemu os pid q w2 = (r, q', w')" using assms a b c x by (simp add: stopQemuProcess_def)
        then show thesis using refused [of w1 c e w2] a b c x Some by simp
      next
        case None
        show thesis
        proof (cases b2)
          case True
          then have "w' = w3" "r = None" using assms a b c x None d by (simp_all add: stopQemuProcess_def)
          then show thesis using quit [of w1 c w2] a b c x None d True by simp
        next
          case False
          then have "killQemu os pid q w3 = (r, q', w')" using assms a b c x None d by (simp add: stopQemuProcess_def)
          then show thesis using late [of w1 c w2 w3] a b c x None d False by simp
        qed
      qed
    qed
  qed
qed

lemma tracked_snd:
  "qo_waitExit (trackedOs l os) p d w = (b, w') \<Longrightarrow> snd w' = snd w"
  "qo_qmpRun (trackedOs l os) c s w = (x, w') \<Longrightarrow> snd w' = snd w"
  using tracked_wait(1) [of l os p d w] tracked_wait(2) [of l os c s w] by simp_all

lemma stopQemuProcess_open:
  assumes "stopQemuProcess (trackedOs l os) q w = (r, q', w')" "q_cmd q = Some (Some pid)"
  shows "snd w' = (if r = None then snd w else snd w - set_option (q_qmpClient q) - set (extraFiles (q_nets q)))"
  using assms
proof (cases rule: stopQemuProcess_cases)
  case acpi
  then show ?thesis using tracked_snd(1) [OF acpi(1)] by simp
next
  case (quit c w1 w2)
  then show ?thesis using tracked_snd(1) [OF quit(1)] tracked_snd(2) [OF quit(3)] tracked_snd(1) [OF quit(4)] by simp
next
  case (unheard w1)
  then show ?thesis using tracked_snd(1) [OF unheard(1)] killQemu_open [OF unheard(3)] by simp
next
  case (refused c w1 w2 e)
  then show ?thesis using tracked_snd(1) [OF refused(1)] tracked_snd(2) [OF refused(3)] killQemu_open [OF refused(4)] by simp
next
  case (late c w1 w2 w3)
  then show ?thesis
    using tracked_snd(1) [OF late(1)] tracked_snd(2) [OF late(3)] tracked_snd(1) [OF late(4)] killQemu_open [OF late(5)] by simp
qed

lemma cleanupResources_open:
  assumes "cleanupResources (trackedOs l os) q w = Ret (q', w')"
  shows "snd w' = snd w - set_option (q_qmpClient q) - set_option (q_consoleFile q) - set (extraFiles (q_nets q))"
  using assms by (auto simp: cleanupResources_def closeTAPFiles_def closeAll_open closeOpt_open releaseLease_open
      removeIf_open Let_def split: option.splits)

text \<open>The stages of \<open>Shutdown\<close> of a running instance.\<close>

abbreviation closedClients :: "Instance \<Rightarrow> Instance" where
  "closedClients q \<equiv> (cancelBackgroundMonitors q)\<lparr>q_vmState := vmStateShutdown, q_client := None, q_vsockConn := None,
     q_consoleFifo := None\<rparr>"

abbreviation closingClients :: "'w qemu_os \<Rightarrow> Instance \<Rightarrow> 'w \<Rightarrow> 'w" where
  "closingClients os q w \<equiv> shutdownGuest os (closedClients q)
     (closeOpt os (q_consoleFifo q) (closeOpt os (q_vsockConn q) (closeOpt os (q_client q) w)))"

lemma Shutdown_running:
  assumes "q_vmState q = vmStateRunning"
  shows "Shutdown os q w =
    (case stopQemuProcess os (closedClients q) (closingClients os q w) of
       (Some e, q2, w3) \<Rightarrow> Ret (Some e, q2, w3)
     | (None, q2, w3) \<Rightarrow> bindGo (cleanupResources os q2 w3) (\<lambda>(q3, w4). Ret (None, q3, w4)))"
proof -
  have "closeClientConnections os (cancelBackgroundMonitors (q\<lparr>q_vmState := vmStateShutdown\<rparr>)) w
      = (closedClients q, closeOpt os (q_consoleFifo q) (closeOpt os (q_vsockConn q) (closeOpt os (q_client q) w)))"
    by (simp add: closeClientConnections_def cancelBackgroundMonitors_def)
  then show ?thesis using assms by (simp add: Shutdown_def compareAndSwapState_def)
qed

lemma Shutdown_open:
  assumes "q_vmState q = vmStateRunning" "allConnected q" "Shutdown (trackedOs l os) q w = Ret (r, q', w')"
  shows "snd w' = (if r = None then snd w - held q - set_option (q_consoleFifo q)
      else snd w - (set_option (q_client q) \<union> set_option (q_vsockConn q) \<union> set_option (q_qmpClient q)
                 \<union> set (extraFiles (q_nets q)) \<union> set_option (q_consoleFifo q)))"
proof -
  let ?os = "trackedOs l os" and ?q1 = "closedClients q"
  have same: "q_qmpClient ?q1 = q_qmpClient q" "q_nets ?q1 = q_nets q" "q_consoleFile ?q1 = q_consoleFile q" "q_cmd ?q1 = q_cmd q"
    by (simp_all add: cancelBackgroundMonitors_def)
  obtain pid where pid: "q_cmd ?q1 = Some (Some pid)" using assms(2) same(4) by (auto simp: allConnected_def)
  obtain r0 q2 w2 where st: "stopQemuProcess ?os ?q1 (closingClients ?os q w) = (r0, q2, w2)" by (metis prod_cases3)
  have op1: "snd (closingClients ?os q w) = snd w - set_option (q_client q) - set_option (q_vsockConn q) - set_option (q_consoleFifo q)"
    by (simp add: shutdownGuest_open closeOpt_open)
  show ?thesis
  proof (cases r0)
    case (Some e)
    then have "r = Some e" "w' = w2" using assms(3) st by (simp_all add: Shutdown_running [OF assms(1)])
    then show ?thesis using stopQemuProcess_open [OF st pid] Some op1 same(1,2) by auto
  next
    case None
    then obtain q3 where cl: "cleanupResources ?os q2 w2 = Ret (q3, w')" "r = None"
      using assms(3) st by (cases "cleanupResources ?os q2 w2") (auto simp: Shutdown_running [OF assms(1)])
    have "q2 = ?q1\<lparr>q_cmd := None\<rparr>" using stopQemuProcess_shape [OF st pid] None by simp
    then show ?thesis
      using cl(2) cleanupResources_open [OF cl(1)] stopQemuProcess_open [OF st pid] None op1 same(1-3)
      by (auto simp: held_def)
  qed
qed


text \<open>A running instance for examples.\<close>

definition demoRunning :: Instance where
  "demoRunning = demoInstance\<lparr>q_vmState := vmStateRunning, q_consoleFile := Some 3, q_cmd := Some (Some 100),
     q_qmpClient := Some 5, q_client := Some 6, q_vsockConn := Some 6, q_runCancel := True\<rparr>"

lemma demoRunning_ok: "q_vmState demoRunning = vmStateRunning" "allConnected demoRunning"
  by (simp_all add: demoRunning_def allConnected_def)


subsection \<open>How QEMU is stopped\<close>

text \<open>What is done to QEMU: a QMP command and whether it succeeded, a wait and whether the process exited in
  it, a SIGKILL and whether it was sent.\<close>

datatype qev = EvQmp string bool | EvWait duration bool | EvKill bool

definition liftNet :: "'w net_os \<Rightarrow> ('w \<times> 'x) net_os" where
  "liftNet os =
     \<lparr>no_now = \<lambda>(w, x). no_now os w, no_sleep = \<lambda>d (w, x). (no_sleep os d w, x),
      no_ctxErr = \<lambda>(w, x). no_ctxErr os w, no_stat = \<lambda>p (w, x). no_stat os p w,
      no_tick = \<lambda>t k. keepRes (no_tick os t k), no_dial = \<lambda>c p. keepRes (no_dial os c p),
      no_setReadDeadline = \<lambda>c t. keepRes (no_setReadDeadline os c t), no_write = \<lambda>c b. keepRes (no_write os c b),
      no_readFull = \<lambda>c n. keepRes (no_readFull os c n), no_discard = \<lambda>c n. keepRes (no_discard os c n),
      no_close = \<lambda>c (w, x). (no_close os c w, x)\<rparr>"

definition logRes :: "('r \<Rightarrow> qev) \<Rightarrow> ('w \<Rightarrow> 'r \<times> 'w) \<Rightarrow> 'w \<times> qev list \<Rightarrow> 'r \<times> 'w \<times> qev list" where
  "logRes ev f = (\<lambda>(w, log). case f w of (r, w') \<Rightarrow> (r, w', log @ [ev r]))"

definition loggedOs :: "'w qemu_os \<Rightarrow> ('w \<times> qev list) qemu_os" where
  "loggedOs os =
     \<lparr>qo_net = liftNet (qo_net os), qo_probe = \<lambda>(w, x). qo_probe os w, qo_config = \<lambda>(w, x). qo_config os w,
      qo_mkdirAll = \<lambda>p. keepRes (qo_mkdirAll os p),
      qo_remove = \<lambda>p (w, x). (qo_remove os p w, x), qo_removeAll = \<lambda>p (w, x). (qo_removeAll os p w, x),
      qo_mkfifo = \<lambda>p. keepRes (qo_mkfifo os p), qo_create = \<lambda>p. keepRes (qo_create os p),
      qo_openTAP = \<lambda>t n. keepRes (qo_openTAP os t n), qo_startCmd = \<lambda>b as fs. keepRes (qo_startCmd os b as fs),
      qo_kill = \<lambda>p. logRes (\<lambda>r. EvKill (r = None)) (qo_kill os p),
      qo_waitExit = \<lambda>p d. logRes (EvWait d) (qo_waitExit os p d),
      qo_newMonitor = \<lambda>p. keepRes (qo_newMonitor os p),
      qo_monConnect = \<lambda>m. keepRes (qo_monConnect os m), qo_monEvents = \<lambda>m. keepRes (qo_monEvents os m),
      qo_qmpRun = \<lambda>c s. logRes (\<lambda>r. EvQmp s (r = None)) (qo_qmpRun os c s),
      qo_release = \<lambda>l (w, x). (qo_release os l w, x),
      qo_dialTimeout = \<lambda>c p d. keepRes (qo_dialTimeout os c p d), qo_statDev = \<lambda>p (w, x). qo_statDev os p w\<rparr>"

text \<open>The commands to the guest, the ways QEMU exits by itself, and the ways it is killed.\<close>

definition askGuest :: "qev list set" where
  "askGuest = {[EvQmp ''send-key'' True], [EvQmp ''send-key'' False, EvQmp ''system_powerdown'' True],
     [EvQmp ''send-key'' False, EvQmp ''system_powerdown'' False]}"

definition exitsItself :: "qev list set" where
  "exitsItself = {[EvWait shutdownACPIWait True],
     [EvWait shutdownACPIWait False, EvQmp ''quit'' True, EvWait shutdownQuitWait True]}"

definition beforeKill :: "qev list set" where
  "beforeKill = {[EvWait shutdownACPIWait False, EvQmp ''quit'' False],
     [EvWait shutdownACPIWait False, EvQmp ''quit'' True, EvWait shutdownQuitWait False]}"

definition killEnds :: "bool \<Rightarrow> qev list set" where
  "killEnds gone = (if gone then {[EvKill True, EvWait shutdownKillWait True]}
     else {[EvKill False], [EvKill True, EvWait shutdownKillWait False]})"

lemma logged_frame [simp]:
  "snd (qo_remove (loggedOs os) p w) = snd w" "snd (qo_removeAll (loggedOs os) p w) = snd w"
  "snd (qo_release (loggedOs os) le w) = snd w" "snd (no_close (qo_net (loggedOs os)) h w) = snd w"
  by (simp_all add: loggedOs_def liftNet_def split: prod.splits)

lemma logged_events:
  "qo_kill (loggedOs os) p w = (r1, w') \<Longrightarrow> snd w' = snd w @ [EvKill (r1 = None)]"
  "qo_waitExit (loggedOs os) p d w = (r2, w') \<Longrightarrow> snd w' = snd w @ [EvWait d r2]"
  "qo_qmpRun (loggedOs os) c s w = (r3, w') \<Longrightarrow> snd w' = snd w @ [EvQmp s (r3 = None)]"
  by (auto simp: loggedOs_def logRes_def split: prod.splits)

lemma logged_closing:
  "snd (closeAll (loggedOs os) hs w) = snd w" "snd (closeOpt (loggedOs os) x w) = snd w"
  "snd (releaseLease (loggedOs os) q w) = snd w"
proof -
  show "snd (closeAll (loggedOs os) hs w) = snd w" by (induction hs arbitrary: w) simp_all
  show "snd (closeOpt (loggedOs os) x w) = snd w" by (simp add: closeOpt_def split: option.splits)
  show "snd (releaseLease (loggedOs os) q w) = snd w" by (simp add: releaseLease_def split: option.splits)
qed

lemma killQemu_log:
  assumes "killQemu (loggedOs os) pid q w = (r, q', w')"
  shows "\<exists>k \<in> killEnds (r = None). snd w' = snd w @ k"
proof -
  obtain x w1 where k: "qo_kill (loggedOs os) pid w = (x, w1)" by (metis surj_pair)
  obtain b w2 where e: "qo_waitExit (loggedOs os) pid shutdownKillWait w1 = (b, w2)" by (metis surj_pair)
  show ?thesis
    using assms k e logged_events(1) [OF k] logged_events(2) [OF e]
    by (cases x; cases b) (auto simp: killQemu_def cleanupAfterFailedKill_def closeTAPFiles_def logged_closing
        killEnds_def Let_def)
qed

lemma shutdownGuest_log:
  assumes "q_qmpClient q = Some c"
  shows "\<exists>g \<in> askGuest. snd (shutdownGuest (loggedOs os) q w) = snd w @ g"
proof -
  obtain x w1 where k: "qo_qmpRun (loggedOs os) c ''send-key'' w = (x, w1)" by (metis surj_pair)
  obtain y w2 where p: "qo_qmpRun (loggedOs os) c ''system_powerdown'' w1 = (y, w2)" by (metis surj_pair)
  show ?thesis
    using assms k p logged_events(3) [OF k] logged_events(3) [OF p]
    by (cases x; cases y) (auto simp: shutdownGuest_def askGuest_def)
qed

lemma stopQemuProcess_log:
  assumes "stopQemuProcess (loggedOs os) q w = (r, q', w')" "q_cmd q = Some (Some pid)" "q_qmpClient q \<noteq> None"
  shows "(r = None \<and> (\<exists>s \<in> exitsItself. snd w' = snd w @ s))
    \<or> (\<exists>s \<in> beforeKill. \<exists>k \<in> killEnds (r = None). snd w' = snd w @ s @ k)"
  using assms(1,2)
proof (cases rule: stopQemuProcess_cases)
  case acpi
  then show ?thesis using logged_events(2) [OF acpi(1)] by (simp add: exitsItself_def)
next
  case (quit c w1 w2)
  then show ?thesis
    using logged_events(2) [OF quit(1)] logged_events(3) [OF quit(3)] logged_events(2) [OF quit(4)] by (simp add: exitsItself_def)
next
  case (unheard w1)
  then show ?thesis using assms(3) by simp
next
  case (refused c w1 w2 e)
  then show ?thesis
    using logged_events(2) [OF refused(1)] logged_events(3) [OF refused(3)] killQemu_log [OF refused(4)]
    by (auto simp: beforeKill_def)
next
  case (late c w1 w2 w3)
  then show ?thesis
    using logged_events(2) [OF late(1)] logged_events(3) [OF late(3)] logged_events(2) [OF late(4)] killQemu_log [OF late(5)]
    by (auto simp: beforeKill_def)
qed

text \<open>C30. QEMU is stopped step by step: the guest is asked first (CTRL-ALT-DELETE, then ACPI if that command fails), then
  QEMU is told to quit unless it has exited within the wait, and only if that command fails or QEMU does not exit in
  time is it killed, once; \<open>Shutdown\<close> reports success exactly when the process was seen to exit.\<close>

theorem shutdown_escalates:
  assumes "q_vmState q = vmStateRunning" "allConnected q"
  shows "\<exists>r q' w' g s. Shutdown (loggedOs os) q (w, []) = Ret (r, q', w', g @ s) \<and> g \<in> askGuest
    \<and> ((r = None \<and> s \<in> exitsItself) \<or> (\<exists>t \<in> beforeKill. \<exists>k \<in> killEnds (r = None). s = t @ k))"
proof -
  let ?os = "loggedOs os" and ?q1 = "closedClients q"
  have same: "q_qmpClient ?q1 = q_qmpClient q" "q_cmd ?q1 = q_cmd q" by (simp_all add: cancelBackgroundMonitors_def)
  obtain pid c where pid: "q_cmd ?q1 = Some (Some pid)" and c: "q_qmpClient ?q1 = Some c"
    using assms(2) same by (auto simp: allConnected_def)
  obtain r0 q2 w2 where st: "stopQemuProcess ?os ?q1 (closingClients ?os q (w, [])) = (r0, q2, w2)" by (metis prod_cases3)
  obtain g where g: "g \<in> askGuest" "snd (closingClients ?os q (w, [])) = g"
    using shutdownGuest_log [OF c, of os "closeOpt ?os (q_consoleFifo q) (closeOpt ?os (q_vsockConn q) (closeOpt ?os (q_client q) (w, [])))"]
    by (auto simp: logged_closing)
  have stop: "(r0 = None \<and> (\<exists>s \<in> exitsItself. snd w2 = g @ s)) \<or> (\<exists>s \<in> beforeKill. \<exists>k \<in> killEnds (r0 = None). snd w2 = g @ s @ k)"
    using stopQemuProcess_log [OF st pid] c g(2) by simp
  have rest: "cleanupResources ?os q2 w2 = Ret (q3, w3) \<Longrightarrow> snd w3 = snd w2" for q3 w3
    by (auto simp: cleanupResources_def closeTAPFiles_def logged_closing removeIf_def Let_def split: option.splits)
  obtain r q' w' where sh: "Shutdown ?os q (w, []) = Ret (r, q', w')" using Shutdown_shape [OF assms, of ?os "(w, [])"] by blast
  note run = sh [unfolded Shutdown_running [OF assms(1)]]
  have r: "r = r0 \<and> snd w' = snd w2"
  proof (cases r0)
    case (Some e)
    then show ?thesis using run st by simp
  next
    case None
    then obtain q3 where "cleanupResources ?os q2 w2 = Ret (q3, w')" "r = None"
      using run st by (cases "cleanupResources ?os q2 w2") auto
    then show ?thesis using rest None by blast
  qed
  obtain s where s: "snd w' = g @ s"
    "(r = None \<and> s \<in> exitsItself) \<or> (\<exists>t \<in> beforeKill. \<exists>k \<in> killEnds (r = None). s = t @ k)"
    using stop r by auto
  have "Shutdown ?os q (w, []) = Ret (r, q', fst w', g @ s)" using sh s(1) by (metis prod.collapse)
  then show ?thesis using g(1) s(2) by blast
qed

theorem shutdown_escalates_witness:
  "\<exists>r q' w' g s. Shutdown (loggedOs silentOs) demoRunning (0, []) = Ret (r, q', w', g @ s) \<and> g \<in> askGuest"
  using shutdown_escalates [OF demoRunning_ok, of silentOs 0] by blast

end
