(* ===== verification/Shim_Network.thy ===== *)
theory Shim_Network
  imports Qemu_Handles
begin

text \<open>
  Attaching a VM to the network (\<^verbatim>\<open>internal/shim/platform/network/linux.go\<close>), over the interface of the network
  manager (\<^verbatim>\<open>internal/host/network/types.go\<close>), which is a record of functions here.

  An IP address is its text form. Parsing a MAC address is \<open>net.ParseMAC\<close>. What the
  \<^verbatim>\<open>resolvconf\<close> package finds in the host's configuration are arguments.
\<close>

section \<open>The network manager\<close>

record NetworkInfo =
  ni_TapName :: string
  ni_MAC :: string
  ni_IP :: string
  ni_Netmask :: string
  ni_Gateway :: string

record Environment =
  env_ID :: string
  env_NetworkInfo :: "NetworkInfo option"

record 'w NetworkManager =
  nm_EnsureNetworkResources :: "Environment \<Rightarrow> 'w \<Rightarrow> goerr option \<times> Environment \<times> 'w"
  nm_ReleaseNetworkResources :: "Environment \<Rightarrow> 'w \<Rightarrow> goerr option \<times> Environment \<times> 'w"
  nm_Close :: "'w \<Rightarrow> goerr option \<times> 'w"

section \<open>MAC addresses\<close>

definition hexVal :: "char \<Rightarrow> nat option" where
  "hexVal c =
     (let n = of_char c :: nat
      in if 48 \<le> n \<and> n \<le> 57 then Some (n - 48)
         else if 97 \<le> n \<and> n \<le> 102 then Some (n - 87)
         else if 65 \<le> n \<and> n \<le> 70 then Some (n - 55)
         else None)"

text \<open>Two hexadecimal digits at the start of a text, followed by its end or the separator.\<close>

definition xtoi2 :: "string \<Rightarrow> char option \<Rightarrow> nat option" where
  "xtoi2 s sep =
     (case s of
        a # b # rest \<Rightarrow>
          if rest \<noteq> [] \<and> sep \<noteq> Some (hd rest) then None
          else (case (hexVal a, hexVal b) of (Some x, Some y) \<Rightarrow> Some (16 * x + y) | _ \<Rightarrow> None)
      | _ \<Rightarrow> None)"

fun macBytes :: "char \<Rightarrow> nat \<Rightarrow> string \<Rightarrow> nat list option" where
  "macBytes sep 0 s = Some []"
| "macBytes sep (Suc n) s =
     (case xtoi2 s (Some sep) of
        None \<Rightarrow> None
      | Some b \<Rightarrow> map_option (\<lambda>bs. b # bs) (macBytes sep n (drop 3 s)))"

fun macPairs :: "nat \<Rightarrow> string \<Rightarrow> nat list option" where
  "macPairs 0 s = Some []"
| "macPairs (Suc n) s =
     (case (xtoi2 (take 2 s) None, xtoi2 (drop 2 s) (Some (CHR ''.''))) of
        (Some a, Some b) \<Rightarrow> map_option (\<lambda>bs. a # b # bs) (macPairs n (drop 5 s))
      | _ \<Rightarrow> None)"

definition parseMAC :: "string \<Rightarrow> nat list option" where
  "parseMAC s =
     (if length s < 14 then None
      else if s ! 2 = CHR '':'' \<or> s ! 2 = CHR ''-'' then
        (let n = (length s + 1) div 3
         in if (length s + 1) mod 3 \<noteq> 0 \<or> n \<notin> {6, 8, 20} then None else macBytes (s ! 2) n s)
      else if s ! 4 = CHR ''.'' then
        (let n = 2 * (length s + 1) div 5
         in if (length s + 1) mod 5 \<noteq> 0 \<or> n \<notin> {6, 8, 20} then None else macPairs (n div 2) s)
      else None)"

definition hexDigit :: "nat \<Rightarrow> char" where
  "hexDigit n = (if n < 10 then char_of (48 + n) else char_of (87 + n))"

definition macString :: "nat list \<Rightarrow> string" where
  "macString bs = joinWith '':'' (map (\<lambda>b. [hexDigit (b div 16), hexDigit (b mod 16)]) bs)"

section \<open>Attaching the VM\<close>

text \<open>The host's name servers: reading the file, filtering it, and the servers left.\<close>

definition resolveHostDNSServers :: "goerr option \<Rightarrow> goerr option \<Rightarrow> string list \<Rightarrow> string list" where
  "resolveHostDNSServers readErr filterErr nameservers =
     (if readErr \<noteq> None then [] else if filterErr \<noteq> None then [] else if nameservers = [] then [] else nameservers)"

text \<open>The manager fills in the environment; a nil \<open>NetworkInfo\<close> after a success would panic.\<close>

definition network_Setup ::
  "'w NetworkManager \<Rightarrow> string list \<Rightarrow> string \<Rightarrow> Instance \<Rightarrow> 'w \<Rightarrow> ((goerr + NetworkConfig) \<times> Instance \<times> 'w) go" where
  "network_Setup nm hostDNS containerID q w =
     (case nm_EnsureNetworkResources nm \<lparr>env_ID = containerID, env_NetworkInfo = None\<rparr> w of
        (Some err, env, w1) \<Rightarrow> Ret (Inl (WrapErr ''allocate network resources'' err), q, w1)
      | (None, env, w1) \<Rightarrow>
          (case env_NetworkInfo env of
             None \<Rightarrow> Panic ''invalid memory address or nil pointer dereference''
           | Some info \<Rightarrow>
               if ni_MAC info = '''' then
                 (let (_, _, w2) = nm_ReleaseNetworkResources nm env w1
                  in Ret (Inl (Errorf ''CNI did not report TAP MAC address''), q, w2))
               else
                 (case parseMAC (ni_MAC info) of
                    None \<Rightarrow>
                      (let (_, _, w2) = nm_ReleaseNetworkResources nm env w1
                       in Ret (Inl (Errorf (''invalid CNI TAP MAC address '' @ ni_MAC info)), q, w2))
                  | Some guestMAC \<Rightarrow>
                      (case AddTAPNIC (ni_TapName info) (macString guestMAC) q of
                         (Some err, q1) \<Rightarrow>
                           (let (_, _, w2) = nm_ReleaseNetworkResources nm env w1
                            in Ret (Inl (WrapErr ''add TAP NIC to VM'' err), q1, w2))
                       | (None, q1) \<Rightarrow>
                           (let dnsServers = (if hostDNS = [] then [''8.8.8.8'', ''8.8.4.4''] else hostDNS)
                            in Ret (Inr \<lparr>InterfaceName = ''eth0'', IP = ni_IP info, Gateway = ni_Gateway info,
                                        Netmask = ni_Netmask info, DNS = dnsServers\<rparr>, q1, w1))))))"

text \<open>The manager's promise: an environment it has set up has its network information.\<close>

definition nmProvides :: "'w NetworkManager \<Rightarrow> bool" where
  "nmProvides nm \<longleftrightarrow> (\<forall>env w. case nm_EnsureNetworkResources nm env w of
     (None, env', w') \<Rightarrow> env_NetworkInfo env' \<noteq> None | (Some e, env', w') \<Rightarrow> True)"

lemma network_Setup_returns:
  assumes "nmProvides nm"
  shows "\<exists>x. network_Setup nm dns i q w = Ret x"
proof -
  obtain e env' w' where "nm_EnsureNetworkResources nm \<lparr>env_ID = i, env_NetworkInfo = None\<rparr> w = (e, env', w')"
    by (metis prod_cases3)
  moreover from assms this have "e = None \<Longrightarrow> env_NetworkInfo env' \<noteq> None"
    unfolding nmProvides_def by (metis (mono_tags, lifting) case_prod_conv option.simps(4))
  ultimately show ?thesis
    by (cases e) (auto simp: network_Setup_def Let_def split: option.split prod.split)
qed

end
