(* ===== verification/Cni_Setup.thy ===== *)
theory Cni_Setup
  imports Shim_Network
begin

text \<open>
  Running the CNI plugins for a VM (\<^verbatim>\<open>internal/host/network/cni\<close>): network namespaces (\<^verbatim>\<open>netns.go\<close>), the
  classification of plugin errors (\<^verbatim>\<open>errors.go\<close>), the TAP device of a result (\<^verbatim>\<open>tap.go\<close>, \<^verbatim>\<open>result.go\<close>) and the
  manager of the plugin chain (\<^verbatim>\<open>cni.go\<close>).

  The kernel, the file system and the CNI library are functions of an environment record over a world; a namespace
  handle is a number. \<open>net.IP\<close> and a netmask are their text forms, empty when absent. \<open>strings.ToLower\<close> is the one on ASCII, as
  the patterns are. The locking of the operating-system thread has no counterpart.
\<close>

section \<open>The environment\<close>

record Interface =
  if_Name :: string
  if_Mac :: string
  if_Sandbox :: string

record IPConfig =
  ip_Address :: string
  ip_Mask :: string
  ip_Gateway :: string

record Result =
  rs_Interfaces :: "Interface list"
  rs_IPs :: "IPConfig list"

record RuntimeConf =
  rt_ContainerID :: string
  rt_NetNS :: string
  rt_IfName :: string

text \<open>A configuration list of the library: its name and its encoded plugins.\<close>

record NetworkConfigList =
  nl_Name :: string
  nl_Plugins :: string

record 'w cni_os =
  cn_mkdirAll :: "string \<Rightarrow> 'w \<Rightarrow> goerr option \<times> 'w"
  cn_stat :: "string \<Rightarrow> 'w \<Rightarrow> goerr option"
  cn_nsGet :: "'w \<Rightarrow> (goerr + nat) \<times> 'w"
  cn_nsNew :: "'w \<Rightarrow> (goerr + nat) \<times> 'w"
  cn_nsFromPath :: "string \<Rightarrow> 'w \<Rightarrow> (goerr + nat) \<times> 'w"
  cn_nsSet :: "nat \<Rightarrow> 'w \<Rightarrow> goerr option \<times> 'w"
  cn_nsClose :: "nat \<Rightarrow> 'w \<Rightarrow> 'w"
  cn_create :: "string \<Rightarrow> 'w \<Rightarrow> goerr option \<times> 'w"
  cn_closeNew :: "string \<Rightarrow> 'w \<Rightarrow> goerr option \<times> 'w"
  cn_mount :: "string \<Rightarrow> string \<Rightarrow> 'w \<Rightarrow> goerr option \<times> 'w"
  cn_unmount :: "string \<Rightarrow> 'w \<Rightarrow> goerr option \<times> 'w"
  cn_remove :: "string \<Rightarrow> 'w \<Rightarrow> goerr option \<times> 'w"
  cn_openInode :: "string \<Rightarrow> 'w \<Rightarrow> goerr + (goerr + nat)"
  cn_nsInode :: "nat \<Rightarrow> 'w \<Rightarrow> goerr + nat"
  cn_linkMAC :: "string \<Rightarrow> 'w \<Rightarrow> goerr + nat list"
  cn_add :: "NetworkConfigList \<Rightarrow> RuntimeConf \<Rightarrow> 'w \<Rightarrow> (goerr + (goerr + Result)) \<times> 'w"
  cn_del :: "NetworkConfigList \<Rightarrow> RuntimeConf \<Rightarrow> 'w \<Rightarrow> goerr option \<times> 'w"
  cn_readDir :: "string \<Rightarrow> 'w \<Rightarrow> goerr + (string \<times> bool) list"
  cn_readFile :: "string \<Rightarrow> 'w \<Rightarrow> goerr + string"
  cn_confFiles :: "string \<Rightarrow> 'w \<Rightarrow> goerr + string list"
  cn_confList :: "string \<Rightarrow> 'w \<Rightarrow> goerr + NetworkConfigList"
  cn_now :: "'w \<Rightarrow> go_time"

text \<open>\<open>os.IsNotExist\<close> of the error of a system call.\<close>

definition isNotExist :: "goerr \<Rightarrow> bool" where
  "isNotExist e \<longleftrightarrow> errIs e (Errno ''ENOENT'')"

section \<open>Network namespaces\<close>

definition netnsBasePath :: string where
  "netnsBasePath = ''/var/run/netns''"

definition GetNetNSPath :: "string \<Rightarrow> string" where
  "GetNetNSPath vmID = pathJoin [netnsBasePath, vmID]"

definition NetNSExists :: "'w cni_os \<Rightarrow> string \<Rightarrow> 'w \<Rightarrow> bool" where
  "NetNSExists os vmID w \<longleftrightarrow> cn_stat os (GetNetNSPath vmID) w = None"

definition unmountNetNS :: "'w cni_os \<Rightarrow> string \<Rightarrow> 'w \<Rightarrow> goerr option \<times> 'w" where
  "unmountNetNS os target w =
     (case cn_unmount os target w of
        (Some err, w1) \<Rightarrow> (Some (WrapErr ''failed to unmount netns'' err), w1)
      | (None, w1) \<Rightarrow> (None, w1))"

definition DeleteNetNS :: "'w cni_os \<Rightarrow> string \<Rightarrow> 'w \<Rightarrow> goerr option \<times> 'w" where
  "DeleteNetNS os vmID w =
     (let netnsPath = pathJoin [netnsBasePath, vmID];
          (_, w1) = unmountNetNS os netnsPath w
      in case cn_remove os netnsPath w1 of
           (Some err, w2) \<Rightarrow> if \<not> isNotExist err then (Some (WrapErr ''failed to remove netns file'' err), w2) else (None, w2)
         | (None, w2) \<Rightarrow> (None, w2))"

definition bindMountNetNS :: "'w cni_os \<Rightarrow> string \<Rightarrow> string \<Rightarrow> 'w \<Rightarrow> goerr option \<times> 'w" where
  "bindMountNetNS os source target w =
     (case cn_create os target w of
        (Some err, w1) \<Rightarrow> (Some (WrapErr ''failed to create netns file'' err), w1)
      | (None, w1) \<Rightarrow>
          (case cn_closeNew os target w1 of
             (Some err, w2) \<Rightarrow> (Some (WrapErr ''failed to close netns file'' err), w2)
           | (None, w2) \<Rightarrow>
               (case cn_mount os source target w2 of
                  (Some err, w3) \<Rightarrow>
                    (let (_, w4) = cn_remove os target w3 in (Some (WrapErr ''failed to bind mount'' err), w4))
                | (None, w3) \<Rightarrow> (None, w3))))"

definition verifyNetNS :: "'w cni_os \<Rightarrow> string \<Rightarrow> nat \<Rightarrow> 'w \<Rightarrow> goerr option" where
  "verifyNetNS os netnsPath hostNS w =
     (case cn_stat os netnsPath w of
        Some err \<Rightarrow> Some (WrapErr ''netns file does not exist'' err)
      | None \<Rightarrow>
          (case cn_openInode os netnsPath w of
             Inl err \<Rightarrow> Some (WrapErr ''failed to open netns file'' err)
           | Inr (Inl err) \<Rightarrow> Some (WrapErr ''failed to stat netns file'' err)
           | Inr (Inr ino) \<Rightarrow>
               (case cn_nsInode os hostNS w of
                  Inl err \<Rightarrow> Some (WrapErr ''failed to stat host netns'' err)
                | Inr hostIno \<Rightarrow>
                    if ino = hostIno
                    then Some (Errorf (''created netns is the same as host netns (inode: '' @ natStr ino @ '')''))
                    else None)))"

text \<open>The new namespace \<open>newNS\<close> is bound to its file, and the thread goes back to \<open>origNS\<close>.\<close>

definition bindNewNetNS :: "'w cni_os \<Rightarrow> string \<Rightarrow> nat \<Rightarrow> nat \<Rightarrow> 'w \<Rightarrow> (goerr + string) \<times> 'w" where
  "bindNewNetNS os vmID origNS newNS w =
     (let netnsPath = pathJoin [netnsBasePath, vmID];
          nsFdPath = ''/proc/self/fd/'' @ natStr newNS
      in case bindMountNetNS os nsFdPath netnsPath w of
           (Some err, w1) \<Rightarrow>
             (case cn_nsSet os origNS w1 of
                (Some restoreErr, w2) \<Rightarrow>
                  (let (_, w3) = cn_remove os netnsPath w2
                   in (Inl (WrapErr ''failed to restore original netns after bind mount error'' restoreErr), w3))
              | (None, w2) \<Rightarrow> (Inl (WrapErr ''failed to bind mount netns'' err), w2))
         | (None, w1) \<Rightarrow>
             (case cn_nsSet os origNS w1 of
                (Some err, w2) \<Rightarrow>
                  (let (_, w3) = DeleteNetNS os vmID w2 in (Inl (WrapErr ''failed to restore original netns'' err), w3))
              | (None, w2) \<Rightarrow>
                  (case verifyNetNS os netnsPath origNS w2 of
                     Some err \<Rightarrow>
                       (let (_, w3) = DeleteNetNS os vmID w2 in (Inl (WrapErr ''netns verification failed'' err), w3))
                   | None \<Rightarrow> (Inr netnsPath, w2))))"

definition CreateNetNS :: "'w cni_os \<Rightarrow> string \<Rightarrow> 'w \<Rightarrow> (goerr + string) \<times> 'w" where
  "CreateNetNS os vmID w =
     (case cn_mkdirAll os netnsBasePath w of
        (Some err, w1) \<Rightarrow> (Inl (WrapErr ''failed to create netns directory'' err), w1)
      | (None, w1) \<Rightarrow>
          (case (if NetNSExists os vmID w1 then DeleteNetNS os vmID w1 else (None, w1)) of
             (Some err, w2) \<Rightarrow> (Inl (WrapErr ''failed to clean up existing netns'' err), w2)
           | (None, w2) \<Rightarrow>
               (case cn_nsGet os w2 of
                  (Inl err, w3) \<Rightarrow> (Inl (WrapErr ''failed to get current netns'' err), w3)
                | (Inr origNS, w3) \<Rightarrow>
                    (case cn_nsNew os w3 of
                       (Inl err, w4) \<Rightarrow> (Inl (WrapErr ''failed to create new netns'' err), cn_nsClose os origNS w4)
                     | (Inr newNS, w4) \<Rightarrow>
                         (let (res, w5) = bindNewNetNS os vmID origNS newNS w4
                          in (res, cn_nsClose os origNS (cn_nsClose os newNS w5)))))))"

section \<open>Errors\<close>

definition ErrResourceConflict :: goerr where "ErrResourceConflict = Sentinel ''CNI resource conflict''"
definition ErrIPAMExhausted :: goerr where "ErrIPAMExhausted = Sentinel ''IPAM pool exhausted''"
definition ErrNetNSNotFound :: goerr where "ErrNetNSNotFound = Sentinel ''network namespace not found''"
definition ErrTAPNotCreated :: goerr where "ErrTAPNotCreated = Sentinel ''TAP device not created by CNI''"
definition ErrIPAMLeak :: goerr where "ErrIPAMLeak = Sentinel ''IPAM leak detected''"

lemmas cni_sentinels = ErrResourceConflict_def ErrIPAMExhausted_def ErrNetNSNotFound_def ErrTAPNotCreated_def ErrIPAMLeak_def

text \<open>The category of a message in lower case.\<close>

definition classify :: "string \<Rightarrow> goerr option" where
  "classify msg =
     (if strContains msg ''duplicate allocation'' then Some ErrResourceConflict
      else if strContains msg ''no ips available'' \<or> strContains msg ''no ip addresses available'' then Some ErrIPAMExhausted
      else if (strContains msg ''already exists'' \<or> strContains msg ''file exists'')
        \<and> (strContains msg ''veth'' \<or> strContains msg ''tap'' \<or> strContains msg ''peer'' \<or> strContains msg ''interface'')
      then Some ErrResourceConflict
      else if strContains msg ''network namespace'' \<and> strContains msg ''not found'' then Some ErrNetNSNotFound
      else None)"

text \<open>The error type of the package: its message, and what \<open>errors.Is\<close> finds through its \<open>Is\<close> and \<open>Unwrap\<close> methods.\<close>

definition cniError :: "string \<Rightarrow> string \<Rightarrow> goerr \<Rightarrow> goerr option \<Rightarrow> goerr" where
  "cniError plugin operation cause category =
     MultiErr
       (if plugin \<noteq> '''' then ''CNI '' @ plugin @ '' '' @ operation @ '': '' @ errMsg cause
        else ''CNI '' @ operation @ '': '' @ errMsg cause)
       ((case category of None \<Rightarrow> [] | Some c \<Rightarrow> [c]) @ [cause])"

definition ClassifyError :: "string \<Rightarrow> string \<Rightarrow> goerr \<Rightarrow> goerr" where
  "ClassifyError operation network err = cniError network operation err (classify (toLower (errMsg err)))"

section \<open>The result of the plugins\<close>

text \<open>\<open>%q\<close> of a name with no character to escape.\<close>

definition quoted :: "string \<Rightarrow> string" where
  "quoted s = CHR 0x22 # s @ [CHR 0x22]"

fun detectTCRedirectTAP :: "Interface list \<Rightarrow> (string \<times> string) option" where
  "detectTCRedirectTAP [] = None"
| "detectTCRedirectTAP (iface # rest) =
     (if hasPrefix (if_Name iface) ''tap'' then
        (if if_Sandbox iface = '''' then detectTCRedirectTAP rest else Some (if_Name iface, if_Mac iface))
      else detectTCRedirectTAP rest)"

definition ExtractTAPDeviceInfo :: "Result \<Rightarrow> goerr + string \<times> string" where
  "ExtractTAPDeviceInfo result =
     (case detectTCRedirectTAP (rs_Interfaces result) of
        Some x \<Rightarrow> Inr x
      | None \<Rightarrow> Inl (Errorf (''no TAP device found in CNI result (checked '' @ natStr (length (rs_Interfaces result)) @ '' interfaces)'')))"

definition readInterfaceMAC :: "'w cni_os \<Rightarrow> string \<Rightarrow> string \<Rightarrow> 'w \<Rightarrow> (goerr + string) \<times> 'w" where
  "readInterfaceMAC os netnsPath ifName w =
     (case cn_nsGet os w of
        (Inl err, w1) \<Rightarrow> (Inl (WrapErr ''get current netns'' err), w1)
      | (Inr origNS, w1) \<Rightarrow>
          (case cn_nsFromPath os netnsPath w1 of
             (Inl err, w2) \<Rightarrow> (Inl (WrapErr ''get target netns'' err), cn_nsClose os origNS w2)
           | (Inr targetNS, w2) \<Rightarrow>
               (let close = (\<lambda>w. cn_nsClose os origNS (cn_nsClose os targetNS w))
                in case cn_nsSet os targetNS w2 of
                     (Some err, w3) \<Rightarrow> (Inl (WrapErr ''set target netns'' err), close w3)
                   | (None, w3) \<Rightarrow>
                       (let res = (case cn_linkMAC os ifName w3 of
                                     Inl err \<Rightarrow> Inl (WrapErr (''lookup interface '' @ ifName) err)
                                   | Inr mac \<Rightarrow>
                                       if mac = [] then Inl (Errorf (''interface '' @ quoted ifName @ '' has empty MAC''))
                                       else Inr (macString mac));
                            (_, w4) = cn_nsSet os origNS w3
                        in (res, close w4)))))"

record CNIResult =
  cr_TAPDevice :: string
  cr_TAPMAC :: string
  cr_IPAddress :: string
  cr_Netmask :: string
  cr_Gateway :: string

definition ParseCNIResultWithNetNS :: "'w cni_os \<Rightarrow> Result \<Rightarrow> string \<Rightarrow> 'w \<Rightarrow> (goerr + CNIResult) \<times> 'w" where
  "ParseCNIResultWithNetNS os result netnsPath w =
     (case ExtractTAPDeviceInfo result of
        Inl err \<Rightarrow> (Inl (WrapErr ''failed to extract TAP device'' err), w)
      | Inr (tapDevice, tapMAC) \<Rightarrow>
          (let (mac, w1) =
             (if tapMAC \<noteq> '''' then (Inr tapMAC, w)
              else if netnsPath = ''''
              then (Inl (Errorf (''TAP device '' @ quoted tapDevice @ '' has empty MAC and no netns provided'')), w)
              else (case readInterfaceMAC os netnsPath tapDevice w of
                      (Inl err, w2) \<Rightarrow> (Inl (WrapErr ''failed to read TAP MAC from netns'' err), w2)
                    | (Inr m, w2) \<Rightarrow> (Inr m, w2)))
           in case mac of
                Inl err \<Rightarrow> (Inl err, w1)
              | Inr m \<Rightarrow>
                  (case rs_IPs result of
                     [] \<Rightarrow> (Inl (Errorf ''CNI result contains no IP addresses''), w1)
                   | ipConfig # _ \<Rightarrow>
                       (Inr \<lparr>cr_TAPDevice = tapDevice, cr_TAPMAC = m, cr_IPAddress = ip_Address ipConfig,
                             cr_Netmask = ip_Mask ipConfig, cr_Gateway = ip_Gateway ipConfig\<rparr>, w1))))"
section \<open>The plugin chain\<close>

record CNIManager =
  cm_confDir :: string
  cm_binDir :: string
  cm_netConf :: "NetworkConfigList option"

definition getNetworkConfig :: "CNIManager \<Rightarrow> goerr + NetworkConfigList" where
  "getNetworkConfig m =
     (case cm_netConf m of None \<Rightarrow> Inl (Errorf ''no CNI configuration loaded'') | Some c \<Rightarrow> Inr c)"

definition loadNetworkConfigFromDisk :: "'w cni_os \<Rightarrow> CNIManager \<Rightarrow> 'w \<Rightarrow> goerr + NetworkConfigList" where
  "loadNetworkConfigFromDisk os m w =
     (case cn_confFiles os (cm_confDir m) w of
        Inl err \<Rightarrow> Inl (WrapErr (''failed to read CNI config files from '' @ cm_confDir m) err)
      | Inr [] \<Rightarrow> Inl (Errorf (''no CNI configuration files found in '' @ cm_confDir m))
      | Inr (confFile # _) \<Rightarrow>
          (case cn_confList os confFile w of
             Inl err \<Rightarrow> Inl (WrapErr (''failed to load CNI config from '' @ confFile) err)
           | Inr netConfList \<Rightarrow> Inr netConfList))"

definition loadAndCacheConfig :: "'w cni_os \<Rightarrow> CNIManager \<Rightarrow> 'w \<Rightarrow> goerr option \<times> CNIManager" where
  "loadAndCacheConfig os m w =
     (case loadNetworkConfigFromDisk os m w of
        Inl err \<Rightarrow> (Some err, m)
      | Inr netConf \<Rightarrow> (None, m\<lparr>cm_netConf := Some netConf\<rparr>))"

definition Reload :: "'w cni_os \<Rightarrow> CNIManager \<Rightarrow> 'w \<Rightarrow> goerr option \<times> CNIManager" where
  "Reload os m w = loadAndCacheConfig os m w"

definition NewCNIManager :: "'w cni_os \<Rightarrow> string \<Rightarrow> string \<Rightarrow> 'w \<Rightarrow> goerr + CNIManager" where
  "NewCNIManager os confDir binDir w =
     (if confDir = '''' then Inl (Errorf ''CNI conf directory cannot be empty'')
      else if binDir = '''' then Inl (Errorf ''CNI bin directory cannot be empty'')
      else (case loadAndCacheConfig os \<lparr>cm_confDir = confDir, cm_binDir = binDir, cm_netConf = None\<rparr> w of
              (Some err, _) \<Rightarrow> Inl (WrapErr ''failed to load initial CNI config'' err)
            | (None, m) \<Rightarrow> Inr m))"

definition runtimeConf :: "string \<Rightarrow> string \<Rightarrow> RuntimeConf" where
  "runtimeConf vmID netns = \<lparr>rt_ContainerID = vmID, rt_NetNS = netns, rt_IfName = ''eth0''\<rparr>"

definition cni_Teardown :: "'w cni_os \<Rightarrow> CNIManager \<Rightarrow> string \<Rightarrow> string \<Rightarrow> 'w \<Rightarrow> goerr option \<times> 'w" where
  "cni_Teardown os m vmID netns w =
     (case getNetworkConfig m of
        Inl err \<Rightarrow> (Some (WrapErr ''failed to get CNI network config'' err), w)
      | Inr netConfList \<Rightarrow>
          (case cn_del os netConfList (runtimeConf vmID netns) w of
             (Some err, w1) \<Rightarrow> (Some (ClassifyError ''DEL'' (nl_Name netConfList) err), w1)
           | (None, w1) \<Rightarrow> (None, w1)))"

definition execPluginChain ::
  "'w cni_os \<Rightarrow> string \<Rightarrow> string \<Rightarrow> NetworkConfigList \<Rightarrow> 'w \<Rightarrow> (goerr + Result) \<times> 'w" where
  "execPluginChain os vmID netns netConfList w =
     (let rt = runtimeConf vmID netns
      in case cn_add os netConfList rt w of
           (Inl err, w1) \<Rightarrow> (Inl (WrapErr ''failed to add CNI network'' err), w1)
         | (Inr (Inl err), w1) \<Rightarrow>
             (let (_, w2) = cn_del os netConfList rt w1 in (Inl (WrapErr ''failed to convert CNI result'' err), w2))
         | (Inr (Inr result), w1) \<Rightarrow> (Inr result, w1))"

definition cni_Setup :: "'w cni_os \<Rightarrow> CNIManager \<Rightarrow> string \<Rightarrow> string \<Rightarrow> 'w \<Rightarrow> (goerr + CNIResult) \<times> 'w" where
  "cni_Setup os m vmID netns w =
     (case getNetworkConfig m of
        Inl err \<Rightarrow> (Inl (WrapErr ''failed to get CNI network config'' err), w)
      | Inr netConfList \<Rightarrow>
          (case execPluginChain os vmID netns netConfList w of
             (Inl err, w1) \<Rightarrow> (Inl (ClassifyError ''ADD'' (nl_Name netConfList) err), w1)
           | (Inr result, w1) \<Rightarrow>
               (case ParseCNIResultWithNetNS os result netns w1 of
                  (Inl err, w2) \<Rightarrow>
                    (let (_, w3) = cni_Teardown os m vmID netns w2
                     in (Inl (WrapErr ''failed to parse CNI result'' err), w3))
                | (Inr cniResult, w2) \<Rightarrow> (Inr cniResult, w2))))"

section \<open>The files of namespaces\<close>

text \<open>
  The environment with the namespace files that exist and those the kernel would not let the code clean up: a file that could
  not be removed, or not be closed after it was created. The calls themselves are the environment's.
\<close>

type_synonym nsFiles = "string set \<times> string set"

definition nsCreated :: "string \<Rightarrow> goerr option \<Rightarrow> nsFiles \<Rightarrow> nsFiles" where
  "nsCreated p e = (\<lambda>(live, refused). if e = None then (insert p live, refused) else (live, refused))"

definition nsRemoved :: "string \<Rightarrow> goerr option \<Rightarrow> nsFiles \<Rightarrow> nsFiles" where
  "nsRemoved p e = (\<lambda>(live, refused).
     case e of
       None \<Rightarrow> (live - {p}, refused)
     | Some err \<Rightarrow> if isNotExist err then (live - {p}, refused) else (live, insert p refused))"

definition nsUnclosed :: "string \<Rightarrow> goerr option \<Rightarrow> nsFiles \<Rightarrow> nsFiles" where
  "nsUnclosed p e = (\<lambda>(live, refused). if e = None then (live, refused) else (live, insert p refused))"

definition trackNS :: "'w cni_os \<Rightarrow> ('w \<times> nsFiles) cni_os" where
  "trackNS os =
     \<lparr>cn_mkdirAll = (\<lambda>p (w, t). apsnd (\<lambda>w. (w, t)) (cn_mkdirAll os p w)),
      cn_stat = (\<lambda>p (w, t). cn_stat os p w),
      cn_nsGet = (\<lambda>(w, t). apsnd (\<lambda>w. (w, t)) (cn_nsGet os w)),
      cn_nsNew = (\<lambda>(w, t). apsnd (\<lambda>w. (w, t)) (cn_nsNew os w)),
      cn_nsFromPath = (\<lambda>p (w, t). apsnd (\<lambda>w. (w, t)) (cn_nsFromPath os p w)),
      cn_nsSet = (\<lambda>h (w, t). apsnd (\<lambda>w. (w, t)) (cn_nsSet os h w)),
      cn_nsClose = (\<lambda>h (w, t). (cn_nsClose os h w, t)),
      cn_create = (\<lambda>p (w, t). let (e, w') = cn_create os p w in (e, w', nsCreated p e t)),
      cn_closeNew = (\<lambda>p (w, t). let (e, w') = cn_closeNew os p w in (e, w', nsUnclosed p e t)),
      cn_mount = (\<lambda>p q (w, t). apsnd (\<lambda>w. (w, t)) (cn_mount os p q w)),
      cn_unmount = (\<lambda>p (w, t). apsnd (\<lambda>w. (w, t)) (cn_unmount os p w)),
      cn_remove = (\<lambda>p (w, t). let (e, w') = cn_remove os p w in (e, w', nsRemoved p e t)),
      cn_openInode = (\<lambda>p (w, t). cn_openInode os p w),
      cn_nsInode = (\<lambda>h (w, t). cn_nsInode os h w),
      cn_linkMAC = (\<lambda>n (w, t). cn_linkMAC os n w),
      cn_add = (\<lambda>c r (w, t). apsnd (\<lambda>w. (w, t)) (cn_add os c r w)),
      cn_del = (\<lambda>c r (w, t). apsnd (\<lambda>w. (w, t)) (cn_del os c r w)),
      cn_readDir = (\<lambda>p (w, t). cn_readDir os p w),
      cn_readFile = (\<lambda>p (w, t). cn_readFile os p w),
      cn_confFiles = (\<lambda>p (w, t). cn_confFiles os p w),
      cn_confList = (\<lambda>p (w, t). cn_confList os p w),
      cn_now = (\<lambda>(w, t). cn_now os w)\<rparr>"

text \<open>A change of the files that leaves nothing behind but the files of \<open>X\<close> and what the kernel refused.\<close>

definition nsWithin :: "string set \<Rightarrow> nsFiles \<Rightarrow> nsFiles \<Rightarrow> bool" where
  "nsWithin X t t' \<longleftrightarrow> fst t' \<subseteq> fst t \<union> X \<union> snd t' \<and> snd t \<subseteq> snd t'"

text \<open>The file \<open>p\<close> is gone, unless the kernel refused.\<close>

definition nsGone :: "string \<Rightarrow> nsFiles \<Rightarrow> bool" where
  "nsGone p t \<longleftrightarrow> p \<notin> fst t \<or> p \<in> snd t"

lemma nsWithin_refl [simp]: "nsWithin X t t"
  by (auto simp: nsWithin_def)

lemma nsWithin_trans: "nsWithin X a b \<Longrightarrow> nsWithin X b c \<Longrightarrow> nsWithin X a c"
  by (auto simp: nsWithin_def)

lemma nsWithin_drop: "nsWithin (insert p X) a b \<Longrightarrow> nsGone p b \<Longrightarrow> nsWithin X a b"
  by (auto simp: nsWithin_def nsGone_def)

lemma nsWithin_step:
  "nsWithin {p} t (nsCreated p e t)" "nsWithin X t (nsRemoved p e' t)" "nsWithin X t (nsUnclosed p e t)"
  by (auto simp: nsWithin_def nsCreated_def nsRemoved_def nsUnclosed_def split: prod.splits option.splits)

lemma nsGone_removed: "nsGone p (nsRemoved p e t)"
  by (auto simp: nsGone_def nsRemoved_def split: prod.splits option.splits)

lemma nsGone_unclosed: "e \<noteq> None \<Longrightarrow> nsGone p (nsUnclosed p e t)"
  by (auto simp: nsGone_def nsUnclosed_def split: prod.splits)

lemma trackNS_files:
  "cn_mkdirAll (trackNS os) p s = (e1, s1) \<Longrightarrow> snd s1 = snd s"
  "cn_nsGet (trackNS os) s = (r1, s1) \<Longrightarrow> snd s1 = snd s"
  "cn_nsNew (trackNS os) s = (r1, s1) \<Longrightarrow> snd s1 = snd s"
  "cn_nsFromPath (trackNS os) p s = (r1, s1) \<Longrightarrow> snd s1 = snd s"
  "cn_nsSet (trackNS os) h s = (e1, s1) \<Longrightarrow> snd s1 = snd s"
  "cn_mount (trackNS os) p q s = (e1, s1) \<Longrightarrow> snd s1 = snd s"
  "cn_unmount (trackNS os) p s = (e1, s1) \<Longrightarrow> snd s1 = snd s"
  "cn_add (trackNS os) c r s = (a1, s1) \<Longrightarrow> snd s1 = snd s"
  "cn_del (trackNS os) c r s = (e1, s1) \<Longrightarrow> snd s1 = snd s"
  "cn_create (trackNS os) p s = (e1, s1) \<Longrightarrow> snd s1 = nsCreated p e1 (snd s)"
  "cn_closeNew (trackNS os) p s = (e1, s1) \<Longrightarrow> snd s1 = nsUnclosed p e1 (snd s)"
  "cn_remove (trackNS os) p s = (e1, s1) \<Longrightarrow> snd s1 = nsRemoved p e1 (snd s)"
  by (auto simp: trackNS_def apsnd_def map_prod_def split: prod.splits)

lemma trackNS_close [simp]: "snd (cn_nsClose (trackNS os) h s) = snd s"
  by (simp add: trackNS_def split: prod.splits)

lemma DeleteNetNS_files:
  assumes "DeleteNetNS (trackNS os) i s = (e, s')"
  shows "nsWithin X (snd s) (snd s') \<and> nsGone (GetNetNSPath i) (snd s')"
  using assms
  by (auto simp: nsWithin_step nsGone_removed DeleteNetNS_def unmountNetNS_def GetNetNSPath_def Let_def dest!: trackNS_files
      split: prod.splits option.splits if_splits)

lemma nsWithin_deleted:
  assumes "nsWithin {GetNetNSPath i} a (snd s)" "DeleteNetNS (trackNS os) i s = (e, s')"
  shows "nsWithin {} a (snd s') \<and> nsGone (GetNetNSPath i) (snd s')"
  using DeleteNetNS_files [OF assms(2), of "{GetNetNSPath i}"] nsWithin_trans [OF assms(1)] nsWithin_drop by blast

lemma bindMountNetNS_files:
  assumes "bindMountNetNS (trackNS os) src p s = (e, s')"
  shows "nsWithin {p} (snd s) (snd s') \<and> (e \<noteq> None \<longrightarrow> nsWithin {} (snd s) (snd s'))"
proof -
  have *: "nsWithin {p} t (nsRemoved p e2 (nsUnclosed p e1 (nsCreated p e0 t)))"
    "nsWithin {p} t (nsUnclosed p e1 (nsCreated p e0 t))" for t e0 e1 e2
    by (meson nsWithin_step nsWithin_trans)+
  have **: "nsWithin {} t (nsRemoved p e2 (nsUnclosed p e1 (nsCreated p e0 t)))"
    "e1 \<noteq> None \<Longrightarrow> nsWithin {} t (nsUnclosed p e1 (nsCreated p e0 t))" for t e0 e1 e2
    by (meson * nsGone_removed nsGone_unclosed nsWithin_drop)+
  have ***: "nsCreated p (Some err) t = t" for err t
    by (simp add: nsCreated_def split: prod.splits)
  show ?thesis
    using assms
    by (auto simp: bindMountNetNS_def Let_def * ** *** dest!: trackNS_files split: prod.splits option.splits)
qed

lemma nsRemoved_within:
  "nsWithin X a b \<Longrightarrow> nsWithin X a (nsRemoved p e b)"
  by (rule nsWithin_trans [OF _ nsWithin_step(2)])

lemma nsWithin_mono: "nsWithin {} a b \<Longrightarrow> nsWithin X a b"
  by (auto simp: nsWithin_def)

lemma bindNewNetNS_files:
  assumes "bindNewNetNS (trackNS os) i h n s = (r, s')"
  shows "nsWithin (if isl r then {} else {GetNetNSPath i}) (snd s) (snd s')"
proof -
  obtain e s1 where b: "bindMountNetNS (trackNS os) (''/proc/self/fd/'' @ natStr n) (GetNetNSPath i) s = (e, s1)"
    by (metis surj_pair)
  note w = bindMountNetNS_files [OF b]
  have del: "nsWithin {} (snd s) (snd s3)" if "DeleteNetNS (trackNS os) i s2 = (e', s3)" "snd s2 = snd s1" for s2 e' s3
    using w that(2) nsWithin_deleted [OF _ that(1)] by simp
  show ?thesis
    using assms w b nsRemoved_within [of "{}" "snd s" "snd s1"]
    by (auto simp: bindNewNetNS_def Let_def GetNetNSPath_def [symmetric] dest!: trackNS_files dest: del
        split: prod.splits option.splits)
qed

lemma CreateNetNS_files:
  assumes "CreateNetNS (trackNS os) i s = (r, s')"
  shows "nsWithin (if isl r then {} else {GetNetNSPath i}) (snd s) (snd s')"
proof -
  let ?os = "trackNS os"
  obtain e1 s1 where m: "cn_mkdirAll ?os netnsBasePath s = (e1, s1)"
    by (metis surj_pair)
  obtain e2 s2 where d: "(if NetNSExists ?os i s1 then DeleteNetNS ?os i s1 else (None, s1)) = (e2, s2)"
    by (metis surj_pair)
  have within: "nsWithin X (snd s) (snd s2)" for X
    using DeleteNetNS_files [of os i s1 e2 s2 X] d trackNS_files(1) [OF m] by (auto split: if_splits)
  have bind: "nsWithin (if isl x then {} else {GetNetNSPath i}) (snd s) (snd s5)"
    if "bindNewNetNS ?os i h n s4 = (x, s5)" "snd s4 = snd s2" for h n s4 x s5
    using nsWithin_trans [OF within] bindNewNetNS_files [OF that(1)] that(2) by metis
  show ?thesis
    using assms m within [of "{}"]
    by (auto simp: CreateNetNS_def Let_def d dest!: trackNS_files dest: bind split: prod.splits option.splits sum.splits)
qed

lemma readInterfaceMAC_files:
  "readInterfaceMAC (trackNS os) p n s = (r, s') \<Longrightarrow> snd s' = snd s"
  by (auto simp: readInterfaceMAC_def Let_def dest!: trackNS_files split: prod.splits option.splits sum.splits)

lemma ParseCNIResult_files:
  "ParseCNIResultWithNetNS (trackNS os) x p s = (r, s') \<Longrightarrow> snd s' = snd s"
  by (auto simp: ParseCNIResultWithNetNS_def Let_def dest!: readInterfaceMAC_files
      split: prod.splits if_splits sum.splits list.splits)

lemma cni_Teardown_files:
  "cni_Teardown (trackNS os) m i p s = (e, s') \<Longrightarrow> snd s' = snd s"
  by (auto simp: cni_Teardown_def dest!: trackNS_files split: prod.splits option.splits sum.splits)

lemma execPluginChain_files:
  "execPluginChain (trackNS os) i p c s = (r, s') \<Longrightarrow> snd s' = snd s"
  by (auto simp: execPluginChain_def Let_def dest!: trackNS_files split: prod.splits sum.splits)

lemma cni_Setup_files:
  "cni_Setup (trackNS os) m i p s = (r, s') \<Longrightarrow> snd s' = snd s"
  by (auto simp: cni_Setup_def Let_def dest!: execPluginChain_files ParseCNIResult_files cni_Teardown_files
      split: prod.splits sum.splits)

end
