(* ===== verification/Net_Manager.thy ===== *)
theory Net_Manager
  imports Cni_Setup
begin

text \<open>
  The host's network manager (\<^verbatim>\<open>internal/host/network/network.go\<close>, \<^verbatim>\<open>manager_cni.go\<close>, \<^verbatim>\<open>metrics.go\<close>): setting up and
  releasing the network of a container through the plugin chain of \<open>Cni_Setup\<close>, the cache of results, the check
  for leaked addresses and the counters.

  The operations run to their end here, as a single goroutine runs them; \<open>Net_Inflight\<close> has the interleaving of
  goroutines at their critical sections. Counters are \<open>int64\<close> and wrap around.
\<close>

section \<open>Counters\<close>

record Metrics =
  me_SetupAttempts :: int
  me_SetupSuccesses :: int
  me_SetupFailures :: int
  me_ResourceConflicts :: int
  me_TeardownAttempts :: int
  me_TeardownSuccesses :: int
  me_TeardownFailures :: int
  me_IPAMLeaksDetected :: int
  me_TotalSetupTimeNs :: int
  me_TotalTeardownTimeNs :: int

definition Metrics_Reset :: "Metrics \<Rightarrow> Metrics" where
  "Metrics_Reset m = m\<lparr>
     me_SetupAttempts := 0, me_SetupSuccesses := 0, me_SetupFailures := 0, me_ResourceConflicts := 0,
     me_TeardownAttempts := 0, me_TeardownSuccesses := 0, me_TeardownFailures := 0, me_IPAMLeaksDetected := 0,
     me_TotalSetupTimeNs := 0, me_TotalTeardownTimeNs := 0\<rparr>"

definition zeroMetrics :: Metrics where
  "zeroMetrics = \<lparr>me_SetupAttempts = 0, me_SetupSuccesses = 0, me_SetupFailures = 0, me_ResourceConflicts = 0,
     me_TeardownAttempts = 0, me_TeardownSuccesses = 0, me_TeardownFailures = 0, me_IPAMLeaksDetected = 0,
     me_TotalSetupTimeNs = 0, me_TotalTeardownTimeNs = 0\<rparr>"

definition RecordSetup :: "bool \<Rightarrow> bool \<Rightarrow> int \<Rightarrow> Metrics \<Rightarrow> Metrics" where
  "RecordSetup success conflict duration m =
     (let m1 = m\<lparr>me_SetupAttempts := wrap64 (me_SetupAttempts m + 1)\<rparr>;
          m2 = m1\<lparr>me_TotalSetupTimeNs := wrap64 (me_TotalSetupTimeNs m1 + duration)\<rparr>;
          m3 = (if success then m2\<lparr>me_SetupSuccesses := wrap64 (me_SetupSuccesses m2 + 1)\<rparr>
                else m2\<lparr>me_SetupFailures := wrap64 (me_SetupFailures m2 + 1)\<rparr>)
      in if conflict then m3\<lparr>me_ResourceConflicts := wrap64 (me_ResourceConflicts m3 + 1)\<rparr> else m3)"

definition RecordTeardown :: "bool \<Rightarrow> int \<Rightarrow> Metrics \<Rightarrow> Metrics" where
  "RecordTeardown success duration m =
     (let m1 = m\<lparr>me_TeardownAttempts := wrap64 (me_TeardownAttempts m + 1)\<rparr>;
          m2 = m1\<lparr>me_TotalTeardownTimeNs := wrap64 (me_TotalTeardownTimeNs m1 + duration)\<rparr>
      in if success then m2\<lparr>me_TeardownSuccesses := wrap64 (me_TeardownSuccesses m2 + 1)\<rparr>
         else m2\<lparr>me_TeardownFailures := wrap64 (me_TeardownFailures m2 + 1)\<rparr>)"

definition RecordIPAMLeak :: "Metrics \<Rightarrow> Metrics" where
  "RecordIPAMLeak m = m\<lparr>me_IPAMLeaksDetected := wrap64 (me_IPAMLeaksDetected m + 1)\<rparr>"

section \<open>The manager\<close>

record HostNetworkConfig =
  nc_CNIConfDir :: string
  nc_CNIBinDir :: string

text \<open>The environment variables, and whether a path can be read.\<close>

definition LoadNetworkConfig :: "(string \<Rightarrow> string) \<Rightarrow> (string \<Rightarrow> bool) \<Rightarrow> HostNetworkConfig" where
  "LoadNetworkConfig getenv exists =
     (let confDir = getenv ''SPINBOX_CNI_CONF_DIR''
      in if confDir \<noteq> '''' then
           (let binDir = getenv ''SPINBOX_CNI_BIN_DIR''
            in \<lparr>nc_CNIConfDir = confDir, nc_CNIBinDir = (if binDir = '''' then ''/opt/cni/bin'' else binDir)\<rparr>)
         else
           (let spinboxConfDir = pathJoin [''/usr/share/spinbox'', ''config'', ''cni'', ''net.d''];
                spinboxBinDir = pathJoin [''/usr/share/spinbox'', ''libexec'', ''cni'']
            in if exists spinboxConfDir then \<lparr>nc_CNIConfDir = spinboxConfDir, nc_CNIBinDir = spinboxBinDir\<rparr>
               else \<lparr>nc_CNIConfDir = ''/etc/cni/net.d'', nc_CNIBinDir = ''/opt/cni/bin''\<rparr>))"

text \<open>The tables of operations in flight are empty whenever no goroutine is inside; they are modelled in \<open>Net_Inflight\<close>.\<close>

record cniNetworkManager =
  cnm_config :: HostNetworkConfig
  cnm_cniManager :: CNIManager
  cnm_cniResults :: "string \<rightharpoonup> CNIResult"
  cnm_metrics :: Metrics
  cnm_ipamDir :: string

definition newCNINetworkManager :: "'w cni_os \<Rightarrow> HostNetworkConfig \<Rightarrow> 'w \<Rightarrow> goerr + cniNetworkManager" where
  "newCNINetworkManager os config w =
     (case NewCNIManager os (nc_CNIConfDir config) (nc_CNIBinDir config) w of
        Inl err \<Rightarrow> Inl (WrapErr ''failed to create CNI manager'' err)
      | Inr cniMgr \<Rightarrow>
          Inr \<lparr>cnm_config = config, cnm_cniManager = cniMgr, cnm_cniResults = Map.empty, cnm_metrics = zeroMetrics,
               cnm_ipamDir = ''/var/lib/cni/networks''\<rparr>)"

section \<open>Setting up\<close>

definition cleanupIDOf :: "string \<Rightarrow> go_time \<Rightarrow> string" where
  "cleanupIDOf containerID now = containerID @ ''-cleanup-'' @ itoa now"

definition attemptOrphanCleanup :: "'w cni_os \<Rightarrow> CNIManager \<Rightarrow> string \<Rightarrow> 'w \<Rightarrow> 'w" where
  "attemptOrphanCleanup os m containerID w =
     (let cleanupID = cleanupIDOf containerID (cn_now os w)
      in case CreateNetNS os cleanupID w of
           (Inl _, w1) \<Rightarrow> w1
         | (Inr cleanupNetns, w1) \<Rightarrow>
             (let (_, w2) = cni_Teardown os m containerID cleanupNetns w1;
                  (_, w3) = DeleteNetNS os cleanupID w2
              in w3))"

definition performCNISetup :: "'w cni_os \<Rightarrow> CNIManager \<Rightarrow> string \<Rightarrow> 'w \<Rightarrow> (goerr + CNIResult) \<times> 'w" where
  "performCNISetup os m containerID w =
     (case CreateNetNS os containerID w of
        (Inl err, w1) \<Rightarrow> (Inl (WrapErr ''create netns for CNI'' err), w1)
      | (Inr netnsPath, w1) \<Rightarrow>
          (case cni_Setup os m containerID netnsPath w1 of
             (Inl err, w2) \<Rightarrow>
               (let (_, w3) = DeleteNetNS os containerID w2
                in if errIs err ErrResourceConflict
                   then (Inl (WrapErr ''setup CNI network (resource conflict - orphaned resources from previous run?)'' err),
                         attemptOrphanCleanup os m containerID w3)
                   else (Inl (WrapErr (''setup CNI network for '' @ containerID) err), w3))
           | (Inr result, w2) \<Rightarrow> (Inr result, w2)))"

definition updateEnvironment :: "Environment \<Rightarrow> CNIResult \<Rightarrow> Environment" where
  "updateEnvironment env result = env\<lparr>env_NetworkInfo := Some
     \<lparr>ni_TapName = cr_TAPDevice result, ni_MAC = cr_TAPMAC result, ni_IP = cr_IPAddress result,
      ni_Netmask = cr_Netmask result, ni_Gateway = cr_Gateway result\<rparr>\<rparr>"

text \<open>What the worker does between the two ends of its flight, and what it leaves for the waiters.\<close>

definition setupWork ::
  "'w cni_os \<Rightarrow> string \<Rightarrow> cniNetworkManager \<times> 'w \<Rightarrow> (goerr + CNIResult) \<times> cniNetworkManager \<times> 'w" where
  "setupWork os vmID = (\<lambda>(nm, w).
     (let start = cn_now os w;
          (res, w1) = performCNISetup os (cnm_cniManager nm) vmID w;
          duration = cn_now os w1 - start
      in case res of
           Inl err \<Rightarrow>
             (Inl err,
              nm\<lparr>cnm_metrics := RecordSetup False (errIs err ErrResourceConflict) duration (cnm_metrics nm)\<rparr>, w1)
         | Inr result \<Rightarrow>
             (Inr result,
              nm\<lparr>cnm_metrics := RecordSetup True False duration (cnm_metrics nm),
                 cnm_cniResults := (cnm_cniResults nm)(vmID \<mapsto> result)\<rparr>, w1)))"

definition ensureNetworkResourcesCNI ::
  "'w cni_os \<Rightarrow> Environment \<Rightarrow> cniNetworkManager \<times> 'w \<Rightarrow> goerr option \<times> Environment \<times> cniNetworkManager \<times> 'w" where
  "ensureNetworkResourcesCNI os env s =
     (case cnm_cniResults (fst s) (env_ID env) of
        Some result \<Rightarrow> (None, updateEnvironment env result, s)
      | None \<Rightarrow>
          (case setupWork os (env_ID env) s of
             (Inl err, s1) \<Rightarrow> (Some err, env, s1)
           | (Inr result, s1) \<Rightarrow> (None, updateEnvironment env result, s1)))"

section \<open>Releasing\<close>

record CleanupResult =
  cl_CNITeardown :: "goerr option"
  cl_NetNSDelete :: "goerr option"
  cl_IPAMVerify :: "goerr option"
  cl_InMemoryClear :: bool

definition HasError :: "CleanupResult \<Rightarrow> bool" where
  "HasError c \<longleftrightarrow> cl_CNITeardown c \<noteq> None \<or> cl_NetNSDelete c \<noteq> None \<or> cl_IPAMVerify c \<noteq> None"

text \<open>The error type has no \<open>Unwrap\<close>: it is its message alone.\<close>

definition cleanupErrorMsg :: "CleanupResult \<Rightarrow> string" where
  "cleanupErrorMsg c = joinWith ''; ''
     ((case cl_CNITeardown c of None \<Rightarrow> [] | Some e \<Rightarrow> [''CNI teardown: '' @ errMsg e])
      @ (case cl_NetNSDelete c of None \<Rightarrow> [] | Some e \<Rightarrow> [''netns delete: '' @ errMsg e])
      @ (case cl_IPAMVerify c of None \<Rightarrow> [] | Some e \<Rightarrow> [''IPAM verify: '' @ errMsg e]))"

definition cleanup_Err :: "CleanupResult \<Rightarrow> goerr option" where
  "cleanup_Err c = (if \<not> HasError c then None else Some (Errorf (cleanupErrorMsg c)))"

text \<open>The files of a network's directory: the one that still names the container.\<close>

fun leakIn :: "'w cni_os \<Rightarrow> string \<Rightarrow> string \<Rightarrow> string \<Rightarrow> 'w \<Rightarrow> (string \<times> bool) list \<Rightarrow> goerr option" where
  "leakIn os netPath netName containerID w [] = None"
| "leakIn os netPath netName containerID w ((name, isDir) # ipFiles) =
     (if isDir then leakIn os netPath netName containerID w ipFiles
      else if hasPrefix name ''last_'' \<or> hasPrefix name ''.'' then leakIn os netPath netName containerID w ipFiles
      else (case cn_readFile os (pathJoin [netPath, name]) w of
              Inl _ \<Rightarrow> leakIn os netPath netName containerID w ipFiles
            | Inr content \<Rightarrow>
                if trimSpace content = containerID
                then Some (MultiErr (errMsg ErrIPAMLeak @ '': IP '' @ name @ '' in network '' @ netName
                                     @ '' still allocated to '' @ containerID) [ErrIPAMLeak])
                else leakIn os netPath netName containerID w ipFiles))"

fun leakInDirs :: "'w cni_os \<Rightarrow> string \<Rightarrow> string \<Rightarrow> 'w \<Rightarrow> (string \<times> bool) list \<Rightarrow> goerr option" where
  "leakInDirs os ipamDir containerID w [] = None"
| "leakInDirs os ipamDir containerID w ((name, isDir) # entries) =
     (if \<not> isDir then leakInDirs os ipamDir containerID w entries
      else (let netPath = pathJoin [ipamDir, name]
            in case cn_readDir os netPath w of
                 Inl _ \<Rightarrow> leakInDirs os ipamDir containerID w entries
               | Inr ipFiles \<Rightarrow>
                   (case leakIn os netPath name containerID w ipFiles of
                      Some err \<Rightarrow> Some err
                    | None \<Rightarrow> leakInDirs os ipamDir containerID w entries)))"

definition verifyIPAMCleanup :: "'w cni_os \<Rightarrow> string \<Rightarrow> string \<Rightarrow> 'w \<Rightarrow> goerr option" where
  "verifyIPAMCleanup os ipamDir containerID w =
     (case cn_readDir os ipamDir w of
        Inl err \<Rightarrow> None
      | Inr entries \<Rightarrow> leakInDirs os ipamDir containerID w entries)"

text \<open>The namespace the plugins are run in, with the error of creating one for them.\<close>

definition teardownNetNS :: "'w cni_os \<Rightarrow> string \<Rightarrow> 'w \<Rightarrow> string \<times> goerr option \<times> 'w" where
  "teardownNetNS os vmID w =
     (if \<not> NetNSExists os vmID w then
        (case CreateNetNS os vmID w of
           (Inl err, w1) \<Rightarrow> ('''', Some (WrapErr ''create temporary netns'' err), w1)
         | (Inr tmpNetns, w1) \<Rightarrow> (tmpNetns, None, w1))
      else (GetNetNSPath vmID, None, w))"

definition performCNITeardown ::
  "'w cni_os \<Rightarrow> Environment \<Rightarrow> cniNetworkManager \<times> 'w \<Rightarrow> CleanupResult \<times> Environment \<times> cniNetworkManager \<times> 'w" where
  "performCNITeardown os env = (\<lambda>(nm, w).
     (let (netnsPath, netnsErr, w1) = teardownNetNS os (env_ID env) w;
          (teardownErr, w2) = cni_Teardown os (cnm_cniManager nm) (env_ID env) netnsPath w1;
          verifyErr = verifyIPAMCleanup os (cnm_ipamDir nm) (env_ID env) w2;
          metrics = (if verifyErr \<noteq> None then RecordIPAMLeak (cnm_metrics nm) else cnm_metrics nm);
          (deleteErr, w3) = DeleteNetNS os (env_ID env) w2
      in (\<lparr>cl_CNITeardown = teardownErr, cl_NetNSDelete = (if deleteErr \<noteq> None then deleteErr else netnsErr),
           cl_IPAMVerify = verifyErr, cl_InMemoryClear = True\<rparr>,
          env\<lparr>env_NetworkInfo := None\<rparr>,
          nm\<lparr>cnm_metrics := metrics, cnm_cniResults := (cnm_cniResults nm)(env_ID env := None)\<rparr>, w3)))"

definition releaseNetworkResourcesCNI ::
  "'w cni_os \<Rightarrow> Environment \<Rightarrow> cniNetworkManager \<times> 'w \<Rightarrow> goerr option \<times> Environment \<times> cniNetworkManager \<times> 'w" where
  "releaseNetworkResourcesCNI os env = (\<lambda>(nm, w).
     (let start = cn_now os w;
          (result, env1, nm1, w1) = performCNITeardown os env (nm, w);
          duration = cn_now os w1 - start
      in (cleanup_Err result, env1,
          nm1\<lparr>cnm_metrics := RecordTeardown (\<not> HasError result) duration (cnm_metrics nm1)\<rparr>, w1)))"

text \<open>The manager as the shim sees it.\<close>

definition cniNM :: "'w cni_os \<Rightarrow> (cniNetworkManager \<times> 'w) NetworkManager" where
  "cniNM os =
     \<lparr>nm_EnsureNetworkResources = ensureNetworkResourcesCNI os,
      nm_ReleaseNetworkResources = releaseNetworkResourcesCNI os,
      nm_Close = (\<lambda>s. (None, s))\<rparr>"

section \<open>What the manager promises the shim\<close>

lemma cniNM_provides: "nmProvides (cniNM os)"
  by (auto simp: nmProvides_def cniNM_def ensureNetworkResourcesCNI_def updateEnvironment_def
      split: option.splits prod.splits sum.splits)

section \<open>No namespace is left behind\<close>

lemma attemptOrphanCleanup_files:
  "nsWithin {} (snd s) (snd (attemptOrphanCleanup (trackNS os) m i s))"
proof -
  let ?c = "cleanupIDOf i (cn_now (trackNS os) s)"
  obtain r s1 where cr: "CreateNetNS (trackNS os) ?c s = (r, s1)"
    by (metis surj_pair)
  have del: "nsWithin {} (snd s) (snd s3)"
    if "\<not> isl r" "DeleteNetNS (trackNS os) ?c s2 = (e', s3)" "snd s2 = snd s1" for s2 e' s3
    using CreateNetNS_files [OF cr] that(1,3) nsWithin_deleted [OF _ that(2)] by simp
  show ?thesis
    using CreateNetNS_files [OF cr] cr del
    by (auto simp: attemptOrphanCleanup_def Let_def dest!: cni_Teardown_files split: prod.splits sum.splits)
qed

lemma performCNISetup_files:
  assumes "performCNISetup (trackNS os) m i s = (r, s')"
  shows "nsWithin (if isl r then {} else {GetNetNSPath i}) (snd s) (snd s')"
proof -
  obtain r1 s1 where c: "CreateNetNS (trackNS os) i s = (r1, s1)"
    by (metis surj_pair)
  show ?thesis
  proof (cases r1)
    case (Inl e)
    then show ?thesis
      using assms CreateNetNS_files [OF c] by (simp add: performCNISetup_def c) auto
  next
    case (Inr p)
    obtain r2 s2 where t: "cni_Setup (trackNS os) m i p s1 = (r2, s2)"
      by (metis surj_pair)
    obtain e s3 where d: "DeleteNetNS (trackNS os) i s2 = (e, s3)"
      by (metis surj_pair)
    have w: "nsWithin {GetNetNSPath i} (snd s) (snd s2)" "nsWithin {} (snd s) (snd s3)"
      using CreateNetNS_files [OF c] cni_Setup_files [OF t] nsWithin_deleted [OF _ d] by (simp_all add: Inr)
    show ?thesis
      using assms w nsWithin_trans [OF w(2) attemptOrphanCleanup_files]
      by (auto simp: performCNISetup_def c Inr t d Let_def split: sum.splits if_splits)
  qed
qed

text \<open>Every file is that of a container with a cached result, or one the kernel refused to clean up.\<close>

definition nsAccounted :: "cniNetworkManager \<times> 'w \<times> nsFiles \<Rightarrow> bool" where
  "nsAccounted s \<longleftrightarrow> fst (snd (snd s)) \<subseteq> GetNetNSPath ` dom (cnm_cniResults (fst s)) \<union> snd (snd (snd s))"

lemma ensure_accounted:
  assumes "ensureNetworkResourcesCNI (trackNS os) env s = (e, env', s')" "nsAccounted s"
  shows "nsAccounted s'"
proof -
  have work: "nsAccounted s1" if "setupWork (trackNS os) i s = (r, s1)" for i r s1
    using that assms(2) performCNISetup_files [of os "cnm_cniManager (fst s)" i "snd s"]
    by (fastforce simp: setupWork_def nsAccounted_def nsWithin_def Let_def split: prod.splits sum.splits)
  show ?thesis
    using assms by (auto simp: ensureNetworkResourcesCNI_def dest!: work split: prod.splits sum.splits option.splits)
qed

lemma teardownNetNS_files:
  "teardownNetNS (trackNS os) i s = (p, e, s') \<Longrightarrow> nsWithin {GetNetNSPath i} (snd s) (snd s')"
  by (auto simp: teardownNetNS_def dest!: CreateNetNS_files intro: nsWithin_mono split: prod.splits sum.splits if_splits)

lemma performCNITeardown_files:
  assumes "performCNITeardown (trackNS os) env (nm, s) = (c, env', nm', s')"
  shows "nsWithin {} (snd s) (snd s') \<and> nsGone (GetNetNSPath (env_ID env)) (snd s')
    \<and> cnm_cniResults nm' = (cnm_cniResults nm)(env_ID env := None)"
proof -
  let ?os = "trackNS os" and ?i = "env_ID env"
  obtain p e1 s1 where t: "teardownNetNS ?os ?i s = (p, e1, s1)"
    by (metis prod_cases3)
  obtain e2 s2 where d: "cni_Teardown ?os (cnm_cniManager nm) ?i p s1 = (e2, s2)"
    by (metis surj_pair)
  obtain e3 s3 where r: "DeleteNetNS ?os ?i s2 = (e3, s3)"
    by (metis surj_pair)
  have "nsWithin {} (snd s) (snd s3) \<and> nsGone (GetNetNSPath ?i) (snd s3)"
    using teardownNetNS_files [OF t] cni_Teardown_files [OF d] nsWithin_deleted [OF _ r] by simp
  then show ?thesis
    using assms by (auto simp: performCNITeardown_def t d r Let_def)
qed

lemma release_accounted:
  assumes "releaseNetworkResourcesCNI (trackNS os) env s = (e, env', s')" "nsAccounted s"
  shows "nsAccounted s' \<and> nsGone (GetNetNSPath (env_ID env)) (snd (snd s'))"
proof -
  obtain nm w where s: "s = (nm, w)"
    by (cases s)
  obtain c env1 nm1 w1 where p: "performCNITeardown (trackNS os) env (nm, w) = (c, env1, nm1, w1)"
    by (metis prod_cases4)
  note f = performCNITeardown_files [OF p]
  have "x \<in> GetNetNSPath ` dom (cnm_cniResults nm1)" if x: "x \<in> fst (snd w1)" "x \<notin> snd (snd w1)" for x
  proof -
    have "x \<in> GetNetNSPath ` dom (cnm_cniResults nm)"
      using f x assms(2) unfolding s nsAccounted_def nsWithin_def fst_conv snd_conv by blast
    then obtain j where "x = GetNetNSPath j" "j \<in> dom (cnm_cniResults nm)"
      by blast
    then show ?thesis
      using f x by (cases "j = env_ID env") (auto simp: nsGone_def)
  qed
  then have "nsAccounted (nm1, w1)"
    by (auto simp: nsAccounted_def)
  then show ?thesis
    using assms(1) p performCNITeardown_files [OF p] by (auto simp: s releaseNetworkResourcesCNI_def nsAccounted_def)
qed

text \<open>A history of requests to the manager.\<close>

datatype netOp = EnsureNet string | ReleaseNet string

primrec netStep :: "'w cni_os \<Rightarrow> netOp \<Rightarrow> cniNetworkManager \<times> 'w \<Rightarrow> cniNetworkManager \<times> 'w" where
  "netStep os (EnsureNet i) s = snd (snd (nm_EnsureNetworkResources (cniNM os) \<lparr>env_ID = i, env_NetworkInfo = None\<rparr> s))"
| "netStep os (ReleaseNet i) s = snd (snd (nm_ReleaseNetworkResources (cniNM os) \<lparr>env_ID = i, env_NetworkInfo = None\<rparr> s))"

definition netRun :: "'w cni_os \<Rightarrow> netOp list \<Rightarrow> cniNetworkManager \<times> 'w \<Rightarrow> cniNetworkManager \<times> 'w" where
  "netRun os ops s = fold (netStep os) ops s"

lemma netStep_accounted: "nsAccounted s \<Longrightarrow> nsAccounted (netStep (trackNS os) a s)"
  by (cases a) (simp_all add: cniNM_def, (metis ensure_accounted release_accounted prod.collapse)+)

lemma netRun_accounted: "nsAccounted s \<Longrightarrow> nsAccounted (netRun (trackNS os) ops s)"
  unfolding netRun_def by (induction ops arbitrary: s) (simp_all add: netStep_accounted)

text \<open>
  C4. Network namespaces are not leaked. After any history of setting up and releasing networks, whatever the
  kernel and the CNI plugins answered, every namespace file the manager created and that still exists belongs to a container whose
  result the manager still holds, or is a file the kernel would not let it close or remove. In particular a failed setup leaves no namespace,
  neither the container's nor the temporary one of the cleanup after a conflict.
\<close>

theorem netns_files_accounted:
  assumes "newCNINetworkManager os config w = Inr nm"
  shows "case netRun (trackNS os) ops (nm, w, {}, {}) of
    (nm', w', live, refused) \<Rightarrow> live \<subseteq> GetNetNSPath ` dom (cnm_cniResults nm') \<union> refused"
  using netRun_accounted [of "(nm, w, {}, {})" os ops] by (auto simp: nsAccounted_def split: prod.split)

text \<open>A kernel and plugins that never fail; the second container has an address in use.\<close>

definition demoNetOs :: "unit cni_os" where
  "demoNetOs =
     \<lparr>cn_mkdirAll = (\<lambda>p w. (None, w)), cn_stat = (\<lambda>p w. Some (Errno ''ENOENT'')),
      cn_nsGet = (\<lambda>w. (Inr 1, w)), cn_nsNew = (\<lambda>w. (Inr 2, w)), cn_nsFromPath = (\<lambda>p w. (Inr 3, w)),
      cn_nsSet = (\<lambda>h w. (None, w)), cn_nsClose = (\<lambda>h w. w), cn_create = (\<lambda>p w. (None, w)),
      cn_closeNew = (\<lambda>p w. (None, w)), cn_mount = (\<lambda>p q w. (None, w)), cn_unmount = (\<lambda>p w. (None, w)),
      cn_remove = (\<lambda>p w. (None, w)), cn_openInode = (\<lambda>p w. Inr (Inr 7)), cn_nsInode = (\<lambda>h w. Inr 5),
      cn_linkMAC = (\<lambda>n w. Inr [2, 0, 0, 0, 0, 1]),
      cn_add = (\<lambda>c r w. (if rt_ContainerID r = ''b'' then Inl (Errorf ''duplicate allocation is not allowed'')
        else Inr (Inr \<lparr>rs_Interfaces = [\<lparr>if_Name = ''tap0'', if_Mac = '''', if_Sandbox = rt_NetNS r\<rparr>],
                       rs_IPs = [\<lparr>ip_Address = ''10.0.0.2'', ip_Mask = ''255.255.255.0'', ip_Gateway = ''10.0.0.1''\<rparr>]\<rparr>), w)),
      cn_del = (\<lambda>c r w. (None, w)), cn_readDir = (\<lambda>p w. Inl (Errno ''ENOENT'')), cn_readFile = (\<lambda>p w. Inl (Errno ''ENOENT'')),
      cn_confFiles = (\<lambda>p w. Inr [''10-net.conflist'']),
      cn_confList = (\<lambda>p w. Inr \<lparr>nl_Name = ''net'', nl_Plugins = ''''\<rparr>), cn_now = (\<lambda>w. 0)\<rparr>"

definition demoNetConfig :: HostNetworkConfig where
  "demoNetConfig = \<lparr>nc_CNIConfDir = ''/etc/cni/net.d'', nc_CNIBinDir = ''/opt/cni/bin''\<rparr>"

definition demoNM :: cniNetworkManager where
  "demoNM = \<lparr>cnm_config = demoNetConfig,
     cnm_cniManager = \<lparr>cm_confDir = ''/etc/cni/net.d'', cm_binDir = ''/opt/cni/bin'',
                       cm_netConf = Some \<lparr>nl_Name = ''net'', nl_Plugins = ''''\<rparr>\<rparr>,
     cnm_cniResults = Map.empty, cnm_metrics = zeroMetrics, cnm_ipamDir = ''/var/lib/cni/networks''\<rparr>"

lemma demoNM_new: "newCNINetworkManager demoNetOs demoNetConfig () = Inr demoNM"
  by (simp add: newCNINetworkManager_def NewCNIManager_def loadAndCacheConfig_def loadNetworkConfigFromDisk_def demoNetOs_def
      demoNetConfig_def demoNM_def)

theorem netns_files_accounted_witness:
  "newCNINetworkManager demoNetOs demoNetConfig () = Inr demoNM
   \<and> (case netRun (trackNS demoNetOs) [EnsureNet ''a'', EnsureNet ''b'', ReleaseNet ''a''] (demoNM, (), {}, {}) of
        (nm', w', live, refused) \<Rightarrow> live \<subseteq> GetNetNSPath ` dom (cnm_cniResults nm') \<union> refused)"
  using demoNM_new netns_files_accounted [OF demoNM_new] by (rule conjI)

section \<open>Attaching a VM through the manager\<close>

lemma release_clears:
  assumes "releaseNetworkResourcesCNI os env s = (e, env', s')"
  shows "cnm_cniResults (fst s') (env_ID env) = None"
  using assms by (auto simp: releaseNetworkResourcesCNI_def performCNITeardown_def Let_def split: prod.splits)

lemma ensure_cached:
  assumes "ensureNetworkResourcesCNI os env s = (e, env', s')"
  shows "env_ID env' = env_ID env \<and> (case e of
    Some err \<Rightarrow> cnm_cniResults (fst s') (env_ID env) = None
  | None \<Rightarrow> \<exists>res. cnm_cniResults (fst s') (env_ID env) = Some res \<and> env' = updateEnvironment env res)"
  using assms
  by (auto simp: ensureNetworkResourcesCNI_def setupWork_def updateEnvironment_def Let_def
      split: option.splits prod.splits sum.splits)


end
