(* ===== verification/Net_Inflight.thy ===== *)
theory Net_Inflight
  imports Net_Manager
begin

text \<open>
  The goroutines inside the network manager (\<^verbatim>\<open>internal/host/network/manager_cni.go\<close>). \<open>ensureNetworkResourcesCNI\<close> and
  \<open>releaseNetworkResourcesCNI\<close> share their work among concurrent callers in the same way: a table maps a container to the operation
  in flight, the first caller does the work, the others wait for its channel to be closed.

  A step of the relation is one critical section of one goroutine, or one access to the shared operation. The outcome of the
  plugins is arbitrary here. An address of an operation in flight is a number.
\<close>

section \<open>Operations in flight\<close>

record 'r flight =
  fl_done :: bool
  fl_outcome :: "'r option"

text \<open>
  Where a goroutine is. \<open>WokenEmpty\<close> is a waiter that finds no outcome: in the setup it would dereference nil, in the
  teardown report success. \<open>ClosedTwice\<close> is the panic of closing a closed channel.
\<close>

datatype 'r pc =
    Start
  | Missed
  | Waiting nat
  | Working nat
  | Storing nat 'r
  | Closing nat 'r
  | Deleting nat 'r
  | Returned 'r
  | Cancelled
  | WokenEmpty
  | ClosedTwice

text \<open>One of the two tables, the operations it has known, its callers, and the containers the work was started for.\<close>

record 'r flights =
  ft_table :: "string \<rightharpoonup> nat"
  ft_heap :: "nat \<rightharpoonup> 'r flight"
  ft_gos :: "nat \<rightharpoonup> string \<times> 'r pc"
  ft_work :: "string list"

definition noFlights :: "'r flights" where
  "noFlights = \<lparr>ft_table = Map.empty, ft_heap = Map.empty, ft_gos = Map.empty, ft_work = []\<rparr>"

text \<open>The same for both operations: \<open>fast\<close> is the look into the cache before the table, \<open>store\<close> the worker's change of the cache.\<close>

inductive flightStep ::
  "(string \<Rightarrow> 'c \<Rightarrow> 'r option) \<Rightarrow> (string \<Rightarrow> 'r \<Rightarrow> 'c \<Rightarrow> 'c) \<Rightarrow> 'c \<times> 'r flights \<Rightarrow> 'c \<times> 'r flights \<Rightarrow> bool"
  for fast store where
  call: "ft_gos t g = None \<Longrightarrow> flightStep fast store (c, t) (c, t\<lparr>ft_gos := (ft_gos t)(g \<mapsto> (i, Start))\<rparr>)"
| hit: "ft_gos t g = Some (i, Start) \<Longrightarrow> fast i c = Some r \<Longrightarrow>
    flightStep fast store (c, t) (c, t\<lparr>ft_gos := (ft_gos t)(g \<mapsto> (i, Returned r))\<rparr>)"
| miss: "ft_gos t g = Some (i, Start) \<Longrightarrow> fast i c = None \<Longrightarrow>
    flightStep fast store (c, t) (c, t\<lparr>ft_gos := (ft_gos t)(g \<mapsto> (i, Missed))\<rparr>)"
| join: "ft_gos t g = Some (i, Missed) \<Longrightarrow> ft_table t i = Some f \<Longrightarrow>
    flightStep fast store (c, t) (c, t\<lparr>ft_gos := (ft_gos t)(g \<mapsto> (i, Waiting f))\<rparr>)"
| lead: "ft_gos t g = Some (i, Missed) \<Longrightarrow> ft_table t i = None \<Longrightarrow> ft_heap t f = None \<Longrightarrow>
    flightStep fast store (c, t)
      (c, \<lparr>ft_table = (ft_table t)(i \<mapsto> f), ft_heap = (ft_heap t)(f \<mapsto> \<lparr>fl_done = False, fl_outcome = None\<rparr>),
           ft_gos = (ft_gos t)(g \<mapsto> (i, Working f)), ft_work = ft_work t @ [i]\<rparr>)"
| finish: "ft_gos t g = Some (i, Working f) \<Longrightarrow>
    flightStep fast store (c, t) (c, t\<lparr>ft_gos := (ft_gos t)(g \<mapsto> (i, Storing f r))\<rparr>)"
| store: "ft_gos t g = Some (i, Storing f r) \<Longrightarrow> ft_heap t f = Some fl \<Longrightarrow>
    flightStep fast store (c, t)
      (store i r c, t\<lparr>ft_heap := (ft_heap t)(f \<mapsto> fl\<lparr>fl_outcome := Some r\<rparr>), ft_gos := (ft_gos t)(g \<mapsto> (i, Closing f r))\<rparr>)"
| close: "ft_gos t g = Some (i, Closing f r) \<Longrightarrow> ft_heap t f = Some fl \<Longrightarrow> \<not> fl_done fl \<Longrightarrow>
    flightStep fast store (c, t)
      (c, t\<lparr>ft_heap := (ft_heap t)(f \<mapsto> fl\<lparr>fl_done := True\<rparr>), ft_gos := (ft_gos t)(g \<mapsto> (i, Deleting f r))\<rparr>)"
| closeTwice: "ft_gos t g = Some (i, Closing f r) \<Longrightarrow> ft_heap t f = Some fl \<Longrightarrow> fl_done fl \<Longrightarrow>
    flightStep fast store (c, t) (c, t\<lparr>ft_gos := (ft_gos t)(g \<mapsto> (i, ClosedTwice))\<rparr>)"
| delete: "ft_gos t g = Some (i, Deleting f r) \<Longrightarrow>
    flightStep fast store (c, t)
      (c, t\<lparr>ft_table := (ft_table t)(i := None), ft_gos := (ft_gos t)(g \<mapsto> (i, Returned r))\<rparr>)"
| wake: "ft_gos t g = Some (i, Waiting f) \<Longrightarrow> ft_heap t f = Some fl \<Longrightarrow> fl_done fl \<Longrightarrow>
    flightStep fast store (c, t)
      (c, t\<lparr>ft_gos := (ft_gos t)(g \<mapsto> (i, case fl_outcome fl of Some r \<Rightarrow> Returned r | None \<Rightarrow> WokenEmpty))\<rparr>)"
| cancel: "ft_gos t g = Some (i, Waiting f) \<Longrightarrow>
    flightStep fast store (c, t) (c, t\<lparr>ft_gos := (ft_gos t)(g \<mapsto> (i, Cancelled))\<rparr>)"

section \<open>The manager\<close>

record nmShared =
  ns_cache :: "string \<rightharpoonup> CNIResult"
  ns_setup :: "(goerr + CNIResult) flights"
  ns_teardown :: "CleanupResult flights"

definition ensureFast :: "string \<Rightarrow> (string \<rightharpoonup> CNIResult) \<Rightarrow> (goerr + CNIResult) option" where
  "ensureFast i cache = map_option Inr (cache i)"

definition ensureStore :: "string \<Rightarrow> goerr + CNIResult \<Rightarrow> (string \<rightharpoonup> CNIResult) \<Rightarrow> (string \<rightharpoonup> CNIResult)" where
  "ensureStore i res cache = (case res of Inl err \<Rightarrow> cache | Inr result \<Rightarrow> cache(i \<mapsto> result))"

definition releaseFast :: "string \<Rightarrow> (string \<rightharpoonup> CNIResult) \<Rightarrow> CleanupResult option" where
  "releaseFast i cache = None"

definition releaseStore :: "string \<Rightarrow> CleanupResult \<Rightarrow> (string \<rightharpoonup> CNIResult) \<Rightarrow> (string \<rightharpoonup> CNIResult)" where
  "releaseStore i res cache = cache(i := None)"

inductive nmStep :: "nmShared \<Rightarrow> nmShared \<Rightarrow> bool" where
  ensure: "flightStep ensureFast ensureStore (ns_cache s, ns_setup s) (cache', t') \<Longrightarrow>
    nmStep s (s\<lparr>ns_cache := cache', ns_setup := t'\<rparr>)"
| release: "flightStep releaseFast releaseStore (ns_cache s, ns_teardown s) (cache', t') \<Longrightarrow>
    nmStep s (s\<lparr>ns_cache := cache', ns_teardown := t'\<rparr>)"

definition nmInit :: nmShared where
  "nmInit = \<lparr>ns_cache = Map.empty, ns_setup = noFlights, ns_teardown = noFlights\<rparr>"

abbreviation nmReach :: "nmShared \<Rightarrow> bool" where
  "nmReach \<equiv> nmStep\<^sup>*\<^sup>* nmInit"

section \<open>The invariant of a table\<close>

text \<open>The operation a goroutine is responsible for.\<close>

fun ownedFlight :: "'r pc \<Rightarrow> nat option" where
  "ownedFlight (Working f) = Some f"
| "ownedFlight (Storing f r) = Some f"
| "ownedFlight (Closing f r) = Some f"
| "ownedFlight (Deleting f r) = Some f"
| "ownedFlight _ = None"

text \<open>What a goroutine at a place knows of the operations.\<close>

fun pcOk :: "'r flights \<Rightarrow> string \<Rightarrow> 'r pc \<Rightarrow> bool" where
  "pcOk t i (Working f) \<longleftrightarrow> ft_table t i = Some f \<and> (\<exists>fl. ft_heap t f = Some fl \<and> \<not> fl_done fl)"
| "pcOk t i (Storing f r) \<longleftrightarrow> ft_table t i = Some f \<and> (\<exists>fl. ft_heap t f = Some fl \<and> \<not> fl_done fl)"
| "pcOk t i (Closing f r) \<longleftrightarrow>
     ft_table t i = Some f \<and> (\<exists>fl. ft_heap t f = Some fl \<and> \<not> fl_done fl \<and> fl_outcome fl = Some r)"
| "pcOk t i (Deleting f r) \<longleftrightarrow>
     ft_table t i = Some f \<and> (\<exists>fl. ft_heap t f = Some fl \<and> fl_done fl \<and> fl_outcome fl = Some r)"
| "pcOk t i (Waiting f) \<longleftrightarrow> (\<exists>fl. ft_heap t f = Some fl)"
| "pcOk t i WokenEmpty \<longleftrightarrow> False"
| "pcOk t i ClosedTwice \<longleftrightarrow> False"
| "pcOk t i _ \<longleftrightarrow> True"

definition owner :: "'r flights \<Rightarrow> nat \<Rightarrow> string \<Rightarrow> nat \<Rightarrow> bool" where
  "owner t g i f \<longleftrightarrow> (\<exists>pc. ft_gos t g = Some (i, pc) \<and> ownedFlight pc = Some f)"

definition flightInv :: "'r flights \<Rightarrow> bool" where
  "flightInv t \<longleftrightarrow>
     (\<forall>g i pc. ft_gos t g = Some (i, pc) \<longrightarrow> pcOk t i pc)
   \<and> (\<forall>g h i j f. owner t g i f \<longrightarrow> owner t h j f \<longrightarrow> g = h)
   \<and> (\<forall>i f. ft_table t i = Some f \<longrightarrow> (\<exists>g. owner t g i f))
   \<and> (\<forall>f fl. ft_heap t f = Some fl \<longrightarrow> (if fl_done fl then fl_outcome fl \<noteq> None else (\<exists>g i. owner t g i f)))"

lemma pcOk_gos [simp]: "pcOk (t\<lparr>ft_gos := m\<rparr>) i pc = pcOk t i pc"
  by (cases pc) auto

lemma owner_upd:
  "owner (t\<lparr>ft_gos := (ft_gos t)(g \<mapsto> (i, pc))\<rparr>) h j f \<longleftrightarrow> (if h = g then j = i \<and> ownedFlight pc = Some f else owner t h j f)"
  by (auto simp: owner_def)

lemma flightInvD:
  assumes "flightInv t"
  shows "ft_gos t g = Some (i, pc) \<Longrightarrow> pcOk t i pc"
    and "owner t g i f \<Longrightarrow> owner t h j f \<Longrightarrow> g = h"
    and "ft_table t i = Some f \<Longrightarrow> \<exists>g. owner t g i f"
    and "ft_heap t f = Some fl \<Longrightarrow> fl_done fl \<Longrightarrow> fl_outcome fl \<noteq> None"
    and "ft_heap t f = Some fl \<Longrightarrow> \<not> fl_done fl \<Longrightarrow> \<exists>g i. owner t g i f"
  using assms unfolding flightInv_def by (metis+)

lemma flightInvI:
  assumes "\<And>g i pc. ft_gos t g = Some (i, pc) \<Longrightarrow> pcOk t i pc"
    and "\<And>g h i j f. owner t g i f \<Longrightarrow> owner t h j f \<Longrightarrow> g = h"
    and "\<And>i f. ft_table t i = Some f \<Longrightarrow> \<exists>g. owner t g i f"
    and "\<And>f fl. ft_heap t f = Some fl \<Longrightarrow> if fl_done fl then fl_outcome fl \<noteq> None else (\<exists>g i. owner t g i f)"
  shows "flightInv t"
  using assms unfolding flightInv_def by auto

lemma owner_ok: "flightInv t \<Longrightarrow> owner t g i f \<Longrightarrow> ft_table t i = Some f \<and> ft_heap t f \<noteq> None"
  by (auto simp: owner_def dest!: flightInvD(1) elim!: ownedFlight.elims)

lemma owner_unique: "flightInv t \<Longrightarrow> owner t g i f \<Longrightarrow> owner t h i f' \<Longrightarrow> g = h \<and> f = f'"
  by (metis flightInvD(2) option.inject owner_ok)

text \<open>A step that only moves a goroutine, to a place with the same responsibility.\<close>

lemma flightInv_move:
  assumes inv: "flightInv t" and own: "\<And>f j. owner t g j f \<longleftrightarrow> j = i \<and> ownedFlight pc = Some f" and ok: "pcOk t i pc"
  shows "flightInv (t\<lparr>ft_gos := (ft_gos t)(g \<mapsto> (i, pc))\<rparr>)"
proof -
  have "owner (t\<lparr>ft_gos := (ft_gos t)(g \<mapsto> (i, pc))\<rparr>) h j f = owner t h j f" for h j f
    using own by (simp add: owner_upd)
  moreover have "pcOk t j q" if "((ft_gos t)(g \<mapsto> (i, pc))) h = Some (j, q)" for h j q
    using that ok flightInvD(1) [OF inv, of h j q] by (auto split: if_splits)
  ultimately show ?thesis
    using inv unfolding flightInv_def by simp
qed

lemma flightInv_lead:
  assumes inv: "flightInv t" and g: "ft_gos t g = Some (i, Missed)" and new: "ft_table t i = None" "ft_heap t f = None"
  shows "flightInv \<lparr>ft_table = (ft_table t)(i \<mapsto> f), ft_heap = (ft_heap t)(f \<mapsto> \<lparr>fl_done = False, fl_outcome = None\<rparr>),
     ft_gos = (ft_gos t)(g \<mapsto> (i, Working f)), ft_work = w\<rparr>"
proof -
  let ?t = "\<lparr>ft_table = (ft_table t)(i \<mapsto> f), ft_heap = (ft_heap t)(f \<mapsto> \<lparr>fl_done = False, fl_outcome = None\<rparr>),
     ft_gos = (ft_gos t)(g \<mapsto> (i, Working f)), ft_work = w\<rparr>"
  have own: "owner ?t h j f' \<longleftrightarrow> (if h = g then j = i \<and> f' = f else owner t h j f')" for h j f'
    by (auto simp: owner_def)
  have old: "j \<noteq> i \<and> f' \<noteq> f \<and> h \<noteq> g" if "owner t h j f'" for h j f'
    using owner_ok [OF inv that] that new g by (auto simp: owner_def)
  have ok: "pcOk ?t j pc" if "ft_gos t h = Some (j, pc)" for h j pc
    using flightInvD(1) [OF inv that] new by (cases pc) auto
  show ?thesis
  proof (rule flightInvI)
    show "pcOk ?t j pc" if "ft_gos ?t h = Some (j, pc)" for h j pc
      using that ok by (auto split: if_splits)
    show "h = h'" if "owner ?t h j f'" "owner ?t h' j' f'" for h h' j j' f'
      using that old flightInvD(2) [OF inv] by (auto simp: own split: if_splits)
    show "\<exists>h. owner ?t h j f'" if "ft_table ?t j = Some f'" for j f'
      using that old flightInvD(3) [OF inv, of j f'] by (auto simp: own split: if_splits)
    show "if fl_done fl then fl_outcome fl \<noteq> None else (\<exists>h j. owner ?t h j f')" if "ft_heap ?t f' = Some fl" for f' fl
      using that old flightInvD(4,5) [OF inv, of f' fl] by (auto simp: own split: if_splits)
  qed
qed

text \<open>The worker changes its operation, which it alone is responsible for.\<close>

lemma flightInv_work:
  assumes inv: "flightInv t" and g: "ft_gos t g = Some (i, pc)" "ownedFlight pc = Some f" "ownedFlight pc' = Some f"
    and fl: "fl_done fl \<longrightarrow> fl_outcome fl \<noteq> None" and ok: "pcOk (t\<lparr>ft_heap := (ft_heap t)(f \<mapsto> fl)\<rparr>) i pc'"
  shows "flightInv (t\<lparr>ft_heap := (ft_heap t)(f \<mapsto> fl), ft_gos := (ft_gos t)(g \<mapsto> (i, pc'))\<rparr>)"
proof -
  let ?t = "t\<lparr>ft_heap := (ft_heap t)(f \<mapsto> fl), ft_gos := (ft_gos t)(g \<mapsto> (i, pc'))\<rparr>"
  have own: "owner ?t h j f' = owner t h j f'" for h j f'
    using g by (auto simp: owner_def)
  have og: "owner t g i f"
    using g by (simp add: owner_def)
  have ok': "pcOk ?t j q" if "ft_gos t h = Some (j, q)" "h \<noteq> g" for h j q
  proof -
    have "ownedFlight q \<noteq> Some f"
      using that og flightInvD(2) [OF inv, of h j f g i] by (auto simp: owner_def)
    then show ?thesis
      using flightInvD(1) [OF inv that(1)] by (cases q) auto
  qed
  show ?thesis
  proof (rule flightInvI)
    show "pcOk ?t j q" if "ft_gos ?t h = Some (j, q)" for h j q
      using that ok ok' by (cases "h = g") (cases pc', auto)
    show "h = h'" if "owner ?t h j f'" "owner ?t h' j' f'" for h h' j j' f'
      using that flightInvD(2) [OF inv] by (simp add: own)
    show "\<exists>h. owner ?t h j f'" if "ft_table ?t j = Some f'" for j f'
      using that flightInvD(3) [OF inv, of j f'] by (simp add: own)
    show "if fl_done x then fl_outcome x \<noteq> None else (\<exists>h j. owner ?t h j f')" if "ft_heap ?t f' = Some x" for f' x
      using that og fl flightInvD(4,5) [OF inv, of f' x] by (auto simp: own split: if_splits)
  qed
qed

lemma flightInv_delete:
  assumes inv: "flightInv t" and g: "ft_gos t g = Some (i, Deleting f r)"
  shows "flightInv (t\<lparr>ft_table := (ft_table t)(i := None), ft_gos := (ft_gos t)(g \<mapsto> (i, Returned r))\<rparr>)"
proof -
  let ?t = "t\<lparr>ft_table := (ft_table t)(i := None), ft_gos := (ft_gos t)(g \<mapsto> (i, Returned r))\<rparr>"
  have own: "owner ?t h j f' \<longleftrightarrow> h \<noteq> g \<and> owner t h j f'" for h j f'
    by (auto simp: owner_def)
  have og: "owner t g i f" and gf: "\<exists>fl. ft_heap t f = Some fl \<and> fl_done fl"
    using g flightInvD(1) [OF inv g] by (auto simp: owner_def)
  have keep: "owner ?t h j f'" if "owner t h j f'" "j \<noteq> i \<or> f' \<noteq> f" for h j f'
    using that g by (auto simp: owner_def)
  have ok: "pcOk ?t j q" if "ft_gos t h = Some (j, q)" "h \<noteq> g" for h j q
  proof -
    have "j \<noteq> i" if "ownedFlight q = Some f'" for f'
      using that \<open>ft_gos t h = Some (j, q)\<close> \<open>h \<noteq> g\<close> owner_unique [OF inv og, of h f'] by (auto simp: owner_def)
    then show ?thesis
      using flightInvD(1) [OF inv that(1)] by (cases q) auto
  qed
  show ?thesis
  proof (rule flightInvI)
    show "pcOk ?t j q" if "ft_gos ?t h = Some (j, q)" for h j q
      using that ok by (cases "h = g") auto
    show "h = h'" if "owner ?t h j f'" "owner ?t h' j' f'" for h h' j j' f'
      using that flightInvD(2) [OF inv, of h j f' h' j'] by (simp add: own)
    show "\<exists>h. owner ?t h j f'" if "ft_table ?t j = Some f'" for j f'
      using that flightInvD(3) [OF inv, of j f'] keep [of _ j f'] by (auto split: if_splits)
    show "if fl_done x then fl_outcome x \<noteq> None else (\<exists>h j. owner ?t h j f')" if "ft_heap ?t f' = Some x" for f' x
      using that gf keep [of _ _ f'] flightInvD(4,5) [OF inv, of f' x] by (cases "f' = f") fastforce+
  qed
qed

lemma flightInv_step:
  assumes "flightStep fast store (c, t) (c', t')" "flightInv t"
  shows "flightInv t'"
  using assms(1)
proof cases
  case (lead g i f)
  then show ?thesis
    using flightInv_lead [OF assms(2)] by simp
next
  case (store g i f r fl)
  then show ?thesis
    using flightInvD(1) [OF assms(2) store(3)] by (auto intro!: flightInv_work [OF assms(2)])
next
  case (close g i f r fl)
  then show ?thesis
    using flightInvD(1) [OF assms(2) close(3)] by (auto intro!: flightInv_work [OF assms(2)])
next
  case (closeTwice g i f r fl)
  then show ?thesis
    using flightInvD(1) [OF assms(2) closeTwice(3)] by auto
next
  case (delete g i f r)
  then show ?thesis
    using flightInv_delete [OF assms(2)] by simp
next
  case (wake g i f fl)
  then show ?thesis
    using flightInvD(4) [OF assms(2) wake(4)]
    by (auto simp: owner_def intro!: flightInv_move [OF assms(2)])
next
  case (join g i f)
  then have "ft_heap t f \<noteq> None"
    using flightInvD(3) [OF assms(2)] owner_ok [OF assms(2)] by blast
  then show ?thesis
    using join by (auto simp: owner_def intro!: flightInv_move [OF assms(2)])
next
  case (finish g i f r)
  then show ?thesis
    using flightInvD(1) [OF assms(2) finish(3)] by (auto simp: owner_def intro!: flightInv_move [OF assms(2)])
qed (auto simp: owner_def intro!: flightInv_move [OF assms(2)])

lemma flightInv_init: "flightInv noFlights"
  by (simp add: flightInv_def noFlights_def owner_def)

lemma nmReach_inv: "nmReach s \<Longrightarrow> flightInv (ns_setup s) \<and> flightInv (ns_teardown s)"
proof (induction rule: rtranclp_induct)
  case base
  then show ?case
    by (simp add: nmInit_def flightInv_init)
next
  case (step s s')
  from step.hyps(2) show ?case
    by cases (use step.IH in \<open>auto dest: flightInv_step\<close>)
qed

section \<open>What concurrent callers can rely on\<close>

text \<open>What a goroutine of the setup can be sure of.\<close>

definition waiterOk :: "'r flights \<Rightarrow> nat \<Rightarrow> bool" where
  "waiterOk t g =
     (case ft_gos t g of
        Some (i, WokenEmpty) \<Rightarrow> False
      | Some (i, ClosedTwice) \<Rightarrow> False
      | Some (i, Waiting f) \<Rightarrow> (\<exists>fl. ft_heap t f = Some fl
          \<and> (if fl_done fl then fl_outcome fl \<noteq> None else (\<exists>h j. h \<noteq> g \<and> owner t h j f)))
      | _ \<Rightarrow> True)"

lemma flightInv_waiters:
  assumes inv: "flightInv t"
  shows "waiterOk t g"
proof (cases "ft_gos t g")
  case (Some x)
  obtain i pc where x: "x = (i, pc)"
    by (cases x)
  have ok: "pcOk t i pc"
    using flightInvD(1) [OF inv] Some x by simp
  show ?thesis
  proof (cases pc)
    case (Waiting f)
    then obtain fl where fl: "ft_heap t f = Some fl"
      using ok by auto
    have "h \<noteq> g" if "owner t h j f" for h j
      using that Some x Waiting by (auto simp: owner_def)
    then show ?thesis
      using fl flightInvD(4,5) [OF inv fl] Some x Waiting by (auto simp: waiterOk_def)
  qed (use ok Some x in \<open>auto simp: waiterOk_def\<close>)
qed (simp add: waiterOk_def)

text \<open>
  C5. The work on a container is never shared out twice at the same time, and no waiter is forgotten. In every state the
  goroutines can reach, whatever the interleaving and the outcomes of the plugins, at most one goroutine is setting up the network of
  a container and at most one is tearing it down. No goroutine has been woken without an outcome or has closed a
  channel twice; one that still waits, waits for an operation whose channel is closed already, with an outcome, or that
  another goroutine is responsible for and will close.
\<close>

theorem cni_single_flight:
  assumes "nmReach s"
  shows "(owner (ns_setup s) g i f \<longrightarrow> owner (ns_setup s) g' i f' \<longrightarrow> g = g')
    \<and> (owner (ns_teardown s) h i f \<longrightarrow> owner (ns_teardown s) h' i f' \<longrightarrow> h = h')
    \<and> waiterOk (ns_setup s) g \<and> waiterOk (ns_teardown s) h"
  using nmReach_inv [OF assms] by (auto dest: owner_unique intro: flightInv_waiters)

section \<open>Runs\<close>

lemma ensure_steps:
  assumes "(flightStep ensureFast ensureStore)\<^sup>*\<^sup>* (ns_cache s, ns_setup s) (cache', t')"
  shows "nmStep\<^sup>*\<^sup>* s (s\<lparr>ns_cache := cache', ns_setup := t'\<rparr>)"
  using assms
proof (induction rule: rtranclp_induct2)
  case (step c t c' t')
  have "nmStep (s\<lparr>ns_cache := c, ns_setup := t\<rparr>) (s\<lparr>ns_cache := c', ns_setup := t'\<rparr>)"
    using nmStep.ensure [of "s\<lparr>ns_cache := c, ns_setup := t\<rparr>" c' t'] step.hyps(2) by simp
  with step.IH show ?case
    by (rule rtranclp.rtrancl_into_rtrancl)
qed simp

text \<open>A caller that does not find its container in the cache.\<close>

lemma enter_run:
  assumes "ft_gos t g = None" "fast i c = None"
  shows "(flightStep fast store)\<^sup>*\<^sup>* (c, t) (c, t\<lparr>ft_gos := (ft_gos t)(g \<mapsto> (i, Missed))\<rparr>)"
proof -
  have "flightStep fast store (c, t) (c, t\<lparr>ft_gos := (ft_gos t)(g \<mapsto> (i, Start))\<rparr>)"
    using assms(1) by (rule flightStep.call)
  moreover have "flightStep fast store (c, t\<lparr>ft_gos := (ft_gos t)(g \<mapsto> (i, Start))\<rparr>)
      (c, t\<lparr>ft_gos := (ft_gos t)(g \<mapsto> (i, Missed))\<rparr>)"
    using flightStep.miss [of "t\<lparr>ft_gos := (ft_gos t)(g \<mapsto> (i, Start))\<rparr>" g i fast c store] assms(2) by simp
  ultimately show ?thesis
    by (meson converse_rtranclp_into_rtranclp rtranclp.rtrancl_refl)
qed

text \<open>A worker that nobody interrupts, from the table to its return.\<close>

lemma worker_run:
  assumes g: "ft_gos t g = Some (i, Missed)" and new: "ft_table t i = None" "ft_heap t f = None"
  shows "(flightStep fast store)\<^sup>*\<^sup>* (c, t)
    (store i r c, \<lparr>ft_table = ft_table t, ft_heap = (ft_heap t)(f \<mapsto> \<lparr>fl_done = True, fl_outcome = Some r\<rparr>),
       ft_gos = (ft_gos t)(g \<mapsto> (i, Returned r)), ft_work = ft_work t @ [i]\<rparr>)"
proof -
  let ?at = "\<lambda>fl pc. \<lparr>ft_table = (ft_table t)(i \<mapsto> f), ft_heap = (ft_heap t)(f \<mapsto> fl),
     ft_gos = (ft_gos t)(g \<mapsto> (i, pc)), ft_work = ft_work t @ [i]\<rparr>"
  have "flightStep fast store (c, t) (c, ?at \<lparr>fl_done = False, fl_outcome = None\<rparr> (Working f))"
    using assms by (rule flightStep.lead)
  moreover have "flightStep fast store (c, ?at \<lparr>fl_done = False, fl_outcome = None\<rparr> (Working f))
      (c, ?at \<lparr>fl_done = False, fl_outcome = None\<rparr> (Storing f r))"
    using flightStep.finish [of "?at \<lparr>fl_done = False, fl_outcome = None\<rparr> (Working f)" g i f fast store c r] by simp
  moreover have "flightStep fast store (c, ?at \<lparr>fl_done = False, fl_outcome = None\<rparr> (Storing f r))
      (store i r c, ?at \<lparr>fl_done = False, fl_outcome = Some r\<rparr> (Closing f r))"
    using flightStep.store [of "?at \<lparr>fl_done = False, fl_outcome = None\<rparr> (Storing f r)" g i f r _ fast store c] by simp
  moreover have "flightStep fast store (store i r c, ?at \<lparr>fl_done = False, fl_outcome = Some r\<rparr> (Closing f r))
      (store i r c, ?at \<lparr>fl_done = True, fl_outcome = Some r\<rparr> (Deleting f r))"
    using flightStep.close [of "?at \<lparr>fl_done = False, fl_outcome = Some r\<rparr> (Closing f r)" g i f r _ fast store "store i r c"]
    by simp
  moreover have "flightStep fast store (store i r c, ?at \<lparr>fl_done = True, fl_outcome = Some r\<rparr> (Deleting f r))
    (store i r c, \<lparr>ft_table = ft_table t, ft_heap = (ft_heap t)(f \<mapsto> \<lparr>fl_done = True, fl_outcome = Some r\<rparr>),
       ft_gos = (ft_gos t)(g \<mapsto> (i, Returned r)), ft_work = ft_work t @ [i]\<rparr>)"
    using flightStep.delete [of "?at \<lparr>fl_done = True, fl_outcome = Some r\<rparr> (Deleting f r)" g i f r fast store "store i r c"]
      fun_upd_triv [of "ft_table t" i] new(1) by simp
  ultimately show ?thesis
    by (meson converse_rtranclp_into_rtranclp rtranclp.rtrancl_refl)
qed

text \<open>
  C40. The promise that only one of several concurrent callers performs the setup is not kept. The cache and the table
  are looked at under different locks: for every container and every outcome there is a run of two callers, without any
  release, in which the first has completed the setup and stored its result, and the second, which had looked into the cache before that,
  finds the table empty and starts the setup of the same container again.
\<close>

theorem cni_setup_runs_twice:
  "\<exists>s. nmReach s \<and> ns_teardown s = noFlights \<and> ft_gos (ns_setup s) 0 = Some (i, Returned (Inr r))
     \<and> ns_cache s i = Some r \<and> ft_work (ns_setup s) = [i, i] \<and> (\<exists>f. ft_gos (ns_setup s) 1 = Some (i, Working f))"
proof -
  let ?step = "flightStep ensureFast ensureStore"
  let ?fl = "\<lparr>fl_done = True, fl_outcome = Some (Inr r)\<rparr> :: (goerr + CNIResult) flight"
  let ?t0 = "noFlights\<lparr>ft_gos := [0 \<mapsto> (i, Missed)]\<rparr> :: (goerr + CNIResult) flights"
  let ?t1 = "noFlights\<lparr>ft_gos := [0 \<mapsto> (i, Missed), 1 \<mapsto> (i, Missed)]\<rparr> :: (goerr + CNIResult) flights"
  let ?t2 = "\<lparr>ft_table = Map.empty, ft_heap = [0 \<mapsto> ?fl], ft_gos = [0 \<mapsto> (i, Returned (Inr r)), 1 \<mapsto> (i, Missed)],
     ft_work = [i]\<rparr>"
  let ?t3 = "\<lparr>ft_table = [i \<mapsto> 1], ft_heap = [0 \<mapsto> ?fl, 1 \<mapsto> \<lparr>fl_done = False, fl_outcome = None\<rparr>],
     ft_gos = [0 \<mapsto> (i, Returned (Inr r)), 1 \<mapsto> (i, Working 1)], ft_work = [i, i]\<rparr>"
  have "?step\<^sup>*\<^sup>* (Map.empty, noFlights) (Map.empty, ?t0)"
    using enter_run [of noFlights 0 ensureFast i Map.empty ensureStore] by (simp add: noFlights_def ensureFast_def)
  also have "?step\<^sup>*\<^sup>* (Map.empty, ?t0) (Map.empty, ?t1)"
    using enter_run [of ?t0 1 ensureFast i Map.empty ensureStore] by (simp add: noFlights_def ensureFast_def)
  also have "?step\<^sup>*\<^sup>* (Map.empty, ?t1) ([i \<mapsto> r], ?t2)"
    using worker_run [of ?t1 0 i 0 ensureFast ensureStore Map.empty "Inr r"]
    by (simp add: noFlights_def ensureStore_def fun_upd_twist)
  also have "?step ([i \<mapsto> r], ?t2) ([i \<mapsto> r], ?t3)"
    using flightStep.lead [of ?t2 1 i 1 ensureFast ensureStore "[i \<mapsto> r]"] by (simp add: fun_upd_twist)
  finally have "nmReach (nmInit\<lparr>ns_cache := [i \<mapsto> r], ns_setup := ?t3\<rparr>)"
    by (intro ensure_steps) (simp add: nmInit_def)
  then show ?thesis
    by (intro exI [of _ "nmInit\<lparr>ns_cache := [i \<mapsto> r], ns_setup := ?t3\<rparr>"] conjI) (simp_all add: nmInit_def)
qed

text \<open>A reachable state with a worker and a waiter.\<close>

definition workerAndWaiter :: "string \<Rightarrow> nmShared" where
  "workerAndWaiter i = \<lparr>ns_cache = Map.empty,
     ns_setup = \<lparr>ft_table = [i \<mapsto> 0], ft_heap = [0 \<mapsto> \<lparr>fl_done = False, fl_outcome = None\<rparr>],
                 ft_gos = [0 \<mapsto> (i, Working 0), 1 \<mapsto> (i, Waiting 0)], ft_work = [i]\<rparr>,
     ns_teardown = noFlights\<rparr>"

lemma workerAndWaiter_reach: "nmReach (workerAndWaiter i)"
proof -
  let ?step = "flightStep ensureFast ensureStore"
  let ?t0 = "noFlights\<lparr>ft_gos := [0 \<mapsto> (i, Missed)]\<rparr> :: (goerr + CNIResult) flights"
  let ?t1 = "noFlights\<lparr>ft_gos := [0 \<mapsto> (i, Missed), 1 \<mapsto> (i, Missed)]\<rparr> :: (goerr + CNIResult) flights"
  let ?t2 = "(ns_setup (workerAndWaiter i))\<lparr>ft_gos := [0 \<mapsto> (i, Working 0), 1 \<mapsto> (i, Missed)]\<rparr>"
  have "?step\<^sup>*\<^sup>* (Map.empty, noFlights) (Map.empty, ?t0)"
    using enter_run [of noFlights 0 ensureFast i Map.empty ensureStore] by (simp add: noFlights_def ensureFast_def)
  also have "?step\<^sup>*\<^sup>* (Map.empty, ?t0) (Map.empty, ?t1)"
    using enter_run [of ?t0 1 ensureFast i Map.empty ensureStore] by (simp add: noFlights_def ensureFast_def)
  also have "?step (Map.empty, ?t1) (Map.empty, ?t2)"
    using flightStep.lead [of ?t1 0 i 0 ensureFast ensureStore Map.empty]
    by (simp add: noFlights_def workerAndWaiter_def fun_upd_twist)
  also have "?step (Map.empty, ?t2) (Map.empty, ns_setup (workerAndWaiter i))"
    using flightStep.join [of ?t2 1 i 0 ensureFast ensureStore Map.empty]
    by (simp add: noFlights_def workerAndWaiter_def)
  finally have "nmReach (nmInit\<lparr>ns_cache := Map.empty, ns_setup := ns_setup (workerAndWaiter i)\<rparr>)"
    by (intro ensure_steps) (simp add: nmInit_def)
  then show ?thesis
    by (simp add: nmInit_def workerAndWaiter_def)
qed

abbreviation demoShared :: nmShared where
  "demoShared \<equiv> workerAndWaiter ''a''"

lemmas demoShared_reach = workerAndWaiter_reach [of "''a''"]

theorem cni_single_flight_witness:
  "nmReach demoShared \<and> owner (ns_setup demoShared) 0 ''a'' 0 \<and> \<not> owner (ns_setup demoShared) 1 ''a'' 0
   \<and> waiterOk (ns_setup demoShared) 1"
proof -
  have "owner (ns_setup demoShared) 0 ''a'' 0"
    by (simp add: workerAndWaiter_def owner_def)
  then show ?thesis
    using demoShared_reach cni_single_flight [OF demoShared_reach, of 0 "''a''" 0 1 0]
      cni_single_flight [OF demoShared_reach, of 1 "''a''" 0 0 0] by auto
qed

text \<open>The sequential operation of \<open>Net_Manager\<close> is the run of a caller that is alone.\<close>

theorem ensure_alone_is_a_run:
  assumes e: "ensureNetworkResourcesCNI os env (nm, w) = (e, env', nm', w')"
    and s: "ns_cache s = cnm_cniResults nm" "ft_table (ns_setup s) (env_ID env) = None"
      "ft_gos (ns_setup s) g = None" "ft_heap (ns_setup s) f = None"
  shows "\<exists>s' r. nmStep\<^sup>*\<^sup>* s s' \<and> ns_cache s' = cnm_cniResults nm'
    \<and> ft_gos (ns_setup s') g = Some (env_ID env, Returned r)
    \<and> (case r of Inl err \<Rightarrow> e = Some err \<and> env' = env | Inr res \<Rightarrow> e = None \<and> env' = updateEnvironment env res)"
proof (cases "cnm_cniResults nm (env_ID env)")
  case (Some res)
  let ?i = "env_ID env" and ?t = "ns_setup s"
  let ?t1 = "?t\<lparr>ft_gos := (ft_gos ?t)(g \<mapsto> (?i, Start))\<rparr>" and ?t2 = "?t\<lparr>ft_gos := (ft_gos ?t)(g \<mapsto> (?i, Returned (Inr res)))\<rparr>"
  have "flightStep ensureFast ensureStore (ns_cache s, ?t) (ns_cache s, ?t1)"
    using s(3) by (rule flightStep.call)
  moreover have "flightStep ensureFast ensureStore (ns_cache s, ?t1) (ns_cache s, ?t2)"
    using flightStep.hit [of ?t1 g ?i ensureFast "ns_cache s" "Inr res" ensureStore] Some s(1) by (simp add: ensureFast_def)
  ultimately have "nmStep\<^sup>*\<^sup>* s (s\<lparr>ns_cache := ns_cache s, ns_setup := ?t2\<rparr>)"
    by (intro ensure_steps) (meson converse_rtranclp_into_rtranclp rtranclp.rtrancl_refl)
  then show ?thesis
    using Some e s(1)
    by (intro exI [of _ "s\<lparr>ns_cache := ns_cache s, ns_setup := ?t2\<rparr>"] exI [of _ "Inr res"] conjI)
      (auto simp: ensureNetworkResourcesCNI_def)
next
  case None
  let ?i = "env_ID env" and ?t = "ns_setup s"
  obtain r nm1 w1 where w: "setupWork os ?i (nm, w) = (r, nm1, w1)"
    by (metis prod_cases3)
  have c: "cnm_cniResults nm1 = ensureStore ?i r (cnm_cniResults nm)"
    using w by (auto simp: setupWork_def ensureStore_def Let_def split: prod.splits sum.splits)
  have "(flightStep ensureFast ensureStore)\<^sup>*\<^sup>* (ns_cache s, ?t) (ns_cache s, ?t\<lparr>ft_gos := (ft_gos ?t)(g \<mapsto> (?i, Missed))\<rparr>)"
    using s(1,3) None by (intro enter_run) (simp_all add: ensureFast_def)
  then have run: "nmStep\<^sup>*\<^sup>* s (s\<lparr>ns_cache := ensureStore ?i r (ns_cache s), ns_setup :=
      \<lparr>ft_table = ft_table ?t, ft_heap = (ft_heap ?t)(f \<mapsto> \<lparr>fl_done = True, fl_outcome = Some r\<rparr>),
       ft_gos = (ft_gos ?t)(g \<mapsto> (?i, Returned r)), ft_work = ft_work ?t @ [?i]\<rparr>\<rparr>)"
    using worker_run [of "?t\<lparr>ft_gos := (ft_gos ?t)(g \<mapsto> (?i, Missed))\<rparr>" g ?i f ensureFast ensureStore "ns_cache s" r] s(2,4)
    by (intro ensure_steps) simp
  show ?thesis
    using e None w c s(1)
    by - (rule exI, rule exI [of _ r], intro conjI, rule run, auto simp: ensureNetworkResourcesCNI_def split: sum.splits)
qed

end
