(* ===== verification/Guest_Process.thy ===== *)
theory Guest_Process
  imports Contracts Go_Filepath
begin

text \<open>
  \<^verbatim>\<open>internal/guest/vminit/process\<close>: the init process of a container and its exec
  processes inside the VM (\<^verbatim>\<open>state.go\<close>, \<^verbatim>\<open>init.go\<close>, \<^verbatim>\<open>exec.go\<close> and the
  helpers of \<^verbatim>\<open>utils.go\<close>).

  The OCI runtime (\<^verbatim>\<open>go-runc\<close>), the console platform, the process I/O copier and the
  kernel are the functions of a record \<open>guest_os\<close> over an arbitrary world \<open>'w\<close>; the
  processes' own fields are the records \<open>Init\<close> and \<open>execProcess\<close>. Every method that takes
  the process mutex holds it for its whole body, so methods are atomic steps. Log calls
  are left out. Closing the channel a process is waited on is modelled with its panic.
\<close>

section \<open>The environment\<close>

record Stdio =
  std_Stdin :: string
  std_Stdout :: string
  std_Stderr :: string
  std_Terminal :: bool

text \<open>
  \<open>os_readLog\<close> gives the error of opening the runtime's log file, or its JSON entries
  (level and message, absent fields as \<open>None\<close>) and the decoding error that ended them
  (\<open>None\<close> for the end of the file).
\<close>

record 'w guest_os =
  rc_Create :: "string \<Rightarrow> string \<Rightarrow> 'w \<Rightarrow> goerr option \<times> 'w"
  rc_Start :: "string \<Rightarrow> 'w \<Rightarrow> goerr option \<times> 'w"
  rc_Delete :: "string \<Rightarrow> bool \<Rightarrow> 'w \<Rightarrow> goerr option \<times> 'w"
  rc_Kill :: "string \<Rightarrow> nat \<Rightarrow> bool \<Rightarrow> 'w \<Rightarrow> goerr option \<times> 'w"
  rc_Exec :: "string \<Rightarrow> string \<Rightarrow> 'w \<Rightarrow> goerr option \<times> 'w"
  rc_Update :: "string \<Rightarrow> string \<Rightarrow> 'w \<Rightarrow> goerr option \<times> 'w"
  os_Log :: string
  os_readLog :: "'w \<Rightarrow> goerr + (string option \<times> string option) list \<times> goerr option"
  os_NewTempConsoleSocket :: "'w \<Rightarrow> goerr option \<times> 'w"
  os_closeSocket :: "'w \<Rightarrow> 'w"
  os_createIO :: "string \<Rightarrow> Stdio \<Rightarrow> 'w \<Rightarrow> goerr option \<times> 'w"
  os_closeIO :: "'w \<Rightarrow> 'w"
  os_closeCloser :: "'w \<Rightarrow> 'w"
  os_copyIO :: "'w \<Rightarrow> (goerr + bool) \<times> 'w"
  os_ReceiveMaster :: "'w \<Rightarrow> (goerr + bool) \<times> 'w"
  os_CopyConsole :: "string \<Rightarrow> 'w \<Rightarrow> (goerr + bool) \<times> 'w"
  os_ShutdownConsole :: "'w \<Rightarrow> 'w"
  os_resizeConsole :: "nat \<Rightarrow> nat \<Rightarrow> 'w \<Rightarrow> goerr option \<times> 'w"
  os_ReadPidFile :: "string \<Rightarrow> 'w \<Rightarrow> goerr + int"
  os_remove :: "string \<Rightarrow> 'w \<Rightarrow> 'w"
  os_waitTimeout :: "duration \<Rightarrow> 'w \<Rightarrow> 'w"
  os_untilDeadline :: "'w \<Rightarrow> duration option"
  os_UnmountRecursive :: "string \<Rightarrow> 'w \<Rightarrow> goerr option \<times> 'w"
  os_kill :: "int \<Rightarrow> nat \<Rightarrow> 'w \<Rightarrow> goerr option \<times> 'w"
  os_now :: "'w \<Rightarrow> go_time"
  os_unmarshal :: "string \<Rightarrow> goerr option"

section \<open>Process states\<close>

datatype PState = PCreated | PRunning | PStopped | PDeleted | POther nat

fun PState_String :: "PState \<Rightarrow> string" where
  "PState_String PCreated = ''created''"
| "PState_String PRunning = ''running''"
| "PState_String PStopped = ''stopped''"
| "PState_String PDeleted = ''deleted''"
| "PState_String (POther n) = ''unknown('' @ natStr n @ '')''"

fun validTransitions :: "PState \<Rightarrow> PState list" where
  "validTransitions PCreated = [PRunning, PStopped, PDeleted]"
| "validTransitions PRunning = [PStopped]"
| "validTransitions PStopped = [PDeleted]"
| "validTransitions PDeleted = []"
| "validTransitions (POther n) = []"

definition canTransition :: "PState \<Rightarrow> PState \<Rightarrow> bool" where
  "canTransition f t = list_ex (\<lambda>valid. valid = t) (validTransitions f)"

definition p_transition :: "PState \<Rightarrow> PState \<Rightarrow> goerr option \<times> PState" where
  "p_transition current to =
     (if \<not> canTransition current to
      then (Some (Errorf (''invalid state transition '' @ PState_String current
                          @ '' to '' @ PState_String to)), current)
      else (None, to))"

section \<open>Errors of the runtime\<close>

text \<open>The decoder fills the same variable for every entry, so absent fields keep their
  previous value.\<close>

fun lastErrorLoop ::
  "(string option \<times> string option) list \<Rightarrow> string \<times> string \<Rightarrow> string \<Rightarrow> string" where
  "lastErrorLoop [] (lvl, m) acc = (if lvl = ''error'' then trimSpace m else acc)"
| "lastErrorLoop ((l, g) # es) (lvl, m) acc =
     (let lvl' = (case l of None \<Rightarrow> lvl | Some x \<Rightarrow> x);
          m' = (case g of None \<Rightarrow> m | Some x \<Rightarrow> x)
      in lastErrorLoop es (lvl', m') (if lvl' = ''error'' then trimSpace m' else acc))"

definition getLastRuntimeError :: "'w guest_os \<Rightarrow> 'w \<Rightarrow> goerr + string" where
  "getLastRuntimeError os w =
     (if os_Log os = '''' then Inr ''''
      else (case os_readLog os w of
              Inl e \<Rightarrow> Inl e
            | Inr (entries, None) \<Rightarrow> Inr (lastErrorLoop entries ('''', '''') '''')
            | Inr (entries, Some e) \<Rightarrow> Inl e))"

definition runtimeError :: "'w guest_os \<Rightarrow> 'w \<Rightarrow> goerr option \<Rightarrow> string \<Rightarrow> goerr option" where
  "runtimeError os w rErr msg =
     (case rErr of
        None \<Rightarrow> None
      | Some e \<Rightarrow>
          (case getLastRuntimeError os w of
             Inl err \<Rightarrow> Some (WrapErr (msg @ '': unable to retrieve OCI runtime error ('' @ errMsg err @ '')'') e)
           | Inr rMsg \<Rightarrow>
               if rMsg = '''' then Some (WrapErr msg e)
               else Some (Errorf (msg @ '': '' @ rMsg))))"

abbreviation ESRCH :: goerr where
  "ESRCH \<equiv> Errno ''no such process''"

definition checkKillError :: "goerr option \<Rightarrow> goerr option" where
  "checkKillError err =
     (case err of
        None \<Rightarrow> None
      | Some e \<Rightarrow>
          if strContains (errMsg e) ''os: process already finished''
             \<or> strContains (errMsg e) ''container not running''
             \<or> strContains (toLower (errMsg e)) ''no such process''
             \<or> errIs e ESRCH
          then Some (WrapErr ''process already finished'' ErrNotFound)
          else if strContains (errMsg e) ''does not exist''
          then Some (WrapErr ''no such container'' ErrNotFound)
          else Some (WrapErr ''unknown error after kill'' e))"

section \<open>The init process\<close>

record Init =
  in_initState :: PState
  in_waitBlock :: gochan
  in_id :: string
  in_Bundle :: string
  in_console :: bool
  in_Platform :: bool
  in_io :: bool
  in_runtime :: bool
  in_status :: int
  in_exited :: go_time
  in_pid :: int
  in_closers :: nat
  in_stdin :: bool
  in_stdio :: Stdio
  in_Rootfs :: string

definition New :: "string \<Rightarrow> bool \<Rightarrow> Stdio \<Rightarrow> Init" where
  "New id' runtime stdio =
     \<lparr>in_initState = PCreated, in_waitBlock = ChanOpen, in_id = id', in_Bundle = '''',
      in_console = False, in_Platform = False, in_io = False, in_runtime = runtime,
      in_status = 0, in_exited = 0, in_pid = 0, in_closers = 0, in_stdin = False,
      in_stdio = stdio, in_Rootfs = ''''\<rparr>"

definition errNoRuntime :: goerr where
  "errNoRuntime = Sentinel ''runtime not initialized''"

definition init_start :: "'w guest_os \<Rightarrow> Init \<Rightarrow> 'w \<Rightarrow> goerr option \<times> 'w" where
  "init_start os p w =
     (if \<not> in_runtime p then (Some errNoRuntime, w)
      else (let (err, w1) = rc_Start os (in_id p) w
            in (runtimeError os w1 err ''OCI runtime start failed'', w1)))"

text \<open>\<open>setExited\<close> panics when the channel is closed already.\<close>

definition init_setExited :: "'w guest_os \<Rightarrow> int \<Rightarrow> Init \<Rightarrow> 'w \<Rightarrow> (Init \<times> 'w) go" where
  "init_setExited os status p w =
     (let p1 = p\<lparr>in_exited := os_now os w, in_status := status\<rparr>;
          w1 = (if in_Platform p then os_ShutdownConsole os w else w)
      in if in_waitBlock p1 \<noteq> ChanNil
         then bindGo (closeChan (in_waitBlock p1)) (\<lambda>c. Ret (p1\<lparr>in_waitBlock := c\<rparr>, w1))
         else Ret (p1, w1))"

fun closeClosers :: "'w guest_os \<Rightarrow> nat \<Rightarrow> 'w \<Rightarrow> 'w" where
  "closeClosers os 0 w = w"
| "closeClosers os (Suc n) w = closeClosers os n (os_closeCloser os w)"

definition init_delete :: "'w guest_os \<Rightarrow> Init \<Rightarrow> 'w \<Rightarrow> goerr option \<times> 'w" where
  "init_delete os p w =
     (let timeout = (case os_untilDeadline os w of
                       Some remaining \<Rightarrow>
                         if remaining > 0 \<and> remaining < 2 * Second then remaining else 2 * Second
                     | None \<Rightarrow> 2 * Second);
          w1 = os_waitTimeout os timeout w
      in if \<not> in_runtime p then (Some errNoRuntime, w1)
         else
           (let (derr, w2) = rc_Delete os (in_id p) False w1;
                err = (case derr of
                         None \<Rightarrow> None
                       | Some e \<Rightarrow>
                           if strContains (errMsg e) ''does not exist'' then None
                           else runtimeError os w2 (Some e) ''failed to delete task'');
                w3 = (if in_io p then os_closeIO os (closeClosers os (in_closers p) w2) else w2);
                (err2, w4) = os_UnmountRecursive os (in_Rootfs p) w3
            in (case err2 of
                  None \<Rightarrow> (err, w4)
                | Some e2 \<Rightarrow>
                    ((if err = None then Some (WrapErr ''failed rootfs umount'' e2) else err), w4))))"

definition init_kill :: "'w guest_os \<Rightarrow> nat \<Rightarrow> bool \<Rightarrow> Init \<Rightarrow> 'w \<Rightarrow> goerr option \<times> 'w" where
  "init_kill os sig' all p w =
     (if \<not> in_runtime p then (Some errNoRuntime, w)
      else (let (err, w1) = rc_Kill os (in_id p) sig' all w in (checkKillError err, w1)))"

definition KillAll :: "'w guest_os \<Rightarrow> Init \<Rightarrow> 'w \<Rightarrow> goerr option \<times> 'w" where
  "KillAll os p w =
     (if \<not> in_runtime p then (Some errNoRuntime, w)
      else (let (err, w1) = rc_Kill os (in_id p) 9 True w
            in (runtimeError os w1 err ''OCI runtime killall failed'', w1)))"

definition init_update :: "'w guest_os \<Rightarrow> string \<Rightarrow> Init \<Rightarrow> 'w \<Rightarrow> goerr option \<times> 'w" where
  "init_update os r p w =
     (case os_unmarshal os r of
        Some e \<Rightarrow> (Some e, w)
      | None \<Rightarrow> rc_Update os (in_id p) r w)"

definition Init_Resize :: "'w guest_os \<Rightarrow> nat \<Rightarrow> nat \<Rightarrow> Init \<Rightarrow> 'w \<Rightarrow> goerr option \<times> 'w" where
  "Init_Resize os width height p w =
     (if \<not> in_console p then (None, w) else os_resizeConsole os width height w)"

subsection \<open>Its state machine\<close>

definition unknownState :: "PState \<Rightarrow> goerr" where
  "unknownState s = Errorf (''unknown state: '' @ PState_String s)"

definition Init_Start :: "'w guest_os \<Rightarrow> Init \<Rightarrow> 'w \<Rightarrow> goerr option \<times> Init \<times> 'w" where
  "Init_Start os p w =
     (case in_initState p of
        PCreated \<Rightarrow>
          (case init_start os p w of
             (Some e, w1) \<Rightarrow> (Some e, p, w1)
           | (None, w1) \<Rightarrow>
               (let (e, st) = p_transition (in_initState p) PRunning
                in (e, p\<lparr>in_initState := st\<rparr>, w1)))
      | PRunning \<Rightarrow> (Some (Errorf ''cannot start a running process''), p, w)
      | PStopped \<Rightarrow> (Some (Errorf ''cannot start a stopped process''), p, w)
      | PDeleted \<Rightarrow> (Some (Errorf ''cannot start a deleted process''), p, w)
      | POther n \<Rightarrow> (Some (unknownState (POther n)), p, w))"

definition Init_Delete :: "'w guest_os \<Rightarrow> Init \<Rightarrow> 'w \<Rightarrow> goerr option \<times> Init \<times> 'w" where
  "Init_Delete os p w =
     (if in_initState p = PCreated \<or> in_initState p = PStopped then
        (case init_delete os p w of
           (Some e, w1) \<Rightarrow> (Some e, p, w1)
         | (None, w1) \<Rightarrow>
             (let (e, st) = p_transition (in_initState p) PDeleted
              in (e, p\<lparr>in_initState := st\<rparr>, w1)))
      else if in_initState p = PRunning then (Some (Errorf ''cannot delete a running process''), p, w)
      else if in_initState p = PDeleted then
        (Some (WrapErr ''cannot delete a deleted process'' ErrNotFound), p, w)
      else (Some (unknownState (in_initState p)), p, w))"

definition Init_Kill ::
  "'w guest_os \<Rightarrow> nat \<Rightarrow> bool \<Rightarrow> Init \<Rightarrow> 'w \<Rightarrow> goerr option \<times> 'w" where
  "Init_Kill os sig' all p w =
     (case in_initState p of
        PDeleted \<Rightarrow> (Some (WrapErr ''cannot kill a deleted process'' ErrNotFound), w)
      | POther n \<Rightarrow> (Some (unknownState (POther n)), w)
      | _ \<Rightarrow> init_kill os sig' all p w)"

definition Init_SetExited :: "'w guest_os \<Rightarrow> int \<Rightarrow> Init \<Rightarrow> 'w \<Rightarrow> (Init \<times> 'w) go" where
  "Init_SetExited os status p w =
     (if in_initState p = PCreated \<or> in_initState p = PRunning then
        bindGo (init_setExited os status p w) (\<lambda>(p1, w1).
          (let (e, st) = p_transition (in_initState p1) PStopped
           in Ret (p1\<lparr>in_initState := (if e = None then st else PStopped)\<rparr>, w1)))
      else Ret (p, w))"

definition Init_Update ::
  "'w guest_os \<Rightarrow> string \<Rightarrow> Init \<Rightarrow> 'w \<Rightarrow> goerr option \<times> 'w" where
  "Init_Update os r p w =
     (case in_initState p of
        PStopped \<Rightarrow> (Some (Errorf ''cannot update a stopped container''), w)
      | PDeleted \<Rightarrow> (Some (Errorf ''cannot update a deleted process''), w)
      | POther n \<Rightarrow> (Some (unknownState (POther n)), w)
      | _ \<Rightarrow> init_update os r p w)"

definition Init_Status :: "Init \<Rightarrow> string" where
  "Init_Status p = PState_String (in_initState p)"

subsection \<open>Creating the container\<close>

record CreateConfig =
  cc_ID :: string
  cc_Bundle :: string
  cc_Terminal :: bool

definition pidFilePath :: "string \<Rightarrow> string" where
  "pidFilePath bundle = pathJoin [bundle, ''init.pid'']"

definition execPidFilePath :: "string \<Rightarrow> string \<Rightarrow> string" where
  "execPidFilePath bundle id' = pathJoin [bundle, id' @ ''.pid'']"

text \<open>From the call of the runtime on: the error, whether the container exists, and the
  process.\<close>

definition create_attach ::
  "'w guest_os \<Rightarrow> CreateConfig \<Rightarrow> Init \<Rightarrow> 'w \<Rightarrow> goerr option \<times> Init \<times> 'w" where
  "create_attach os r p w =
     (if cc_Terminal r then
        (case os_ReceiveMaster os w of
           (Inl e, w1) \<Rightarrow> (Some (WrapErr ''failed to retrieve console master'' e), p, w1)
         | (Inr _, w1) \<Rightarrow>
             (case os_CopyConsole os (in_id p) w1 of
                (Inl e, w2) \<Rightarrow> (Some (WrapErr ''failed to start console copy'' e), p, w2)
              | (Inr stdinCloser, w2) \<Rightarrow>
                  (None,
                   (if stdinCloser
                    then p\<lparr>in_console := True, in_stdin := True, in_closers := in_closers p + 1\<rparr>
                    else p\<lparr>in_console := True\<rparr>), w2)))
      else
        (case os_copyIO os w of
           (Inl e, w1) \<Rightarrow> (Some (WrapErr ''failed to start io pipe copy'' e), p, w1)
         | (Inr c, w1) \<Rightarrow>
             (None,
              (if c then p\<lparr>in_stdin := True, in_closers := in_closers p + 1\<rparr> else p), w1)))"

definition create_run ::
  "'w guest_os \<Rightarrow> CreateConfig \<Rightarrow> Init \<Rightarrow> 'w \<Rightarrow> goerr option \<times> bool \<times> Init \<times> 'w" where
  "create_run os r p w =
     (case rc_Create os (cc_ID r) (cc_Bundle r) w of
        (Some e, w1) \<Rightarrow> (runtimeError os w1 (Some e) ''OCI runtime create failed'', False, p, w1)
      | (None, w1) \<Rightarrow>
          (case create_attach os r p w1 of
             (Some e, p2, w2) \<Rightarrow> (Some e, True, p2, w2)
           | (None, p2, w2) \<Rightarrow>
               (case os_ReadPidFile os (pidFilePath (in_Bundle p)) w2 of
                  Inl e \<Rightarrow> (Some (WrapErr ''failed to retrieve OCI runtime container pid'' e), True, p2, w2)
                | Inr pid \<Rightarrow> (None, True, p2\<lparr>in_pid := pid\<rparr>, w2))))"

text \<open>The whole method: the I/O set-up, the run, and the deferred calls, last one first
  (close the console socket or, on an error, the I/O; then delete a container that was
  created before the error).\<close>

definition Init_Create ::
  "'w guest_os \<Rightarrow> CreateConfig \<Rightarrow> Init \<Rightarrow> 'w \<Rightarrow> goerr option \<times> Init \<times> 'w" where
  "Init_Create os r p w =
     (case (if cc_Terminal r then os_NewTempConsoleSocket os w
            else os_createIO os (in_id p) (in_stdio p) w) of
        (Some e, w1) \<Rightarrow>
          (Some (WrapErr (if cc_Terminal r then ''failed to create OCI runtime console socket''
                          else ''failed to create init process I/O'') e), p, w1)
      | (None, w1) \<Rightarrow>
          (let p1 = (if cc_Terminal r then p else p\<lparr>in_io := True\<rparr>);
               (retErr, created, p2, w2) = create_run os r p1 w1;
               w3 = (if cc_Terminal r then os_closeSocket os w2
                     else if retErr \<noteq> None \<and> in_io p2 then os_closeIO os w2 else w2);
               w4 = (if retErr \<noteq> None \<and> created then snd (rc_Delete os (cc_ID r) True w3) else w3)
           in (retErr, p2, w4)))"

section \<open>Exec processes\<close>

record execProcess =
  ex_execState :: PState
  ex_id :: string
  ex_console :: bool
  ex_io :: bool
  ex_status :: int
  ex_exited :: go_time
  ex_pid :: int
  ex_closers :: nat
  ex_stdin :: bool
  ex_stdio :: Stdio
  ex_path :: string
  ex_parent :: "Init option"
  ex_waitBlock :: gochan

record ExecConfig =
  ec_ID :: string
  ec_stdio :: Stdio
  ec_Spec :: string

definition init_exec ::
  "'w guest_os \<Rightarrow> string \<Rightarrow> ExecConfig \<Rightarrow> Init \<Rightarrow> goerr + execProcess" where
  "init_exec os path r p =
     (case os_unmarshal os (ec_Spec r) of
        Some e \<Rightarrow> Inl e
      | None \<Rightarrow>
          Inr \<lparr>ex_execState = PCreated, ex_id = ec_ID r, ex_console = False, ex_io = False,
               ex_status = 0, ex_exited = 0, ex_pid = 0, ex_closers = 0, ex_stdin = False,
               ex_stdio = ec_stdio r, ex_path = path, ex_parent = Some p,
               ex_waitBlock = ChanOpen\<rparr>)"

definition Init_Exec ::
  "'w guest_os \<Rightarrow> string \<Rightarrow> ExecConfig \<Rightarrow> Init \<Rightarrow> goerr + execProcess" where
  "Init_Exec os path r p =
     (case in_initState p of
        PStopped \<Rightarrow> Inl (Errorf ''cannot exec in a stopped state'')
      | PDeleted \<Rightarrow> Inl (Errorf ''cannot exec in a deleted state'')
      | POther n \<Rightarrow> Inl (unknownState (POther n))
      | _ \<Rightarrow> init_exec os path r p)"

definition exec_setExited ::
  "'w guest_os \<Rightarrow> int \<Rightarrow> execProcess \<Rightarrow> 'w \<Rightarrow> (execProcess \<times> 'w) go" where
  "exec_setExited os status e w =
     (let e1 = e\<lparr>ex_status := status, ex_exited := os_now os w\<rparr>;
          w1 = (case ex_parent e of
                  None \<Rightarrow> w
                | Some p \<Rightarrow> if in_Platform p then os_ShutdownConsole os w else w)
      in if ex_waitBlock e1 \<noteq> ChanNil
         then bindGo (closeChan (ex_waitBlock e1)) (\<lambda>c. Ret (e1\<lparr>ex_waitBlock := c\<rparr>, w1))
         else Ret (e1, w1))"

definition exec_delete :: "'w guest_os \<Rightarrow> execProcess \<Rightarrow> 'w \<Rightarrow> 'w" where
  "exec_delete os e w =
     (let w1 = os_waitTimeout os (2 * Second) w;
          w2 = (if ex_io e then os_closeIO os (closeClosers os (ex_closers e) w1) else w1)
      in os_remove os (execPidFilePath (ex_path e) (ex_id e)) w2)"

definition exec_resize ::
  "'w guest_os \<Rightarrow> nat \<Rightarrow> nat \<Rightarrow> execProcess \<Rightarrow> 'w \<Rightarrow> goerr option \<times> 'w" where
  "exec_resize os width height e w =
     (if \<not> ex_console e then (None, w) else os_resizeConsole os width height w)"

definition exec_kill ::
  "'w guest_os \<Rightarrow> nat \<Rightarrow> execProcess \<Rightarrow> 'w \<Rightarrow> goerr option \<times> 'w" where
  "exec_kill os sig' e w =
     (if ex_pid e = 0 then (Some (WrapErr ''process not created'' ErrFailedPrecondition), w)
      else if \<not> timeIsZero (ex_exited e)
      then (Some (WrapErr ''process already finished'' ErrNotFound), w)
      else (case os_kill os (ex_pid e) sig' w of
              (None, w1) \<Rightarrow> (None, w1)
            | (Some err, w1) \<Rightarrow>
                (map_option (WrapErr ''exec kill error'') (checkKillError (Some err)), w1)))"

definition exec_attach ::
  "'w guest_os \<Rightarrow> execProcess \<Rightarrow> 'w \<Rightarrow> goerr option \<times> execProcess \<times> 'w" where
  "exec_attach os e w =
     (if std_Terminal (ex_stdio e) then
        (case os_ReceiveMaster os w of
           (Inl err, w1) \<Rightarrow> (Some (WrapErr ''failed to retrieve console master'' err), e, w1)
         | (Inr stdinCloser, w1) \<Rightarrow>
             (case os_CopyConsole os (ex_id e) w1 of
                (Inl err, w2) \<Rightarrow>
                  (Some (WrapErr ''failed to start console copy'' err), e\<lparr>ex_console := False\<rparr>, w2)
              | (Inr _, w2) \<Rightarrow>
                  (None,
                   (if stdinCloser
                    then e\<lparr>ex_console := True, ex_stdin := True, ex_closers := ex_closers e + 1\<rparr>
                    else e\<lparr>ex_console := True\<rparr>), w2)))
      else
        (case os_copyIO os w of
           (Inl err, w1) \<Rightarrow> (Some (WrapErr ''failed to start io pipe copy'' err), e, w1)
         | (Inr c, w1) \<Rightarrow>
             (None,
              (if c then e\<lparr>ex_stdin := True, ex_closers := ex_closers e + 1\<rparr> else e), w1)))"

definition exec_run ::
  "'w guest_os \<Rightarrow> Init \<Rightarrow> execProcess \<Rightarrow> 'w \<Rightarrow> (goerr option \<times> execProcess \<times> 'w) go" where
  "exec_run os parent e w =
     (case rc_Exec os (in_id parent) (ex_id e) w of
        (Some err, w1) \<Rightarrow>
          bindGo (closeChan (ex_waitBlock e))
            (\<lambda>c. Ret (runtimeError os w1 (Some err) ''OCI runtime exec failed'',
                      e\<lparr>ex_waitBlock := c\<rparr>, w1))
      | (None, w1) \<Rightarrow>
          (case exec_attach os e w1 of
             (Some err, e2, w2) \<Rightarrow> Ret (Some err, e2, w2)
           | (None, e2, w2) \<Rightarrow>
               (case os_ReadPidFile os (execPidFilePath (ex_path e) (ex_id e)) w2 of
                  Inl err \<Rightarrow> Ret (Some (WrapErr ''failed to retrieve OCI runtime exec pid'' err), e2, w2)
                | Inr pid \<Rightarrow> Ret (None, e2\<lparr>ex_pid := pid\<rparr>, w2))))"

definition exec_start ::
  "'w guest_os \<Rightarrow> execProcess \<Rightarrow> 'w \<Rightarrow> (goerr option \<times> execProcess \<times> 'w) go" where
  "exec_start os e w =
     (let noParent = Ret (Some (Sentinel ''parent process or runtime not initialized''), e, w);
          tty = std_Terminal (ex_stdio e)
      in case ex_parent e of
           None \<Rightarrow> noParent
         | Some parent \<Rightarrow>
             if \<not> in_runtime parent then noParent
             else
               (case (if tty then os_NewTempConsoleSocket os w
                      else os_createIO os (ex_id e) (ex_stdio e) w) of
                  (Some err, w1) \<Rightarrow>
                    Ret (Some (WrapErr (if tty then ''failed to create runc console socket''
                                        else ''failed to create init process I/O'') err), e, w1)
                | (None, w1) \<Rightarrow>
                    bindGo (exec_run os parent (if tty then e else e\<lparr>ex_io := True\<rparr>) w1)
                      (\<lambda>(err, e2, w2).
                         Ret (err, e2,
                              (if tty then os_closeSocket os w2
                               else if err \<noteq> None \<and> ex_io e2 then os_closeIO os w2 else w2)))))"

subsection \<open>Their state machine\<close>

definition exec_Start ::
  "'w guest_os \<Rightarrow> execProcess \<Rightarrow> 'w \<Rightarrow> (goerr option \<times> execProcess \<times> 'w) go" where
  "exec_Start os e w =
     (case ex_execState e of
        PCreated \<Rightarrow>
          bindGo (exec_start os e w) (\<lambda>(err, e1, w1).
            case err of
              Some x \<Rightarrow> Ret (Some x, e1, w1)
            | None \<Rightarrow>
                (let (x, st) = p_transition (ex_execState e1) PRunning
                 in Ret (x, e1\<lparr>ex_execState := st\<rparr>, w1)))
      | PRunning \<Rightarrow> Ret (Some (Errorf ''cannot start a running process''), e, w)
      | PStopped \<Rightarrow> Ret (Some (Errorf ''cannot start a stopped process''), e, w)
      | PDeleted \<Rightarrow> Ret (Some (Errorf ''cannot start a deleted process''), e, w)
      | POther n \<Rightarrow> Ret (Some (unknownState (POther n)), e, w))"

definition exec_Delete ::
  "'w guest_os \<Rightarrow> execProcess \<Rightarrow> 'w \<Rightarrow> goerr option \<times> execProcess \<times> 'w" where
  "exec_Delete os e w =
     (if ex_execState e = PCreated \<or> ex_execState e = PStopped then
        (let w1 = exec_delete os e w;
             (x, st) = p_transition (ex_execState e) PDeleted
         in (x, e\<lparr>ex_execState := st\<rparr>, w1))
      else if ex_execState e = PRunning then (Some (Errorf ''cannot delete a running process''), e, w)
      else if ex_execState e = PDeleted then
        (Some (WrapErr ''cannot delete a deleted process'' ErrNotFound), e, w)
      else (Some (unknownState (ex_execState e)), e, w))"

definition exec_Kill ::
  "'w guest_os \<Rightarrow> nat \<Rightarrow> bool \<Rightarrow> execProcess \<Rightarrow> 'w \<Rightarrow> goerr option \<times> 'w" where
  "exec_Kill os sig' all e w =
     (case ex_execState e of
        PDeleted \<Rightarrow> (Some (WrapErr ''cannot kill a deleted process'' ErrNotFound), w)
      | POther n \<Rightarrow> (Some (unknownState (POther n)), w)
      | _ \<Rightarrow> exec_kill os sig' e w)"

definition exec_SetExited ::
  "'w guest_os \<Rightarrow> int \<Rightarrow> execProcess \<Rightarrow> 'w \<Rightarrow> (execProcess \<times> 'w) go" where
  "exec_SetExited os status e w =
     (if ex_execState e = PCreated \<or> ex_execState e = PRunning then
        bindGo (exec_setExited os status e w) (\<lambda>(e1, w1).
          (let (x, st) = p_transition (ex_execState e1) PStopped
           in Ret (e1\<lparr>ex_execState := (if x = None then st else PStopped)\<rparr>, w1)))
      else Ret (e, w))"

definition exec_Resize ::
  "'w guest_os \<Rightarrow> nat \<Rightarrow> nat \<Rightarrow> execProcess \<Rightarrow> 'w \<Rightarrow> goerr option \<times> 'w" where
  "exec_Resize os width height e w =
     (case ex_execState e of
        PStopped \<Rightarrow> (Some (Errorf ''cannot resize a stopped container''), w)
      | PDeleted \<Rightarrow> (Some (Errorf ''cannot resize a deleted process''), w)
      | POther n \<Rightarrow> (Some (unknownState (POther n)), w)
      | _ \<Rightarrow> exec_resize os width height e w)"

definition exec_Status :: "execProcess \<Rightarrow> string" where
  "exec_Status e = PState_String (ex_execState e)"

section \<open>Runs\<close>

text \<open>The calls the task service makes on a process, in any order.\<close>

datatype proc_op =
    OpStart | OpDelete | OpKill nat bool | OpSetExited int | OpUpdate string | OpResize nat nat

fun init_step :: "'w guest_os \<Rightarrow> proc_op \<Rightarrow> Init \<times> 'w \<Rightarrow> (Init \<times> 'w) go" where
  "init_step os OpStart (p, w) = Ret (snd (Init_Start os p w))"
| "init_step os OpDelete (p, w) = Ret (snd (Init_Delete os p w))"
| "init_step os (OpKill sig' all) (p, w) = Ret (p, snd (Init_Kill os sig' all p w))"
| "init_step os (OpSetExited status) (p, w) = Init_SetExited os status p w"
| "init_step os (OpUpdate r) (p, w) = Ret (p, snd (Init_Update os r p w))"
| "init_step os (OpResize width height) (p, w) = Ret (p, snd (Init_Resize os width height p w))"

fun exec_step :: "'w guest_os \<Rightarrow> proc_op \<Rightarrow> execProcess \<times> 'w \<Rightarrow> (execProcess \<times> 'w) go" where
  "exec_step os OpStart (e, w) = bindGo (exec_Start os e w) (\<lambda>(_, e', w'). Ret (e', w'))"
| "exec_step os OpDelete (e, w) = Ret (snd (exec_Delete os e w))"
| "exec_step os (OpKill sig' all) (e, w) = Ret (e, snd (exec_Kill os sig' all e w))"
| "exec_step os (OpSetExited status) (e, w) = exec_SetExited os status e w"
| "exec_step os (OpUpdate r) (e, w) = Ret (e, w)"
| "exec_step os (OpResize width height) (e, w) = Ret (e, snd (exec_Resize os width height e w))"

definition init_run1 :: "'w guest_os \<Rightarrow> proc_op \<Rightarrow> (Init \<times> 'w) go \<Rightarrow> (Init \<times> 'w) go" where
  "init_run1 os x s = bindGo s (init_step os x)"

definition exec_run1 ::
  "'w guest_os \<Rightarrow> proc_op \<Rightarrow> (execProcess \<times> 'w) go \<Rightarrow> (execProcess \<times> 'w) go" where
  "exec_run1 os x s = bindGo s (exec_step os x)"

fun p_rank :: "PState \<Rightarrow> nat" where
  "p_rank PCreated = 0"
| "p_rank PRunning = 1"
| "p_rank PStopped = 2"
| "p_rank PDeleted = 3"
| "p_rank (POther n) = 4"

text \<open>What the wait channel, the exit status and the exit time are in each state.\<close>

fun waits_ok :: "PState \<Rightarrow> gochan \<Rightarrow> bool" where
  "waits_ok PCreated c = (c = ChanOpen)"
| "waits_ok PRunning c = (c = ChanOpen)"
| "waits_ok PStopped c = (c = ChanClosed)"
| "waits_ok PDeleted c = (c \<noteq> ChanNil)"
| "waits_ok (POther n) c = False"

fun init_inv :: "(Init \<times> 'w) go \<Rightarrow> bool" where
  "init_inv (Ret (p, w)) = waits_ok (in_initState p) (in_waitBlock p)"
| "init_inv (Panic m) = False"

fun init_rank :: "(Init \<times> 'w) go \<Rightarrow> nat" where
  "init_rank (Ret (p, w)) = p_rank (in_initState p)"
| "init_rank (Panic m) = 5"

lemma p_transition_simps [simp]:
  "p_transition PCreated PRunning = (None, PRunning)"
  "p_transition PCreated PStopped = (None, PStopped)"
  "p_transition PCreated PDeleted = (None, PDeleted)"
  "p_transition PRunning PStopped = (None, PStopped)"
  "p_transition PStopped PDeleted = (None, PDeleted)"
  by (simp_all add: p_transition_def canTransition_def)

lemma Init_Start_shape:
  "\<exists>e w'. Init_Start os p w = (e, p, w')
     \<or> in_initState p = PCreated \<and> Init_Start os p w = (e, p\<lparr>in_initState := PRunning\<rparr>, w')"
  by (cases "in_initState p")
     (auto simp: Init_Start_def split: prod.splits option.splits)

lemma Init_Delete_shape:
  "\<exists>e w'. Init_Delete os p w = (e, p, w')
     \<or> (in_initState p = PCreated \<or> in_initState p = PStopped)
       \<and> Init_Delete os p w = (e, p\<lparr>in_initState := PDeleted\<rparr>, w')"
  by (cases "in_initState p")
     (auto simp: Init_Delete_def split: prod.splits option.splits)

lemma Init_SetExited_shape:
  assumes "waits_ok (in_initState p) (in_waitBlock p)"
  shows "\<exists>w'. Init_SetExited os s p w =
     (if in_initState p = PCreated \<or> in_initState p = PRunning
      then Ret (p\<lparr>in_exited := os_now os w, in_status := s, in_waitBlock := ChanClosed,
                  in_initState := PStopped\<rparr>, w')
      else Ret (p, w))"
  using assms
  by (cases "in_initState p") (simp_all add: Init_SetExited_def init_setExited_def Let_def)

text \<open>One call on a process that satisfies the invariant.\<close>

lemma init_step_ok:
  assumes ok: "waits_ok (in_initState p) (in_waitBlock p)"
  shows "\<exists>p' w'. init_step os x (p, w) = Ret (p', w')
     \<and> waits_ok (in_initState p') (in_waitBlock p')
     \<and> p_rank (in_initState p) \<le> p_rank (in_initState p')
     \<and> (2 \<le> p_rank (in_initState p) \<longrightarrow>
          in_status p' = in_status p \<and> in_exited p' = in_exited p)"
proof (cases x)
  case OpStart
  with Init_Start_shape [of os p w] ok show ?thesis by force
next
  case OpDelete
  with Init_Delete_shape [of os p w] ok show ?thesis by force
next
  case (OpSetExited s)
  with Init_SetExited_shape [OF ok, of os s w] ok show ?thesis
    by (cases "in_initState p") auto
qed (use ok in auto)

interpretation init_machine: ranked_machine "init_run1 os" init_inv init_rank for os
proof
  fix x and s :: "(Init \<times> 'a) go"
  assume inv: "init_inv s"
  then obtain p w where s: "s = Ret (p, w)" by (cases s) auto
  from inv s init_step_ok [of p os x w]
  show "init_inv (init_run1 os x s)" "init_rank s \<le> init_rank (init_run1 os x s)"
    by (auto simp: init_run1_def)
qed

lemma init_inv_New: "init_inv (Ret (New i r st, w))"
  by (simp add: New_def)

lemma init_inv_Ret:
  "init_inv s \<Longrightarrow> \<exists>p w. s = Ret (p, w) \<and> waits_ok (in_initState p) (in_waitBlock p)"
  by (cases s) auto

lemma init_frozen_run:
  assumes "waits_ok (in_initState p) (in_waitBlock p)" and "2 \<le> p_rank (in_initState p)"
  shows "\<exists>p' w'. fold (init_run1 os) xs (Ret (p, w)) = Ret (p', w')
     \<and> in_status p' = in_status p \<and> in_exited p' = in_exited p
     \<and> 2 \<le> p_rank (in_initState p')"
  using assms
proof (induction xs arbitrary: p w)
  case Nil
  then show ?case by simp
next
  case (Cons x xs)
  from init_step_ok [OF Cons.prems(1), of os x w] obtain p1 w1 where
    1: "init_step os x (p, w) = Ret (p1, w1)" "waits_ok (in_initState p1) (in_waitBlock p1)"
      "2 \<le> p_rank (in_initState p1)" "in_status p1 = in_status p" "in_exited p1 = in_exited p"
    using Cons.prems(2) by auto
  from Cons.IH [OF 1(2,3), of w1] 1 show ?case
    by (simp add: init_run1_def)
qed

subsection \<open>Exec processes\<close>

fun exec_inv :: "(execProcess \<times> 'w) go \<Rightarrow> bool" where
  "exec_inv (Ret (e, w)) = waits_ok (ex_execState e) (ex_waitBlock e)"
| "exec_inv (Panic m) = False"

lemma exec_attach_shape:
  "exec_attach os e w = (err, e', w') \<Longrightarrow>
     ex_execState e' = ex_execState e \<and> ex_waitBlock e' = ex_waitBlock e"
  by (auto simp: exec_attach_def split: if_splits prod.splits sum.splits)

lemma exec_run_shape:
  assumes "fst (rc_Exec os (in_id p) (ex_id e) w) = None"
  shows "\<exists>err e' w'. exec_run os p e w = Ret (err, e', w')
     \<and> ex_execState e' = ex_execState e \<and> ex_waitBlock e' = ex_waitBlock e"
proof -
  from assms obtain w1 where x: "rc_Exec os (in_id p) (ex_id e) w = (None, w1)"
    by (cases "rc_Exec os (in_id p) (ex_id e) w") auto
  obtain err e2 w2 where a: "exec_attach os e w1 = (err, e2, w2)"
    by (cases "exec_attach os e w1") auto
  from exec_attach_shape [OF a] x a show ?thesis
    by (auto simp: exec_run_def split: option.splits sum.splits)
qed

lemma exec_start_shape:
  assumes "\<forall>c i v. fst (rc_Exec os c i v) = None"
  shows "\<exists>err e' w'. exec_start os e w = Ret (err, e', w')
     \<and> ex_execState e' = ex_execState e \<and> ex_waitBlock e' = ex_waitBlock e"
proof (cases "ex_parent e")
  case None
  then show ?thesis by (simp add: exec_start_def)
next
  case (Some parent)
  let ?e = "if std_Terminal (ex_stdio e) then e else e\<lparr>ex_io := True\<rparr>"
  have "\<exists>err e' w'. exec_run os parent ?e v = Ret (err, e', w')
     \<and> ex_execState e' = ex_execState e \<and> ex_waitBlock e' = ex_waitBlock e" for v
    using exec_run_shape [of os parent ?e v] assms by (simp split: if_splits)
  with Some show ?thesis
    by (fastforce simp: exec_start_def Let_def bindGo_Ret_iff split: prod.splits option.splits)
qed

lemma exec_step_ok:
  assumes "\<forall>c i v. fst (rc_Exec os c i v) = None"
    and ok: "waits_ok (ex_execState e) (ex_waitBlock e)"
  shows "\<exists>e' w'. exec_step os x (e, w) = Ret (e', w')
     \<and> waits_ok (ex_execState e') (ex_waitBlock e')"
proof (cases x)
  case OpStart
  from exec_start_shape [OF assms(1), of e w] obtain err e' w'
    where s: "exec_start os e w = Ret (err, e', w')"
    and f: "ex_execState e' = ex_execState e" "ex_waitBlock e' = ex_waitBlock e" by blast
  from OpStart ok s f show ?thesis
    by (cases "ex_execState e"; cases err) (auto simp: exec_Start_def)
next
  case OpDelete
  with ok show ?thesis
    by (cases "ex_execState e") (auto simp: exec_Delete_def Let_def)
next
  case (OpSetExited s)
  with ok show ?thesis
    by (cases "ex_execState e")
       (auto simp: exec_SetExited_def exec_setExited_def Let_def)
qed (use ok in auto)

lemma exec_run_ok:
  assumes "\<forall>c i v. fst (rc_Exec os c i v) = None" and "exec_inv s"
  shows "exec_inv (fold (exec_run1 os) xs s)"
  using assms(2)
proof (induction xs arbitrary: s)
  case Nil
  then show ?case by simp
next
  case (Cons x xs)
  then obtain e w where s: "s = Ret (e, w)" by (cases s) auto
  from exec_step_ok [OF assms(1), of e x w] Cons.prems s
  have "exec_inv (exec_run1 os x s)" by (auto simp: exec_run1_def)
  from Cons.IH [OF this] show ?case by simp
qed

subsection \<open>A concrete environment\<close>

text \<open>An environment in which every call succeeds, and one whose runtime cannot exec.\<close>

definition quiet_os :: "nat guest_os" where
  "quiet_os =
     \<lparr>rc_Create = \<lambda>i b w. (None, w), rc_Start = \<lambda>i w. (None, w), rc_Delete = \<lambda>i f w. (None, w),
      rc_Kill = \<lambda>i s a w. (None, w), rc_Exec = \<lambda>c i w. (None, w), rc_Update = \<lambda>i r w. (None, w),
      os_Log = '''', os_readLog = \<lambda>w. Inr ([], None),
      os_NewTempConsoleSocket = \<lambda>w. (None, w), os_closeSocket = \<lambda>w. w,
      os_createIO = \<lambda>i s w. (None, w), os_closeIO = \<lambda>w. w, os_closeCloser = \<lambda>w. w,
      os_copyIO = \<lambda>w. (Inr True, w), os_ReceiveMaster = \<lambda>w. (Inr True, w),
      os_CopyConsole = \<lambda>i w. (Inr True, w), os_ShutdownConsole = \<lambda>w. w,
      os_resizeConsole = \<lambda>x y w. (None, w), os_ReadPidFile = \<lambda>p w. Inr 42,
      os_remove = \<lambda>p w. w, os_waitTimeout = \<lambda>d w. w, os_untilDeadline = \<lambda>w. None,
      os_UnmountRecursive = \<lambda>p w. (None, w), os_kill = \<lambda>p s w. (None, w),
      os_now = \<lambda>w. int w + 1, os_unmarshal = \<lambda>s. None\<rparr>"

definition failing_os :: "nat guest_os" where
  "failing_os = quiet_os\<lparr>rc_Exec := \<lambda>c i w. (Some (Errorf ''exec failed''), w)\<rparr>"

definition plain_stdio :: Stdio where
  "plain_stdio = \<lparr>std_Stdin = '''', std_Stdout = '''', std_Stderr = '''', std_Terminal = False\<rparr>"

subsection \<open>The runtime calls of a creation\<close>

text \<open>The environment with a record of the containers the runtime was asked to create and
  delete, with the outcome of the creations.\<close>

datatype runtime_call = CallCreate string "goerr option" | CallDelete string bool

definition traced :: "'w guest_os \<Rightarrow> ('w \<times> runtime_call list) guest_os" where
  "traced os =
     \<lparr>rc_Create = \<lambda>i b (w, l). (let (e, w') = rc_Create os i b w in (e, (w', l @ [CallCreate i e]))),
      rc_Start = \<lambda>i (w, l). (let (e, w') = rc_Start os i w in (e, (w', l))),
      rc_Delete = \<lambda>i f (w, l). (let (e, w') = rc_Delete os i f w in (e, (w', l @ [CallDelete i f]))),
      rc_Kill = \<lambda>i s a (w, l). (let (e, w') = rc_Kill os i s a w in (e, (w', l))),
      rc_Exec = \<lambda>c i (w, l). (let (e, w') = rc_Exec os c i w in (e, (w', l))),
      rc_Update = \<lambda>i r (w, l). (let (e, w') = rc_Update os i r w in (e, (w', l))),
      os_Log = os_Log os, os_readLog = \<lambda>(w, l). os_readLog os w,
      os_NewTempConsoleSocket = \<lambda>(w, l). (let (e, w') = os_NewTempConsoleSocket os w in (e, (w', l))),
      os_closeSocket = \<lambda>(w, l). (os_closeSocket os w, l),
      os_createIO = \<lambda>i s (w, l). (let (e, w') = os_createIO os i s w in (e, (w', l))),
      os_closeIO = \<lambda>(w, l). (os_closeIO os w, l),
      os_closeCloser = \<lambda>(w, l). (os_closeCloser os w, l),
      os_copyIO = \<lambda>(w, l). (let (e, w') = os_copyIO os w in (e, (w', l))),
      os_ReceiveMaster = \<lambda>(w, l). (let (e, w') = os_ReceiveMaster os w in (e, (w', l))),
      os_CopyConsole = \<lambda>i (w, l). (let (e, w') = os_CopyConsole os i w in (e, (w', l))),
      os_ShutdownConsole = \<lambda>(w, l). (os_ShutdownConsole os w, l),
      os_resizeConsole = \<lambda>x y (w, l). (let (e, w') = os_resizeConsole os x y w in (e, (w', l))),
      os_ReadPidFile = \<lambda>p (w, l). os_ReadPidFile os p w,
      os_remove = \<lambda>p (w, l). (os_remove os p w, l),
      os_waitTimeout = \<lambda>d (w, l). (os_waitTimeout os d w, l),
      os_untilDeadline = \<lambda>(w, l). os_untilDeadline os w,
      os_UnmountRecursive = \<lambda>p (w, l). (let (e, w') = os_UnmountRecursive os p w in (e, (w', l))),
      os_kill = \<lambda>p s (w, l). (let (e, w') = os_kill os p s w in (e, (w', l))),
      os_now = \<lambda>(w, l). os_now os w, os_unmarshal = os_unmarshal os\<rparr>"

lemma create_attach_trace:
  "create_attach (traced os) r p (w, l) = (e, p', (w', l')) \<Longrightarrow> l' = l"
  by (auto simp: create_attach_def traced_def split: if_splits prod.splits sum.splits)

lemma create_run_trace:
  assumes "create_run (traced os) r p (w, l) = (e, created, p', (w', l'))"
  shows "\<exists>ce. l' = l @ [CallCreate (cc_ID r) ce] \<and> (created \<longleftrightarrow> ce = None)
     \<and> (ce \<noteq> None \<longrightarrow> e \<noteq> None)"
proof -
  obtain ce w1 where c: "rc_Create os (cc_ID r) (cc_Bundle r) w = (ce, w1)"
    by (cases "rc_Create os (cc_ID r) (cc_Bundle r) w") auto
  let ?l = "l @ [CallCreate (cc_ID r) ce]"
  have step: "rc_Create (traced os) (cc_ID r) (cc_Bundle r) (w, l) = (ce, (w1, ?l))"
    by (simp add: traced_def c)
  show ?thesis
  proof (cases ce)
    case (Some x)
    with assms step show ?thesis
      by (auto simp: create_run_def runtimeError_def split: sum.splits if_splits)
  next
    case None
    obtain e2 p2 w2 l2 where a: "create_attach (traced os) r p (w1, ?l) = (e2, p2, (w2, l2))"
      by (cases "create_attach (traced os) r p (w1, ?l)") auto
    from create_attach_trace [OF a] a step None assms show ?thesis
      by (auto simp: create_run_def split: option.splits sum.splits)
  qed
qed

section \<open>Properties\<close>


text \<open>The exit of an init process is recorded once: the status and time of the first
  \<open>SetExited\<close> that finds the process created or running are the ones reported ever
  after, whatever is called later.\<close>

theorem init_exit_recorded_once:
  assumes "fold (init_run1 os) xs (Ret (New i r st, w)) = Ret (p, w1)"
    and "in_initState p = PCreated \<or> in_initState p = PRunning"
  shows "\<exists>p' w'. fold (init_run1 os) (xs @ OpSetExited s # ys) (Ret (New i r st, w)) = Ret (p', w')
     \<and> in_status p' = s \<and> in_exited p' = os_now os w1"
proof -
  have "init_inv (Ret (p, w1))"
    using init_machine.inv_run [OF init_inv_New, of os xs i r st w] assms(1) by simp
  then have ok: "waits_ok (in_initState p) (in_waitBlock p)" by simp
  from Init_SetExited_shape [OF this, of os s w1] assms(2) obtain w2
    where "Init_SetExited os s p w1 = Ret (p\<lparr>in_exited := os_now os w1, in_status := s,
      in_waitBlock := ChanClosed, in_initState := PStopped\<rparr>, w2)" by auto
  with init_frozen_run [of "p\<lparr>in_exited := os_now os w1, in_status := s,
      in_waitBlock := ChanClosed, in_initState := PStopped\<rparr>" os ys w2] assms(1)
  show ?thesis by (auto simp: init_run1_def)
qed

theorem init_exit_recorded_once_witness:
  "\<exists>p' w'. fold (init_run1 quiet_os) ([OpStart] @ OpSetExited 7 # [OpSetExited 9, OpDelete])
       (Ret (New ''c1'' True plain_stdio, 5)) = Ret (p', w')
     \<and> in_status p' = 7 \<and> in_exited p' = os_now quiet_os 5"
proof (rule init_exit_recorded_once)
  show "fold (init_run1 quiet_os) [OpStart] (Ret (New ''c1'' True plain_stdio, 5))
      = Ret ((New ''c1'' True plain_stdio)\<lparr>in_initState := PRunning\<rparr>, 5)"
    by (simp add: init_run1_def Init_Start_def init_start_def New_def quiet_os_def runtimeError_def)
  show "in_initState ((New ''c1'' True plain_stdio)\<lparr>in_initState := PRunning\<rparr>) = PCreated
      \<or> in_initState ((New ''c1'' True plain_stdio)\<lparr>in_initState := PRunning\<rparr>) = PRunning"
    by simp
qed

text \<open>C13. A container is not leaked by a failed creation: \<open>Init.Create\<close> asks the runtime
  to create the container at most once, and whenever it returns an error after the
  runtime created the container, its last call to the runtime is a forced delete of that
  container; a creation that succeeds leaves the container alone.\<close>

theorem failed_create_deletes_container:
  "case Init_Create (traced os) r p (w, []) of
     (e, p', (w', l)) \<Rightarrow>
       (if e = None then l = [CallCreate (cc_ID r) None]
        else l = [] \<or> (\<exists>ce. l = [CallCreate (cc_ID r) (Some ce)])
             \<or> l = [CallCreate (cc_ID r) None, CallDelete (cc_ID r) True])"
proof -
  let ?p = "if cc_Terminal r then p else p\<lparr>in_io := True\<rparr>"
  let ?su = "if cc_Terminal r then os_NewTempConsoleSocket (traced os) (w, [])
      else os_createIO (traced os) (in_id p) (in_stdio p) (w, [])"
  obtain e0 w1 l1 where su: "?su = (e0, (w1, l1))"
    by (cases ?su) auto
  then have l1: "l1 = []" by (auto simp: traced_def split: if_splits prod.splits)
  obtain e created p2 w2 l2
    where run: "create_run (traced os) r ?p (w1, l1) = (e, created, p2, (w2, l2))"
    by (cases "create_run (traced os) r ?p (w1, l1)") auto
  have del: "rc_Delete (traced os) i f (v, l) = (fst (rc_Delete os i f v),
      (snd (rc_Delete os i f v), l @ [CallDelete i f]))"
    "os_closeSocket (traced os) (v, l) = (os_closeSocket os v, l)"
    "os_closeIO (traced os) (v, l) = (os_closeIO os v, l)" for i f v l
    by (simp_all add: traced_def split: prod.splits)
  from create_run_trace [OF run] l1 obtain ce where
    "l2 = [CallCreate (cc_ID r) ce]" "created \<longleftrightarrow> ce = None" "ce \<noteq> None \<longrightarrow> e \<noteq> None" by auto
  with su run l1 show ?thesis
    by (cases e0; cases e; cases ce) (simp_all add: Init_Create_def del Let_def)
qed



text \<open>C15. When the runtime's \<open>exec\<close> fails, the failed \<open>Start\<close> has closed the wait channel
  but left the exec process in the created state: starting it again, or recording an exit
  for it, closes the channel a second time and panics.\<close>

theorem failed_exec_start_panics_later:
  assumes "rc_Exec os (in_id p) (ec_ID r) w1 = (Some err, w2)"
    and "in_runtime p" and "\<not> std_Terminal (ec_stdio r)"
    and "os_createIO os (ec_ID r) (ec_stdio r) w = (None, w1)"
    and "init_exec os path r p = Inr e"
  shows "fold (exec_run1 os) [OpStart, OpSetExited s] (Ret (e, w))
       = Panic ''close of closed channel''"
proof -
  from assms(5) have e: "ex_execState e = PCreated" "ex_waitBlock e = ChanOpen"
    "ex_parent e = Some p" "ex_id e = ec_ID r" "ex_stdio e = ec_stdio r"
    by (auto simp: init_exec_def split: option.splits)
  have "runtimeError os w2 (Some err) m \<noteq> None" for m
    by (simp add: runtimeError_def split: sum.splits)
  then obtain x where x: "runtimeError os w2 (Some err) ''OCI runtime exec failed'' = Some x"
    by blast
  have "exec_step os OpStart (e, w)
      = Ret (e\<lparr>ex_io := True, ex_waitBlock := ChanClosed\<rparr>, os_closeIO os w2)"
    using assms(1-4) e x by (simp add: exec_Start_def exec_start_def exec_run_def)
  then show ?thesis
    using e by (simp add: exec_run1_def exec_SetExited_def exec_setExited_def Let_def)
qed

theorem failed_exec_start_panics_later_witness:
  "\<exists>e. fold (exec_run1 failing_os) [OpStart, OpSetExited 0] (Ret (e, 0))
     = Panic ''close of closed channel''"
proof -
  let ?r = "\<lparr>ec_ID = ''x'', ec_stdio = plain_stdio, ec_Spec = ''{}''\<rparr>"
  obtain e where "init_exec failing_os ''/b'' ?r (New ''c1'' True plain_stdio) = Inr e"
    by (simp add: init_exec_def failing_os_def quiet_os_def)
  then show ?thesis
    by (intro exI, intro failed_exec_start_panics_later [where p = "New ''c1'' True plain_stdio"
          and r = ?r and ?w1.0 = 0 and ?w2.0 = 0 and err = "Errorf ''exec failed''"])
       (simp_all add: failing_os_def quiet_os_def plain_stdio_def New_def)
qed

end
