(* ===== verification/Exit_Tracker.thy ===== *)
theory Exit_Tracker
  imports Contracts
begin

text \<open>
  \<^verbatim>\<open>internal/guest/vminit/task\<close>: how the guest's task service matches process exits to
  processes and orders their publication (\<^verbatim>\<open>exit_tracker.go\<close>, \<^verbatim>\<open>events.go\<close> and the
  tracker calls of \<^verbatim>\<open>lifecycle.go\<close>).

  A container and a process are identified by a pointer, here a number. The three mutexes
  of the tracker make each method of its parts an atomic step; the service's own steps
  (an exit from the reaper, the \<open>handleStarted\<close> closure, a goroutine that was waiting for
  the execs) are composed of them as the code composes them. Go's maps are HOL maps.
\<close>

section \<open>Data\<close>

record rexit =
  xe_Pid :: int
  xe_Status :: int

type_synonym cref = nat

record procref =
  pr_ID :: string
  pr_IsInit :: bool

record containerProcess =
  cp_Container :: cref
  cp_Process :: procref

record earlyExitDetector =
  det_nextSubID :: nat
  det_active :: "nat list"
  det_exits :: "nat \<Rightarrow> int \<Rightarrow> rexit list"

record containerExitState =
  ces_runningExecs :: int
  ces_execWaiter :: "nat option"
  ces_initExit :: "rexit option"

type_synonym exitCoordinator = "cref \<rightharpoonup> containerExitState"
type_synonym processRegistry = "int \<rightharpoonup> containerProcess list"

text \<open>Waiter channels are numbered as they are made; \<open>et_closed\<close> are the closed ones.\<close>

record exitTracker =
  et_detector :: earlyExitDetector
  et_containers :: exitCoordinator
  et_running :: processRegistry
  et_nextChan :: nat
  et_closed :: "nat list"

section \<open>Early exits\<close>

definition newEarlyExitDetector :: earlyExitDetector where
  "newEarlyExitDetector = \<lparr>det_nextSubID = 0, det_active = [], det_exits = \<lambda>_ _. []\<rparr>"

definition det_subscribe :: "earlyExitDetector \<Rightarrow> nat \<times> earlyExitDetector" where
  "det_subscribe d =
     (let subID = det_nextSubID d + 1
      in (subID,
          d\<lparr>det_nextSubID := subID, det_active := subID # det_active d,
            det_exits := (det_exits d)(subID := (\<lambda>_. []))\<rparr>))"

definition det_notifyExit :: "rexit \<Rightarrow> earlyExitDetector \<Rightarrow> earlyExitDetector" where
  "det_notifyExit e d =
     d\<lparr>det_exits := (\<lambda>sub. if sub \<in> set (det_active d)
          then (det_exits d sub)(xe_Pid e := det_exits d sub (xe_Pid e) @ [e])
          else det_exits d sub)\<rparr>"

definition det_remove :: "nat \<Rightarrow> earlyExitDetector \<Rightarrow> earlyExitDetector" where
  "det_remove sub d = d\<lparr>det_active := filter (\<lambda>s. s \<noteq> sub) (det_active d)\<rparr>"

definition sub_complete :: "nat \<Rightarrow> int \<Rightarrow> earlyExitDetector \<Rightarrow> rexit list \<times> earlyExitDetector" where
  "sub_complete sub pid d = (let d1 = det_remove sub d in (det_exits d1 sub pid, d1))"

definition sub_cancel :: "nat \<Rightarrow> earlyExitDetector \<Rightarrow> earlyExitDetector" where
  "sub_cancel sub d = det_remove sub d"

section \<open>Init and exec exits\<close>

definition getOrCreateState :: "cref \<Rightarrow> exitCoordinator \<Rightarrow> containerExitState" where
  "getOrCreateState c m =
     (case m c of
        Some st \<Rightarrow> st
      | None \<Rightarrow> \<lparr>ces_runningExecs = 0, ces_execWaiter = None, ces_initExit = None\<rparr>)"

definition incrementExecCount :: "cref \<Rightarrow> exitCoordinator \<Rightarrow> exitCoordinator" where
  "incrementExecCount c m =
     (let st = getOrCreateState c m
      in m(c \<mapsto> st\<lparr>ces_runningExecs := ces_runningExecs st + 1\<rparr>))"

definition stashInitExit :: "cref \<Rightarrow> rexit \<Rightarrow> exitCoordinator \<Rightarrow> exitCoordinator" where
  "stashInitExit c e m = m(c \<mapsto> (getOrCreateState c m)\<lparr>ces_initExit := Some e\<rparr>)"

definition getInitExit :: "cref \<Rightarrow> exitCoordinator \<Rightarrow> rexit option \<times> exitCoordinator" where
  "getInitExit c m =
     (case m c of
        None \<Rightarrow> (None, m)
      | Some st \<Rightarrow>
          (case ces_initExit st of
             None \<Rightarrow> (None, m)
           | Some e \<Rightarrow> (Some e, m(c \<mapsto> st\<lparr>ces_initExit := None\<rparr>))))"

definition initHasExited :: "cref \<Rightarrow> exitCoordinator \<Rightarrow> bool" where
  "initHasExited c m = (case m c of None \<Rightarrow> False | Some st \<Rightarrow> ces_initExit st \<noteq> None)"

section \<open>Running processes\<close>

definition reg_lookup :: "processRegistry \<Rightarrow> int \<Rightarrow> containerProcess list" where
  "reg_lookup r pid = (case r pid of None \<Rightarrow> [] | Some cps \<Rightarrow> cps)"

definition reg_add :: "int \<Rightarrow> containerProcess \<Rightarrow> processRegistry \<Rightarrow> processRegistry" where
  "reg_add pid cp r = r(pid \<mapsto> reg_lookup r pid @ [cp])"

definition removeByPID :: "int \<Rightarrow> processRegistry \<Rightarrow> containerProcess list \<times> processRegistry" where
  "removeByPID pid r = (reg_lookup r pid, r(pid := None))"

definition dropContainer :: "cref \<Rightarrow> containerProcess list \<Rightarrow> containerProcess list option" where
  "dropContainer c cps =
     (let remaining = filter (\<lambda>cp. cp_Container cp \<noteq> c) cps
      in if remaining \<noteq> [] then Some remaining else None)"

definition removeByContainer :: "int \<Rightarrow> cref \<Rightarrow> processRegistry \<Rightarrow> processRegistry" where
  "removeByContainer pid c r =
     (if reg_lookup r pid = [] then r else r(pid := dropContainer c (reg_lookup r pid)))"

definition cleanupContainer :: "cref \<Rightarrow> processRegistry \<Rightarrow> processRegistry" where
  "cleanupContainer c r = (\<lambda>pid. case r pid of None \<Rightarrow> None | Some cps \<Rightarrow> dropContainer c cps)"

section \<open>The tracker\<close>

definition newExitTracker :: exitTracker where
  "newExitTracker =
     \<lparr>et_detector = newEarlyExitDetector, et_containers = (\<lambda>_. None), et_running = (\<lambda>_. None),
      et_nextChan = 0, et_closed = []\<rparr>"

text \<open>\<open>Subscribe\<close> for a container that is restarted gets the pid of its init process.\<close>

definition Subscribe :: "(cref \<times> int) option \<Rightarrow> exitTracker \<Rightarrow> nat \<times> exitTracker" where
  "Subscribe c t =
     (let (sub, d) = det_subscribe (et_detector t);
          t1 = t\<lparr>et_detector := d\<rparr>
      in case c of
           None \<Rightarrow> (sub, t1)
         | Some (cr, pid) \<Rightarrow> (sub, t1\<lparr>et_running := removeByContainer pid cr (et_running t1)\<rparr>))"

fun stashInits :: "rexit \<Rightarrow> containerProcess list \<Rightarrow> exitCoordinator \<Rightarrow> exitCoordinator" where
  "stashInits e [] m = m"
| "stashInits e (cp # cps) m =
     stashInits e cps
       (if pr_IsInit (cp_Process cp) then stashInitExit (cp_Container cp) e m else m)"

definition NotifyExit :: "rexit \<Rightarrow> exitTracker \<Rightarrow> containerProcess list \<times> exitTracker" where
  "NotifyExit e t =
     (let d = det_notifyExit e (et_detector t);
          (cps, r) = removeByPID (xe_Pid e) (et_running t)
      in (cps, t\<lparr>et_detector := d, et_running := r,
                et_containers := stashInits e cps (et_containers t)\<rparr>))"

definition ShouldDelayInitExit :: "cref \<Rightarrow> exitTracker \<Rightarrow> nat option \<times> exitTracker" where
  "ShouldDelayInitExit c t =
     (case et_containers t c of
        None \<Rightarrow> (None, t)
      | Some st \<Rightarrow>
          if ces_runningExecs st = 0 then (None, t)
          else
            (let waitChan = et_nextChan t
             in (Some waitChan,
                 t\<lparr>et_nextChan := waitChan + 1,
                   et_containers := (et_containers t)(c \<mapsto> st\<lparr>ces_execWaiter := Some waitChan\<rparr>)\<rparr>)))"

definition NotifyExecExit :: "cref \<Rightarrow> exitTracker \<Rightarrow> exitTracker" where
  "NotifyExecExit c t =
     (case et_containers t c of
        None \<Rightarrow> t
      | Some st \<Rightarrow>
          (let st1 = st\<lparr>ces_runningExecs := ces_runningExecs st - 1\<rparr>
           in if ces_runningExecs st1 > 0
              then t\<lparr>et_containers := (et_containers t)(c \<mapsto> st1)\<rparr>
              else (case ces_execWaiter st1 of
                      None \<Rightarrow> t\<lparr>et_containers := (et_containers t)(c \<mapsto> st1)\<rparr>
                    | Some ch \<Rightarrow>
                        t\<lparr>et_closed := ch # et_closed t,
                          et_containers := (et_containers t)(c \<mapsto> st1\<lparr>ces_execWaiter := None\<rparr>)\<rparr>)))"

definition DecrementExecCount :: "cref \<Rightarrow> exitTracker \<Rightarrow> exitTracker" where
  "DecrementExecCount c t = NotifyExecExit c t"

definition GetInitExit :: "cref \<Rightarrow> exitTracker \<Rightarrow> rexit option \<times> exitTracker" where
  "GetInitExit c t =
     (let (e, m) = getInitExit c (et_containers t) in (e, t\<lparr>et_containers := m\<rparr>))"

definition InitHasExited :: "cref \<Rightarrow> exitTracker \<Rightarrow> bool" where
  "InitHasExited c t = initHasExited c (et_containers t)"

definition Cleanup :: "cref \<Rightarrow> exitTracker \<Rightarrow> exitTracker" where
  "Cleanup c t =
     t\<lparr>et_containers := (et_containers t)(c := None),
       et_running := cleanupContainer c (et_running t)\<rparr>"

text \<open>\<open>HandleStart\<close>: complete the subscription, then register the process unless it has
  already exited. The two parts take different locks.\<close>

definition completeSub :: "nat \<Rightarrow> int \<Rightarrow> exitTracker \<Rightarrow> rexit list \<times> exitTracker" where
  "completeSub sub pid t =
     (let (ees, d) = sub_complete sub pid (et_detector t) in (ees, t\<lparr>et_detector := d\<rparr>))"

definition registerStarted :: "cref \<Rightarrow> procref \<Rightarrow> int \<Rightarrow> exitTracker \<Rightarrow> exitTracker" where
  "registerStarted c p pid t =
     (let t1 = t\<lparr>et_running := reg_add pid \<lparr>cp_Container = c, cp_Process = p\<rparr> (et_running t)\<rparr>
      in if \<not> pr_IsInit p
         then t1\<lparr>et_containers := incrementExecCount c (et_containers t1)\<rparr> else t1)"

definition HandleStart ::
  "nat \<Rightarrow> cref \<Rightarrow> procref \<Rightarrow> int \<Rightarrow> exitTracker \<Rightarrow> rexit list \<times> exitTracker" where
  "HandleStart sub c p pid t =
     (let (earlyExits, t1) = completeSub sub pid t
      in if pid = 0 \<or> length earlyExits > 0 then (earlyExits, t1)
         else ([], registerStarted c p pid t1))"

definition CancelSub :: "nat \<Rightarrow> exitTracker \<Rightarrow> exitTracker" where
  "CancelSub sub t = t\<lparr>et_detector := sub_cancel sub (et_detector t)\<rparr>"

section \<open>The service\<close>

datatype task_event = TaskExit cref procref rexit

text \<open>
  The events sent so far, the \<open>SetExited\<close> and \<open>KillAll\<close> calls made on processes, and the
  goroutines that wait on a channel to publish an init exit. \<open>sv_killAll\<close> is the answer of
  \<open>ShouldKillAllOnExit\<close> for each container; \<open>sv_gone\<close> are the containers that were deleted.
\<close>

record tsvc =
  sv_tracker :: exitTracker
  sv_events :: "task_event list"
  sv_setExited :: "(cref \<times> procref \<times> int) list"
  sv_killAll :: "cref \<Rightarrow> bool"
  sv_killed :: "cref list"
  sv_waiting :: "(nat \<times> rexit \<times> cref \<times> procref) list"
  sv_gone :: "cref list"

definition newService :: "(cref \<Rightarrow> bool) \<Rightarrow> tsvc" where
  "newService killAll =
     \<lparr>sv_tracker = newExitTracker, sv_events = [], sv_setExited = [], sv_killAll = killAll,
      sv_killed = [], sv_waiting = [], sv_gone = []\<rparr>"

definition handleProcessExit :: "rexit \<Rightarrow> cref \<Rightarrow> procref \<Rightarrow> tsvc \<Rightarrow> tsvc" where
  "handleProcessExit e c p s =
     (let s1 = s\<lparr>sv_setExited := sv_setExited s @ [(c, p, xe_Status e)],
                 sv_events := sv_events s @ [TaskExit c p e]\<rparr>
      in if \<not> pr_IsInit p then s1\<lparr>sv_tracker := NotifyExecExit c (sv_tracker s1)\<rparr> else s1)"

definition handleInitExit :: "rexit \<Rightarrow> cref \<Rightarrow> procref \<Rightarrow> tsvc \<Rightarrow> tsvc" where
  "handleInitExit e c p s =
     (let s0 = (if sv_killAll s c then s\<lparr>sv_killed := sv_killed s @ [c]\<rparr> else s);
          (delay, t) = ShouldDelayInitExit c (sv_tracker s0);
          s1 = s0\<lparr>sv_tracker := t\<rparr>
      in case delay of
           None \<Rightarrow> handleProcessExit e c p s1
         | Some ch \<Rightarrow> s1\<lparr>sv_waiting := sv_waiting s1 @ [(ch, e, c, p)]\<rparr>)"

fun handleExits :: "rexit \<Rightarrow> containerProcess list \<Rightarrow> tsvc \<Rightarrow> tsvc" where
  "handleExits e [] s = s"
| "handleExits e (cp # cps) s =
     handleExits e cps
       (if pr_IsInit (cp_Process cp)
        then handleInitExit e (cp_Container cp) (cp_Process cp) s
        else handleProcessExit e (cp_Container cp) (cp_Process cp) s)"

text \<open>One iteration of the \<open>processExits\<close> loop.\<close>

definition processExit :: "rexit \<Rightarrow> tsvc \<Rightarrow> tsvc" where
  "processExit e s =
     (let (cps, t) = NotifyExit e (sv_tracker s) in handleExits e cps (s\<lparr>sv_tracker := t\<rparr>))"

text \<open>The goroutine of \<open>handleInitExit\<close>: it goes on once its channel is closed.\<close>

definition wakeWaiter :: "nat \<Rightarrow> tsvc \<Rightarrow> tsvc" where
  "wakeWaiter i s =
     (if i < length (sv_waiting s) \<and> fst (sv_waiting s ! i) \<in> set (et_closed (sv_tracker s))
      then (case sv_waiting s ! i of
              (ch, e, c, p) \<Rightarrow>
                handleProcessExit e c p
                  (s\<lparr>sv_waiting := take i (sv_waiting s) @ drop (Suc i) (sv_waiting s)\<rparr>))
      else s)"

definition preStart :: "(cref \<times> int) option \<Rightarrow> tsvc \<Rightarrow> nat \<times> tsvc" where
  "preStart c s = (let (sub, t) = Subscribe c (sv_tracker s) in (sub, s\<lparr>sv_tracker := t\<rparr>))"

fun handleEarly :: "rexit list \<Rightarrow> cref \<Rightarrow> procref \<Rightarrow> tsvc \<Rightarrow> tsvc" where
  "handleEarly [] c p s = s"
| "handleEarly (ee # ees) c p s = handleEarly ees c p (handleProcessExit ee c p s)"

definition handleStarted :: "nat \<Rightarrow> cref \<Rightarrow> procref \<Rightarrow> int \<Rightarrow> tsvc \<Rightarrow> tsvc" where
  "handleStarted sub c p pid s =
     (let (earlyExits, t) = HandleStart sub c p pid (sv_tracker s)
      in handleEarly earlyExits c p (s\<lparr>sv_tracker := t\<rparr>))"

definition cancelStart :: "nat \<Rightarrow> tsvc \<Rightarrow> tsvc" where
  "cancelStart sub s = s\<lparr>sv_tracker := CancelSub sub (sv_tracker s)\<rparr>"

text \<open>The failure path of \<open>service.Start\<close> for an exec, and the end of \<open>service.Delete\<close>.\<close>

definition startExecFailed :: "nat \<Rightarrow> cref \<Rightarrow> procref \<Rightarrow> int \<Rightarrow> tsvc \<Rightarrow> tsvc" where
  "startExecFailed sub c p pid s =
     handleStarted sub c p pid (s\<lparr>sv_tracker := DecrementExecCount c (sv_tracker s)\<rparr>)"

definition deleteContainer :: "cref \<Rightarrow> tsvc \<Rightarrow> tsvc" where
  "deleteContainer c s =
     s\<lparr>sv_tracker := Cleanup c (sv_tracker s), sv_gone := c # sv_gone s\<rparr>"

section \<open>Counting\<close>

text \<open>The exec processes of a container in a list, in the registry, and the count the
  coordinator keeps.\<close>

definition execsOf :: "cref \<Rightarrow> containerProcess list \<Rightarrow> nat" where
  "execsOf c cps = length (filter (\<lambda>cp. cp_Container cp = c \<and> \<not> pr_IsInit (cp_Process cp)) cps)"

definition regExecs :: "processRegistry \<Rightarrow> cref \<Rightarrow> nat" where
  "regExecs r c = (\<Sum>pid \<in> dom r. execsOf c (reg_lookup r pid))"

definition execCount :: "exitCoordinator \<Rightarrow> cref \<Rightarrow> int" where
  "execCount m c = (case m c of None \<Rightarrow> 0 | Some st \<Rightarrow> ces_runningExecs st)"

lemma execsOf_simps [simp]:
  "execsOf c [] = 0"
  "execsOf c (cp # cps) =
     (if cp_Container cp = c \<and> \<not> pr_IsInit (cp_Process cp) then 1 else 0) + execsOf c cps"
  "execsOf c (xs @ ys) = execsOf c xs + execsOf c ys"
  by (simp_all add: execsOf_def)

lemma reg_lookup_upd:
  "reg_lookup (r(pid := v)) x = (if x = pid then (case v of None \<Rightarrow> [] | Some l \<Rightarrow> l) else reg_lookup r x)"
  by (simp add: reg_lookup_def)

lemma regExecs_superset:
  assumes "finite D" "dom r \<subseteq> D"
  shows "regExecs r c = (\<Sum>pid \<in> D. execsOf c (reg_lookup r pid))"
  unfolding regExecs_def
  by (rule sum.mono_neutral_left) (use assms in \<open>auto simp: reg_lookup_def split: option.splits\<close>)

lemma regExecs_upd:
  assumes "finite (dom r)"
  shows "regExecs (r(pid := v)) c + execsOf c (reg_lookup r pid)
       = regExecs r c + execsOf c (case v of None \<Rightarrow> [] | Some l \<Rightarrow> l)"
proof -
  let ?D = "insert pid (dom r)"
  have fin: "finite ?D" using assms by simp
  have "regExecs r c = (\<Sum>x \<in> ?D. execsOf c (reg_lookup r x))"
    by (rule regExecs_superset [OF fin]) auto
  also have "\<dots> = execsOf c (reg_lookup r pid) + (\<Sum>x \<in> ?D - {pid}. execsOf c (reg_lookup r x))"
    by (rule sum.remove [OF fin]) simp
  finally have a: "regExecs r c
      = execsOf c (reg_lookup r pid) + (\<Sum>x \<in> ?D - {pid}. execsOf c (reg_lookup r x))" .
  have "regExecs (r(pid := v)) c = (\<Sum>x \<in> ?D. execsOf c (reg_lookup (r(pid := v)) x))"
    by (rule regExecs_superset [OF fin]) auto
  also have "\<dots> = execsOf c (reg_lookup (r(pid := v)) pid)
      + (\<Sum>x \<in> ?D - {pid}. execsOf c (reg_lookup (r(pid := v)) x))"
    by (rule sum.remove [OF fin]) simp
  also have "(\<Sum>x \<in> ?D - {pid}. execsOf c (reg_lookup (r(pid := v)) x))
      = (\<Sum>x \<in> ?D - {pid}. execsOf c (reg_lookup r x))"
    by (rule sum.cong) (auto simp: reg_lookup_upd)
  finally have b: "regExecs (r(pid := v)) c = execsOf c (case v of None \<Rightarrow> [] | Some l \<Rightarrow> l)
      + (\<Sum>x \<in> ?D - {pid}. execsOf c (reg_lookup r x))"
    by (simp only: reg_lookup_upd simp_thms if_True)
  show ?thesis unfolding a b by (simp only: ac_simps)
qed

lemma regExecs_add:
  "finite (dom r) \<Longrightarrow>
     regExecs (reg_add pid cp r) c
       = regExecs r c + (if cp_Container cp = c \<and> \<not> pr_IsInit (cp_Process cp) then 1 else 0)"
  using regExecs_upd [of r pid "Some (reg_lookup r pid @ [cp])" c] by (simp add: reg_add_def)

lemma regExecs_removeByPID:
  "finite (dom r) \<Longrightarrow> regExecs (r(pid := None)) c + execsOf c (reg_lookup r pid) = regExecs r c"
  using regExecs_upd [of r pid None c] by simp

lemma execsOf_dropContainer:
  "execsOf c' (case dropContainer c cps of None \<Rightarrow> [] | Some l \<Rightarrow> l)
     = (if c' = c then 0 else execsOf c' cps)"
proof -
  have "(case dropContainer c cps of None \<Rightarrow> [] | Some l \<Rightarrow> l)
      = filter (\<lambda>cp. cp_Container cp \<noteq> c) cps"
    by (simp add: dropContainer_def Let_def)
  then show ?thesis by (auto simp: execsOf_def intro: arg_cong [where f = length] filter_cong)
qed

lemma regExecs_cleanup:
  assumes "finite (dom r)"
  shows "regExecs (cleanupContainer c r) c' = (if c' = c then 0 else regExecs r c')"
proof -
  have "dom (cleanupContainer c r) \<subseteq> dom r"
    by (auto simp: cleanupContainer_def split: option.splits)
  moreover have "reg_lookup (cleanupContainer c r) pid
      = (case dropContainer c (reg_lookup r pid) of None \<Rightarrow> [] | Some l \<Rightarrow> l)" for pid
    by (auto simp: reg_lookup_def cleanupContainer_def dropContainer_def split: option.splits)
  ultimately show ?thesis
    using regExecs_superset [OF assms, of "cleanupContainer c r" c'] regExecs_superset [OF assms, of r c']
    by (simp add: execsOf_dropContainer)
qed

lemma execCount_increment:
  "execCount (incrementExecCount c m) c' = execCount m c' + (if c' = c then 1 else 0)"
  by (simp add: incrementExecCount_def execCount_def getOrCreateState_def split: option.splits)

lemma initHasExited_increment: "initHasExited c' (incrementExecCount c m) = initHasExited c' m"
  by (simp add: incrementExecCount_def initHasExited_def getOrCreateState_def split: option.splits)

lemma stashInitExit_simps:
  "execCount (stashInitExit c e m) c' = execCount m c'"
  "initHasExited c' (stashInitExit c e m) \<longleftrightarrow> c' = c \<or> initHasExited c' m"
  by (simp_all add: stashInitExit_def execCount_def initHasExited_def getOrCreateState_def
      split: option.splits)

lemma stashInits_simps:
  "execCount (stashInits e cps m) c = execCount m c"
  "initHasExited c (stashInits e cps m) \<longleftrightarrow>
     initHasExited c m \<or> (\<exists>cp \<in> set cps. pr_IsInit (cp_Process cp) \<and> cp_Container cp = c)"
  by (induction cps arbitrary: m) (auto simp: stashInitExit_simps)

section \<open>Reachable states\<close>

text \<open>
  The steps of the service. A start may be announced at any time, but the rule for a
  completed start covers the starts that are not overtaken by the process's own exit, and
  \<open>service.Start\<close> refuses an exec once the init process has exited. A container is
  restarted (\<open>preStart\<close> with a container) when no exec of it has the pid of its init
  process, and nothing is started in a deleted container.
\<close>

inductive reach :: "tsvc \<Rightarrow> bool" where
  reach_init: "reach (newService killAll)"
| reach_exit: "reach s \<Longrightarrow> reach (processExit e s)"
| reach_wake: "reach s \<Longrightarrow> reach (wakeWaiter i s)"
| reach_pre: "reach s \<Longrightarrow>
    (case c of None \<Rightarrow> True
     | Some (cr, pid) \<Rightarrow> execsOf cr (reg_lookup (et_running (sv_tracker s)) pid) = 0) \<Longrightarrow>
    reach (snd (preStart c s))"
| reach_started: "reach s \<Longrightarrow> det_exits (et_detector (sv_tracker s)) sub pid = [] \<Longrightarrow> pid \<noteq> 0 \<Longrightarrow>
    pr_IsInit p \<or> \<not> InitHasExited c (sv_tracker s) \<Longrightarrow> c \<notin> set (sv_gone s) \<Longrightarrow>
    reach (handleStarted sub c p pid s)"
| reach_cancel: "reach s \<Longrightarrow> reach (cancelStart sub s)"
| reach_delete: "reach s \<Longrightarrow> reach (deleteContainer c s)"

fun isInitExit :: "cref \<Rightarrow> task_event \<Rightarrow> bool" where
  "isInitExit c (TaskExit c' p e) = (c' = c \<and> pr_IsInit p)"

fun isExecExit :: "cref \<Rightarrow> task_event \<Rightarrow> bool" where
  "isExecExit c (TaskExit c' p e) = (c' = c \<and> \<not> pr_IsInit p)"

definition over :: "tsvc \<Rightarrow> cref \<Rightarrow> bool" where
  "over s c \<longleftrightarrow> c \<in> set (sv_gone s) \<or> InitHasExited c (sv_tracker s)"

text \<open>The invariant, with \<open>k c\<close> exec exits of each container taken from the registry but
  not yet handled.\<close>

definition chans_ok :: "tsvc \<Rightarrow> bool" where
  "chans_ok s \<longleftrightarrow>
     (\<forall>ch \<in> set (et_closed (sv_tracker s)). ch < et_nextChan (sv_tracker s)) \<and>
     (\<forall>(ch, e, c, p) \<in> set (sv_waiting s). ch < et_nextChan (sv_tracker s)) \<and>
     (\<forall>c st ch. et_containers (sv_tracker s) c = Some st \<longrightarrow> ces_execWaiter st = Some ch \<longrightarrow>
        ch < et_nextChan (sv_tracker s) \<and>
        (\<forall>(ch', e, c', p) \<in> set (sv_waiting s). ch' = ch \<longrightarrow> c' = c))"

definition quietC :: "(cref \<Rightarrow> nat) \<Rightarrow> tsvc \<Rightarrow> cref \<Rightarrow> bool" where
  "quietC k s c \<longleftrightarrow> over s c \<and> regExecs (et_running (sv_tracker s)) c = 0 \<and> k c = 0"

definition counts_ok :: "(cref \<Rightarrow> nat) \<Rightarrow> tsvc \<Rightarrow> bool" where
  "counts_ok k s \<longleftrightarrow>
     finite (dom (et_running (sv_tracker s))) \<and>
     (\<forall>c. execCount (et_containers (sv_tracker s)) c
            = int (regExecs (et_running (sv_tracker s)) c + k c))"

definition waits_for_execs :: "(cref \<Rightarrow> nat) \<Rightarrow> tsvc \<Rightarrow> bool" where
  "waits_for_execs k s \<longleftrightarrow>
     (\<forall>(ch, e, c, p) \<in> set (sv_waiting s).
        pr_IsInit p \<and> over s c \<and> (ch \<in> set (et_closed (sv_tracker s)) \<longrightarrow> quietC k s c))"

definition init_last :: "task_event list \<Rightarrow> bool" where
  "init_last es \<longleftrightarrow> sorted_wrt (\<lambda>a b. \<forall>c. \<not> (isInitExit c a \<and> isExecExit c b)) es"

definition published_ok :: "(cref \<Rightarrow> nat) \<Rightarrow> tsvc \<Rightarrow> bool" where
  "published_ok k s \<longleftrightarrow>
     (\<forall>c. (\<exists>ev \<in> set (sv_events s). isInitExit c ev) \<longrightarrow> quietC k s c) \<and> init_last (sv_events s)"

definition svc_inv :: "(cref \<Rightarrow> nat) \<Rightarrow> tsvc \<Rightarrow> bool" where
  "svc_inv k s \<longleftrightarrow> chans_ok s \<and> counts_ok k s \<and> waits_for_execs k s \<and> published_ok k s"

lemmas svc_inv_defs = svc_inv_def chans_ok_def counts_ok_def waits_for_execs_def published_ok_def

lemma chans_okD:
  assumes "chans_ok s"
  shows "ch \<in> set (et_closed (sv_tracker s)) \<Longrightarrow> ch < et_nextChan (sv_tracker s)"
    and "(ch, e, c, p) \<in> set (sv_waiting s) \<Longrightarrow> ch < et_nextChan (sv_tracker s)"
    and "et_containers (sv_tracker s) c = Some st \<Longrightarrow> ces_execWaiter st = Some ch \<Longrightarrow>
      ch < et_nextChan (sv_tracker s)"
    and "et_containers (sv_tracker s) c = Some st \<Longrightarrow> ces_execWaiter st = Some ch \<Longrightarrow>
      (ch, e, c', p) \<in> set (sv_waiting s) \<Longrightarrow> c' = c"
  using assms unfolding chans_ok_def by fast+

text \<open>A tracker whose waiters all come from the old one keeps the channels in order.\<close>

lemma chans_ok_tracker:
  assumes ok: "chans_ok s" and n: "et_nextChan t = et_nextChan (sv_tracker s)"
    and cl: "\<And>ch. ch \<in> set (et_closed t) \<Longrightarrow> ch < et_nextChan (sv_tracker s)"
    and w: "\<And>c st ch. et_containers t c = Some st \<Longrightarrow> ces_execWaiter st = Some ch \<Longrightarrow>
      \<exists>st0. et_containers (sv_tracker s) c = Some st0 \<and> ces_execWaiter st0 = Some ch"
  shows "chans_ok (s\<lparr>sv_tracker := t\<rparr>)"
  unfolding chans_ok_def
proof (intro conjI ballI allI impI)
  fix c st ch
  assume "et_containers (sv_tracker (s\<lparr>sv_tracker := t\<rparr>)) c = Some st" "ces_execWaiter st = Some ch"
  then obtain st0 where st0: "et_containers (sv_tracker s) c = Some st0" "ces_execWaiter st0 = Some ch"
    using w [of c st ch] by auto
  from chans_okD(3) [OF ok st0] n
  show "ch < et_nextChan (sv_tracker (s\<lparr>sv_tracker := t\<rparr>))" by simp
  fix x assume "x \<in> set (sv_waiting (s\<lparr>sv_tracker := t\<rparr>))"
  then show "case x of (ch', e, c', p) \<Rightarrow> ch' = ch \<longrightarrow> c' = c"
    using chans_okD(4) [OF ok st0] by (auto split: prod.splits)
qed (use chans_okD [OF ok] n cl in auto)

lemma init_last_snoc:
  "init_last (es @ [ev]) \<longleftrightarrow>
     init_last es \<and> (\<forall>c. isExecExit c ev \<longrightarrow> (\<forall>x \<in> set es. \<not> isInitExit c x))"
  by (auto simp: init_last_def sorted_wrt_append)

subsection \<open>One exit\<close>

text \<open>The effect of \<open>NotifyExecExit\<close> on the parts of the invariant.\<close>

lemma NotifyExecExit_simps [simp]:
  "et_running (NotifyExecExit c t) = et_running t"
  "et_nextChan (NotifyExecExit c t) = et_nextChan t"
  "InitHasExited c' (NotifyExecExit c t) = InitHasExited c' t"
  by (auto simp: NotifyExecExit_def InitHasExited_def initHasExited_def Let_def split: option.splits)

lemma execCount_NotifyExecExit:
  "execCount (et_containers (NotifyExecExit c t)) c'
     = execCount (et_containers t) c' - (if c' = c \<and> et_containers t c \<noteq> None then 1 else 0)"
  by (auto simp: NotifyExecExit_def execCount_def Let_def split: option.splits)

text \<open>A channel it closes belonged to the container, whose count has reached zero.\<close>

lemma NotifyExecExit_closed:
  assumes "ch \<in> set (et_closed (NotifyExecExit c t))" "ch \<notin> set (et_closed t)"
  shows "\<exists>st. et_containers t c = Some st \<and> ces_execWaiter st = Some ch \<and> ces_runningExecs st \<le> 1"
  using assms by (auto simp: NotifyExecExit_def Let_def split: option.splits if_splits)

lemma NotifyExecExit_keeps: "set (et_closed t) \<subseteq> set (et_closed (NotifyExecExit c t))"
  by (auto simp: NotifyExecExit_def Let_def split: option.splits)

lemma NotifyExecExit_waiter:
  assumes "et_containers (NotifyExecExit c t) c' = Some st" "ces_execWaiter st = Some ch"
  shows "\<exists>st0. et_containers t c' = Some st0 \<and> ces_execWaiter st0 = Some ch"
  using assms by (auto simp: NotifyExecExit_def Let_def split: option.splits if_splits)

lemma handleProcessExit_exec:
  "\<not> pr_IsInit p \<Longrightarrow> handleProcessExit e c p s =
     s\<lparr>sv_setExited := sv_setExited s @ [(c, p, xe_Status e)],
       sv_events := sv_events s @ [TaskExit c p e],
       sv_tracker := NotifyExecExit c (sv_tracker s)\<rparr>"
  by (simp add: handleProcessExit_def)

lemma handleProcessExit_init:
  "pr_IsInit p \<Longrightarrow> handleProcessExit e c p s =
     s\<lparr>sv_setExited := sv_setExited s @ [(c, p, xe_Status e)],
       sv_events := sv_events s @ [TaskExit c p e]\<rparr>"
  by (simp add: handleProcessExit_def)

lemma exec_exit_chans:
  assumes "chans_ok s" "\<not> pr_IsInit p"
  shows "chans_ok (handleProcessExit e c p s)"
proof -
  let ?t = "sv_tracker s" and ?t' = "NotifyExecExit c (sv_tracker s)"
  have "ch < et_nextChan ?t" if "ch \<in> set (et_closed ?t')" for ch
    using that NotifyExecExit_closed [of ch c ?t] chans_okD(1,3) [OF assms(1)] by blast
  then have "chans_ok (s\<lparr>sv_tracker := ?t'\<rparr>)"
    by (intro chans_ok_tracker [OF assms(1)]) (auto dest: NotifyExecExit_waiter)
  then show ?thesis
    by (simp add: handleProcessExit_exec [OF assms(2)] chans_ok_def)
qed

lemma exec_exit_quiet:
  assumes "\<not> pr_IsInit p" "k c = Suc n" "quietC k s c'"
  shows "quietC (k(c := n)) (handleProcessExit e c p s) c'"
  using assms by (auto simp: quietC_def over_def handleProcessExit_exec)

lemma exec_exit_inv:
  assumes inv: "svc_inv k s" and p: "\<not> pr_IsInit p" and k: "k c = Suc n"
  shows "svc_inv (k(c := n)) (handleProcessExit e c p s)"
proof -
  let ?s = "handleProcessExit e c p s"
  have cnt: "execCount (et_containers (sv_tracker s)) c'
      = int (regExecs (et_running (sv_tracker s)) c' + k c')"
    and fin: "finite (dom (et_running (sv_tracker s)))" for c'
    using inv by (simp_all add: svc_inv_def counts_ok_def)
  have some: "et_containers (sv_tracker s) c \<noteq> None"
    using cnt [of c] k by (auto simp: execCount_def split: option.splits)
  then have "counts_ok (k(c := n)) ?s"
    using cnt fin k by (simp add: counts_ok_def handleProcessExit_exec [OF p] execCount_NotifyExecExit)
  moreover have "waits_for_execs (k(c := n)) ?s"
    unfolding waits_for_execs_def
  proof (clarify, intro conjI impI)
    fix ch x c' q assume w: "(ch, x, c', q) \<in> set (sv_waiting ?s)"
    then have w0: "(ch, x, c', q) \<in> set (sv_waiting s)"
      by (simp add: handleProcessExit_exec [OF p])
    with inv show "pr_IsInit q" by (auto simp: svc_inv_def waits_for_execs_def)
    from w0 inv show ov: "over ?s c'"
      by (auto simp: svc_inv_def waits_for_execs_def over_def handleProcessExit_exec [OF p])
    assume cl: "ch \<in> set (et_closed (sv_tracker ?s))"
    show "quietC (k(c := n)) ?s c'"
    proof (cases "ch \<in> set (et_closed (sv_tracker s))")
      case True
      with w0 inv have "quietC k s c'" by (auto simp: svc_inv_def waits_for_execs_def)
      then show ?thesis by (rule exec_exit_quiet [of _ k, OF p k])
    next
      case False
      with NotifyExecExit_closed [of ch c "sv_tracker s"] cl obtain st where
        st: "et_containers (sv_tracker s) c = Some st" "ces_execWaiter st = Some ch"
          "ces_runningExecs st \<le> 1" by (auto simp: handleProcessExit_exec [OF p])
      with w0 inv have "c' = c" using chans_okD(4) [of s c st ch] by (auto simp: svc_inv_def)
      moreover from st cnt [of c] k have "regExecs (et_running (sv_tracker s)) c = 0" "n = 0"
        by (simp_all add: execCount_def)
      ultimately show ?thesis
        using ov by (simp add: quietC_def handleProcessExit_exec [OF p])
    qed
  qed
  moreover have "published_ok (k(c := n)) ?s"
  proof -
    have q: "quietC k s c'" if "ev \<in> set (sv_events s)" "isInitExit c' ev" for c' ev
      using inv that by (auto simp: svc_inv_def published_ok_def)
    then have "\<not> isInitExit c ev" if "ev \<in> set (sv_events s)" for ev
      using that k by (auto simp: quietC_def)
    moreover have "init_last (sv_events s)" using inv by (simp add: svc_inv_def published_ok_def)
    moreover have "sv_events ?s = sv_events s @ [TaskExit c p e]"
      by (simp add: handleProcessExit_exec [OF p])
    ultimately show ?thesis
      using q p exec_exit_quiet [of p k c n, OF p k]
      by (fastforce simp: published_ok_def init_last_snoc)
  qed
  ultimately show ?thesis
    using inv exec_exit_chans [OF _ p] by (simp add: svc_inv_def)
qed

lemma init_exit_inv:
  assumes inv: "svc_inv k s" and p: "pr_IsInit p" and q: "quietC k s c"
  shows "svc_inv k (handleProcessExit e c p s)"
  using inv q p
  by (fastforce simp: svc_inv_defs handleProcessExit_init quietC_def over_def init_last_snoc)

lemma over_handleProcessExit [simp]: "over (handleProcessExit e c p s) c' = over s c'"
  by (cases "pr_IsInit p")
     (simp_all add: handleProcessExit_exec handleProcessExit_init over_def)

lemma svc_inv_killed [simp]: "svc_inv k (s\<lparr>sv_killed := x\<rparr>) = svc_inv k s"
  by (simp add: svc_inv_defs quietC_def over_def)

lemma ShouldDelay_cases:
  obtains
    (now) "ShouldDelayInitExit c t = (None, t)" "execCount (et_containers t) c = 0"
  | (wait) st where "et_containers t c = Some st"
      "ShouldDelayInitExit c t = (Some (et_nextChan t),
         t\<lparr>et_nextChan := et_nextChan t + 1,
           et_containers := (et_containers t)(c \<mapsto> st\<lparr>ces_execWaiter := Some (et_nextChan t)\<rparr>)\<rparr>)"
proof (cases "et_containers t c")
  case None
  then show ?thesis by (intro now) (simp_all add: ShouldDelayInitExit_def execCount_def)
next
  case (Some st)
  show ?thesis
  proof (cases "ces_runningExecs st = 0")
    case True
    with Some show ?thesis by (intro now) (simp_all add: ShouldDelayInitExit_def execCount_def)
  next
    case False
    with Some show ?thesis by (intro wait) (simp_all add: ShouldDelayInitExit_def Let_def)
  qed
qed

text \<open>An init exit that has to wait: a fresh channel, and a goroutine waiting on it.\<close>

lemma wait_inv:
  assumes inv: "svc_inv k s" and p: "pr_IsInit p" and ov: "over s c"
    and st: "et_containers (sv_tracker s) c = Some st"
  defines "n \<equiv> et_nextChan (sv_tracker s)"
  shows "svc_inv k (s\<lparr>sv_tracker := (sv_tracker s)\<lparr>et_nextChan := n + 1,
        et_containers := (et_containers (sv_tracker s))(c \<mapsto> st\<lparr>ces_execWaiter := Some n\<rparr>)\<rparr>,
      sv_waiting := sv_waiting s @ [(n, e, c, p)]\<rparr>)" (is "svc_inv k ?s")
proof -
  have init: "InitHasExited c' (sv_tracker ?s) = InitHasExited c' (sv_tracker s)" for c'
    using st by (simp add: InitHasExited_def initHasExited_def)
  then have ov': "over ?s c' = over s c'" for c' by (simp add: over_def)
  then have q: "quietC k ?s c' = quietC k s c'" for c' by (simp add: quietC_def)
  have ch: "chans_ok s" using inv by (simp add: svc_inv_def)
  have lt: "ch < n" if "(ch, x, c', q) \<in> set (sv_waiting s)" for ch x c' q
    using ch that by (auto simp: chans_ok_def n_def)
  have "n \<notin> set (et_closed (sv_tracker s))" using ch by (auto simp: chans_ok_def n_def)
  then have "waits_for_execs k ?s"
    using inv p ov ov' q by (auto simp: svc_inv_def waits_for_execs_def)
  moreover have "execCount (et_containers (sv_tracker ?s)) c'
      = execCount (et_containers (sv_tracker s)) c'" for c'
    using st by (simp add: execCount_def)
  then have "counts_ok k ?s"
    using inv by (simp add: svc_inv_def counts_ok_def)
  moreover have "published_ok k ?s"
    using inv q by (simp add: svc_inv_def published_ok_def)
  moreover have "chans_ok ?s"
    using ch lt unfolding chans_ok_def n_def
    by (auto simp: less_Suc_eq split: if_splits) fastforce+
  ultimately show ?thesis by (simp add: svc_inv_def)
qed

lemma handleInitExit_inv:
  assumes inv: "svc_inv k s" and p: "pr_IsInit p" and ov: "over s c"
  shows "svc_inv k (handleInitExit e c p s)"
proof -
  let ?s = "if sv_killAll s c then s\<lparr>sv_killed := sv_killed s @ [c]\<rparr> else s"
  have inv0: "svc_inv k ?s" and ov0: "over ?s c"
    using inv ov by (simp_all add: over_def)
  show ?thesis
  proof (cases rule: ShouldDelay_cases [of c "sv_tracker ?s"])
    case now
    have "quietC k ?s c"
      using now(2) inv0 ov0 by (simp add: svc_inv_def counts_ok_def quietC_def)
    from init_exit_inv [OF inv0 p this, of e] now(1) show ?thesis
      by (simp add: handleInitExit_def Let_def split: if_splits)
  next
    case (wait st)
    from wait_inv [OF inv0 p ov0 wait(1), of e] wait(2) show ?thesis
      by (simp add: handleInitExit_def Let_def split: if_splits)
  qed
qed

lemma over_handleInitExit [simp]: "over (handleInitExit e c p s) c' = over s c'"
proof (cases rule: ShouldDelay_cases [of c "sv_tracker s"])
  case now
  then show ?thesis
    by (simp add: handleInitExit_def Let_def) (simp add: over_def)
next
  case (wait st)
  then show ?thesis
    by (simp add: handleInitExit_def Let_def over_def InitHasExited_def initHasExited_def)
qed

lemma handleExits_inv:
  assumes "svc_inv (\<lambda>c. execsOf c cps) s"
    and "\<forall>cp \<in> set cps. pr_IsInit (cp_Process cp) \<longrightarrow> over s (cp_Container cp)"
  shows "svc_inv (\<lambda>_. 0) (handleExits e cps s)"
  using assms
proof (induction cps arbitrary: s)
  case Nil
  then show ?case by simp
next
  case (Cons cp cps)
  show ?case
  proof (cases "pr_IsInit (cp_Process cp)")
    case True
    then have "(\<lambda>c. execsOf c (cp # cps)) = (\<lambda>c. execsOf c cps)" by auto
    with Cons.prems handleInitExit_inv [OF _ True, of "\<lambda>c. execsOf c cps" s "cp_Container cp" e] True
    have "svc_inv (\<lambda>c. execsOf c cps) (handleInitExit e (cp_Container cp) (cp_Process cp) s)" by simp
    from Cons.IH [OF this] Cons.prems(2) True show ?thesis by simp
  next
    case False
    let ?k = "\<lambda>c. execsOf c (cp # cps)"
    from False have "?k (cp_Container cp) = Suc (execsOf (cp_Container cp) cps)" by simp
    from exec_exit_inv [OF Cons.prems(1) False this, of e]
    have "svc_inv (?k(cp_Container cp := execsOf (cp_Container cp) cps))
        (handleProcessExit e (cp_Container cp) (cp_Process cp) s)" .
    also have "?k(cp_Container cp := execsOf (cp_Container cp) cps) = (\<lambda>c. execsOf c cps)"
      by auto
    finally have "svc_inv (\<lambda>c. execsOf c cps)
        (handleProcessExit e (cp_Container cp) (cp_Process cp) s)" .
    from Cons.IH [OF this] Cons.prems(2) False show ?thesis by simp
  qed
qed

subsection \<open>The other steps\<close>

lemma stashInits_waiter:
  assumes "stashInits e cps m c = Some st" "ces_execWaiter st = Some ch"
  shows "\<exists>st0. m c = Some st0 \<and> ces_execWaiter st0 = Some ch"
  using assms
proof (induction cps arbitrary: m)
  case Nil
  then show ?case by simp
next
  case (Cons cp cps)
  let ?m = "if pr_IsInit (cp_Process cp) then stashInitExit (cp_Container cp) e m else m"
  from Cons obtain st1 where "?m c = Some st1" "ces_execWaiter st1 = Some ch" by auto
  then show ?case
    by (auto simp: stashInitExit_def getOrCreateState_def split: if_splits option.splits)
qed

lemma NotifyExit_inv:
  assumes inv: "svc_inv (\<lambda>_. 0) s" and n: "NotifyExit e (sv_tracker s) = (cps, t)"
  shows "svc_inv (\<lambda>c. execsOf c cps) (s\<lparr>sv_tracker := t\<rparr>)" (is "svc_inv ?k ?s")
proof -
  let ?t = "sv_tracker s"
  from n have t: "cps = reg_lookup (et_running ?t) (xe_Pid e)"
    "et_running t = (et_running ?t)(xe_Pid e := None)" "et_nextChan t = et_nextChan ?t"
    "et_closed t = et_closed ?t" "et_containers t = stashInits e cps (et_containers ?t)"
    by (auto simp: NotifyExit_def removeByPID_def Let_def)
  have fin: "finite (dom (et_running ?t))" using inv by (simp add: svc_inv_def counts_ok_def)
  have reg: "regExecs (et_running t) c + execsOf c cps = regExecs (et_running ?t) c" for c
    using regExecs_removeByPID [OF fin] t by simp
  have ov: "over ?s c" if "over s c" for c
    using that by (auto simp: over_def InitHasExited_def t stashInits_simps)
  have q: "quietC ?k ?s c" if "quietC (\<lambda>_. 0) s c" for c
    using that reg [of c] ov by (auto simp: quietC_def)
  have "chans_ok ?s"
  proof (rule chans_ok_tracker)
    show "chans_ok s" using inv by (simp add: svc_inv_def)
    then show "ch < et_nextChan ?t" if "ch \<in> set (et_closed t)" for ch
      using that chans_okD(1) by (simp add: t)
  qed (simp_all add: t(3,5) stashInits_waiter)
  moreover have "counts_ok ?k ?s"
    using inv fin reg by (simp add: svc_inv_def counts_ok_def t(5) stashInits_simps) (simp add: t(2))
  moreover have "waits_for_execs ?k ?s"
    using inv q ov by (fastforce simp: svc_inv_def waits_for_execs_def t(4))
  moreover have "published_ok ?k ?s"
    using inv q by (simp add: svc_inv_def published_ok_def)
  ultimately show ?thesis by (simp add: svc_inv_def)
qed

lemma processExit_inv: "svc_inv (\<lambda>_. 0) s \<Longrightarrow> svc_inv (\<lambda>_. 0) (processExit e s)"
proof -
  assume inv: "svc_inv (\<lambda>_. 0) s"
  obtain cps t where n: "NotifyExit e (sv_tracker s) = (cps, t)" by (cases "NotifyExit e (sv_tracker s)")
  then have "et_containers t = stashInits e cps (et_containers (sv_tracker s))"
    by (auto simp: NotifyExit_def removeByPID_def Let_def)
  then have "\<forall>cp \<in> set cps. pr_IsInit (cp_Process cp) \<longrightarrow> over (s\<lparr>sv_tracker := t\<rparr>) (cp_Container cp)"
    by (auto simp: over_def InitHasExited_def stashInits_simps)
  from handleExits_inv [OF NotifyExit_inv [OF inv n] this] n show ?thesis
    by (simp add: processExit_def)
qed

lemma wakeWaiter_inv: "svc_inv k s \<Longrightarrow> svc_inv k (wakeWaiter i s)"
proof (cases "i < length (sv_waiting s) \<and> fst (sv_waiting s ! i) \<in> set (et_closed (sv_tracker s))")
  case False
  then have "wakeWaiter i s = s" unfolding wakeWaiter_def by (rule if_not_P)
  moreover assume "svc_inv k s"
  ultimately show ?thesis by simp
next
  case True
  assume inv: "svc_inv k s"
  let ?s = "s\<lparr>sv_waiting := take i (sv_waiting s) @ drop (Suc i) (sv_waiting s)\<rparr>"
  obtain ch e c p where w: "sv_waiting s ! i = (ch, e, c, p)" by (cases "sv_waiting s ! i") auto
  with True have m: "(ch, e, c, p) \<in> set (sv_waiting s)" by (metis nth_mem)
  with True w inv have p: "pr_IsInit p" and q: "quietC k s c"
    by (fastforce simp: svc_inv_def waits_for_execs_def)+
  have sub: "set (sv_waiting ?s) \<subseteq> set (sv_waiting s)"
    by (auto dest: in_set_takeD in_set_dropD)
  have "over ?s c' = over s c'" for c' by (simp add: over_def)
  moreover from this have "quietC k ?s c' = quietC k s c'" for c' by (simp add: quietC_def)
  ultimately have "svc_inv k ?s"
    using inv sub unfolding svc_inv_defs by (simp del: sup.bounded_iff set_append) blast
  moreover have "quietC k ?s c" using q by (simp add: quietC_def over_def)
  ultimately show ?thesis using init_exit_inv [OF _ p] True w by (simp add: wakeWaiter_def)
qed

text \<open>Steps that only change the detector, or registry entries that are no execs.\<close>

lemma svc_inv_detector:
  "svc_inv k (s\<lparr>sv_tracker := (sv_tracker s)\<lparr>et_detector := d\<rparr>\<rparr>) = svc_inv k s"
  by (simp add: svc_inv_defs quietC_def over_def InitHasExited_def)

lemma svc_inv_registry:
  assumes "svc_inv k s" "finite (dom r)" "\<forall>c. regExecs r c = regExecs (et_running (sv_tracker s)) c"
  shows "svc_inv k (s\<lparr>sv_tracker := (sv_tracker s)\<lparr>et_running := r\<rparr>\<rparr>)"
  using assms by (simp add: svc_inv_defs quietC_def over_def InitHasExited_def)

lemma increment_waiter:
  assumes "incrementExecCount c m c' = Some st" "ces_execWaiter st = Some ch"
  shows "\<exists>st0. m c' = Some st0 \<and> ces_execWaiter st0 = Some ch"
  using assms
  by (auto simp: incrementExecCount_def getOrCreateState_def Let_def split: if_splits option.splits)

lemma register_exec_inv:
  assumes inv: "svc_inv k s" and p: "\<not> pr_IsInit p" and o: "\<not> over s c"
  shows "svc_inv k (s\<lparr>sv_tracker := registerStarted c p pid (sv_tracker s)\<rparr>)" (is "svc_inv k ?s")
proof -
  let ?t = "sv_tracker s" and ?t' = "registerStarted c p pid (sv_tracker s)"
  have fin: "finite (dom (et_running ?t))" using inv by (simp add: svc_inv_def counts_ok_def)
  have t: "et_running ?t' = reg_add pid \<lparr>cp_Container = c, cp_Process = p\<rparr> (et_running ?t)"
    "et_containers ?t' = incrementExecCount c (et_containers ?t)"
    "et_nextChan ?t' = et_nextChan ?t" "et_closed ?t' = et_closed ?t"
    using p by (simp_all add: registerStarted_def)
  have reg: "regExecs (et_running ?t') c' = regExecs (et_running ?t) c' + (if c' = c then 1 else 0)" for c'
    using p by (simp add: t regExecs_add [OF fin])
  have ov: "over ?s c' = over s c'" for c'
    by (simp add: over_def InitHasExited_def t initHasExited_increment)
  have q: "quietC k ?s c'" if "quietC k s c'" for c'
    using that o reg [of c'] ov by (auto simp: quietC_def)
  have "chans_ok ?s"
  proof (rule chans_ok_tracker)
    show "chans_ok s" using inv by (simp add: svc_inv_def)
    then show "ch < et_nextChan ?t" if "ch \<in> set (et_closed ?t')" for ch
      using that chans_okD(1) by (simp add: t)
  qed (simp_all add: t(2,3) increment_waiter)
  moreover have "finite (dom (et_running ?t'))" using fin by (simp add: t reg_add_def)
  then have "counts_ok k ?s"
    using inv reg by (simp add: svc_inv_def counts_ok_def t(2) execCount_increment)
  moreover have "waits_for_execs k ?s"
    using inv q ov by (fastforce simp: svc_inv_def waits_for_execs_def t(4))
  moreover have "published_ok k ?s"
    using inv q by (simp add: svc_inv_def published_ok_def)
  ultimately show ?thesis by (simp add: svc_inv_def)
qed

lemma register_init_inv:
  assumes inv: "svc_inv k s" and p: "pr_IsInit p"
  shows "svc_inv k (s\<lparr>sv_tracker := registerStarted c p pid (sv_tracker s)\<rparr>)"
proof -
  have fin: "finite (dom (et_running (sv_tracker s)))"
    using inv by (simp add: svc_inv_def counts_ok_def)
  show ?thesis
    using svc_inv_registry [OF inv, of "reg_add pid \<lparr>cp_Container = c, cp_Process = p\<rparr> (et_running (sv_tracker s))"]
      fin p by (simp add: registerStarted_def regExecs_add [OF fin]) (simp add: reg_add_def)
qed

lemma handleStarted_inv:
  assumes inv: "svc_inv k s" and ee: "det_exits (et_detector (sv_tracker s)) sub pid = []" "pid \<noteq> 0"
    and g: "pr_IsInit p \<or> \<not> over s c"
  shows "svc_inv k (handleStarted sub c p pid s)"
proof -
  let ?t = "(sv_tracker s)\<lparr>et_detector := det_remove sub (et_detector (sv_tracker s))\<rparr>"
  let ?s = "s\<lparr>sv_tracker := ?t\<rparr>"
  have "completeSub sub pid (sv_tracker s) = ([], ?t)"
    using ee by (simp add: completeSub_def sub_complete_def det_remove_def Let_def)
  then have eq: "handleStarted sub c p pid s = ?s\<lparr>sv_tracker := registerStarted c p pid (sv_tracker ?s)\<rparr>"
    using ee(2) by (simp add: handleStarted_def HandleStart_def)
  have i: "svc_inv k ?s" using inv by (simp only: svc_inv_detector)
  have "over ?s c = over s c" by (simp add: over_def InitHasExited_def)
  with g register_exec_inv [OF i, of p c pid] register_init_inv [OF i, of p c pid]
  show ?thesis unfolding eq by blast
qed

lemma preStart_inv:
  assumes inv: "svc_inv k s"
    and g: "case c of None \<Rightarrow> True
      | Some (cr, pid) \<Rightarrow> execsOf cr (reg_lookup (et_running (sv_tracker s)) pid) = 0"
  shows "svc_inv k (snd (preStart c s))"
proof -
  let ?d = "snd (det_subscribe (et_detector (sv_tracker s)))"
  let ?s = "s\<lparr>sv_tracker := (sv_tracker s)\<lparr>et_detector := ?d\<rparr>\<rparr>"
  have i: "svc_inv k ?s" using inv by (simp only: svc_inv_detector)
  have fin: "finite (dom (et_running (sv_tracker s)))"
    using inv by (simp add: svc_inv_def counts_ok_def)
  show ?thesis
  proof (cases c)
    case None
    with i show ?thesis by (simp add: preStart_def Subscribe_def det_subscribe_def Let_def)
  next
    case (Some x)
    obtain cr pid where x: "x = (cr, pid)" by (cases x)
    let ?r = "et_running (sv_tracker s)"
    have "regExecs (removeByContainer pid cr ?r) c' = regExecs ?r c'" for c'
      using regExecs_upd [OF fin, of pid "dropContainer cr (reg_lookup ?r pid)" c'] g Some x
      by (auto simp: removeByContainer_def execsOf_dropContainer split: if_splits)
    moreover have "finite (dom (removeByContainer pid cr ?r))"
      using fin by (simp add: removeByContainer_def)
    ultimately show ?thesis
      using svc_inv_registry [OF i, of "removeByContainer pid cr ?r"] Some x
      by (simp add: preStart_def Subscribe_def det_subscribe_def Let_def)
  qed
qed

lemma deleteContainer_inv:
  assumes inv: "svc_inv (\<lambda>_. 0) s"
  shows "svc_inv (\<lambda>_. 0) (deleteContainer c s)" (is "svc_inv ?k ?s")
proof -
  have fin: "finite (dom (et_running (sv_tracker s)))"
    using inv by (simp add: svc_inv_def counts_ok_def)
  have reg: "regExecs (et_running (sv_tracker ?s)) c'
      = (if c' = c then 0 else regExecs (et_running (sv_tracker s)) c')" for c'
    using regExecs_cleanup [OF fin] by (simp add: deleteContainer_def Cleanup_def)
  have ov: "over ?s c'" if "over s c'" for c'
    using that by (auto simp: over_def deleteContainer_def Cleanup_def InitHasExited_def initHasExited_def)
  have q: "quietC ?k ?s c'" if "quietC ?k s c'" for c'
    using that ov reg [of c'] by (auto simp: quietC_def)
  have "finite (dom (et_running (sv_tracker ?s)))"
    by (rule finite_subset [OF _ fin])
       (auto simp: deleteContainer_def Cleanup_def cleanupContainer_def split: option.splits)
  then have "counts_ok ?k ?s"
    using inv reg by (simp add: svc_inv_def counts_ok_def)
       (simp add: deleteContainer_def Cleanup_def execCount_def)
  moreover have "chans_ok ?s"
    using inv by (auto simp: svc_inv_def chans_ok_def deleteContainer_def Cleanup_def)
  moreover have "waits_for_execs ?k ?s"
    using inv q ov by (fastforce simp: svc_inv_def waits_for_execs_def deleteContainer_def Cleanup_def)
  moreover have "published_ok ?k ?s"
    using inv q by (simp add: svc_inv_def published_ok_def) (simp add: deleteContainer_def)
  ultimately show ?thesis by (simp add: svc_inv_def)
qed

lemma newService_inv: "svc_inv (\<lambda>_. 0) (newService f)"
  by (simp add: svc_inv_defs newService_def newExitTracker_def execCount_def regExecs_def init_last_def)

lemma reach_inv: "reach s \<Longrightarrow> svc_inv (\<lambda>_. 0) s"
proof (induction rule: reach.induct)
  case (reach_started s sub pid p c)
  then show ?case by (intro handleStarted_inv) (auto simp: over_def)
next
  case (reach_cancel s sub)
  then show ?case by (simp add: cancelStart_def CancelSub_def svc_inv_detector)
qed (auto intro: newService_inv processExit_inv wakeWaiter_inv preStart_inv deleteContainer_inv)

section \<open>Interleaving with a start\<close>

text \<open>The calls other goroutines make on the tracker while a start is in progress.\<close>

datatype track_op =
    TSubscribe "(cref \<times> int) option"
  | TNotifyExit rexit
  | THandleStart nat cref procref int
  | TCancel nat
  | TShouldDelay cref
  | TNotifyExecExit cref
  | TCleanup cref

fun track_exec :: "track_op \<Rightarrow> exitTracker \<Rightarrow> exitTracker" where
  "track_exec (TSubscribe c) t = snd (Subscribe c t)"
| "track_exec (TNotifyExit e) t = snd (NotifyExit e t)"
| "track_exec (THandleStart sub c p pid) t = snd (HandleStart sub c p pid t)"
| "track_exec (TCancel sub) t = CancelSub sub t"
| "track_exec (TShouldDelay c) t = snd (ShouldDelayInitExit c t)"
| "track_exec (TNotifyExecExit c) t = NotifyExecExit c t"
| "track_exec (TCleanup c) t = Cleanup c t"

fun ends_sub :: "nat \<Rightarrow> track_op \<Rightarrow> bool" where
  "ends_sub sub (THandleStart sub' c p pid) = (sub' = sub)"
| "ends_sub sub (TCancel sub') = (sub' = sub)"
| "ends_sub sub _ = False"

fun exits_of :: "track_op list \<Rightarrow> rexit list" where
  "exits_of [] = []"
| "exits_of (TNotifyExit e # xs) = e # exits_of xs"
| "exits_of (x # xs) = exits_of xs"

text \<open>A live subscription and what it has collected.\<close>

definition live :: "nat \<Rightarrow> exitTracker \<Rightarrow> bool" where
  "live sub t \<longleftrightarrow> sub \<in> set (det_active (et_detector t)) \<and> sub \<le> det_nextSubID (et_detector t)"

abbreviation collected :: "exitTracker \<Rightarrow> nat \<Rightarrow> int \<Rightarrow> rexit list" where
  "collected t \<equiv> det_exits (et_detector t)"

lemma detector_frames:
  "et_detector (registerStarted c p pid t) = et_detector t"
  "et_detector (NotifyExecExit c t) = et_detector t"
  "et_detector (snd (ShouldDelayInitExit c t)) = et_detector t"
  "et_detector (Cleanup c t) = et_detector t"
  by (simp_all add: registerStarted_def NotifyExecExit_def ShouldDelayInitExit_def Cleanup_def Let_def
      split: option.splits)

lemma detector_HandleStart:
  "et_detector (snd (HandleStart sub c p pid t)) = det_remove sub (et_detector t)"
  by (simp add: HandleStart_def completeSub_def sub_complete_def detector_frames Let_def)

lemma detector_Subscribe:
  "et_detector (snd (Subscribe c t)) = snd (det_subscribe (et_detector t))"
  by (simp add: Subscribe_def Let_def split: prod.splits option.splits)

lemma detector_NotifyExit:
  "et_detector (snd (NotifyExit e t)) = det_notifyExit e (et_detector t)"
  by (simp add: NotifyExit_def removeByPID_def)

lemma track_step:
  assumes "live sub t" "\<not> ends_sub sub x"
  shows "live sub (track_exec x t)
     \<and> collected (track_exec x t) sub pid
         = collected t sub pid @ filter (\<lambda>e. xe_Pid e = pid) (exits_of [x])"
  using assms
  by (cases x)
     (auto simp: live_def detector_frames detector_HandleStart detector_Subscribe detector_NotifyExit
       det_subscribe_def det_remove_def det_notifyExit_def CancelSub_def sub_cancel_def Let_def)

lemma exits_of_Cons: "exits_of (x # xs) = exits_of [x] @ exits_of xs"
  by (cases x) simp_all

lemma track_run:
  assumes "live sub t" "list_all (\<lambda>x. \<not> ends_sub sub x) xs"
  shows "collected (fold track_exec xs t) sub pid
       = collected t sub pid @ filter (\<lambda>e. xe_Pid e = pid) (exits_of xs)"
  using assms
proof (induction xs arbitrary: t)
  case Nil
  then show ?case by simp
next
  case (Cons x xs)
  from track_step [OF Cons.prems(1), of x] Cons.prems(2)
  have 1: "live sub (track_exec x t)" "collected (track_exec x t) sub pid
      = collected t sub pid @ filter (\<lambda>e. xe_Pid e = pid) (exits_of [x])" by simp_all
  from Cons.IH [OF 1(1)] Cons.prems(2) 1(2) exits_of_Cons [of x xs]
  show ?case by simp
qed

lemma Subscribe_live: "live (fst (Subscribe c t)) (snd (Subscribe c t))"
  "collected (snd (Subscribe c t)) (fst (Subscribe c t)) pid = []"
  by (auto simp: live_def Subscribe_def det_subscribe_def Let_def split: prod.splits option.splits)

section \<open>A concrete run\<close>

text \<open>A container whose init process (pid 10) exits while an exec (pid 11) is running: the
  init exit waits for the exec's.\<close>

definition demoInit :: procref where
  "demoInit = \<lparr>pr_ID = ''c'', pr_IsInit = True\<rparr>"

definition demoExec :: procref where
  "demoExec = \<lparr>pr_ID = ''e'', pr_IsInit = False\<rparr>"

definition demoExit :: "int \<Rightarrow> rexit" where
  "demoExit pid = \<lparr>xe_Pid = pid, xe_Status = 0\<rparr>"

definition demoRunning :: tsvc where
  "demoRunning =
     handleStarted 2 0 demoExec 11 (snd (preStart None
       (handleStarted 1 0 demoInit 10 (snd (preStart None (newService (\<lambda>_. True)))))))"

definition demoDone :: tsvc where
  "demoDone = wakeWaiter 0 (processExit (demoExit 11) (processExit (demoExit 10) demoRunning))"

lemmas demo_defs = demoInit_def demoExec_def demoExit_def
  handleStarted_def preStart_def newService_def newExitTracker_def newEarlyExitDetector_def
  Subscribe_def det_subscribe_def HandleStart_def completeSub_def sub_complete_def det_remove_def
  registerStarted_def reg_add_def reg_lookup_def incrementExecCount_def getOrCreateState_def
  processExit_def NotifyExit_def det_notifyExit_def removeByPID_def stashInitExit_def
  handleInitExit_def ShouldDelayInitExit_def handleProcessExit_def NotifyExecExit_def
  wakeWaiter_def InitHasExited_def initHasExited_def

lemma demo_reach: "reach demoRunning" "reach demoDone"
proof -
  have "reach (snd (preStart None (newService (\<lambda>_. True))))"
    by (rule reach_pre [OF reach_init]) simp
  then have "reach (handleStarted 1 0 demoInit 10 (snd (preStart None (newService (\<lambda>_. True)))))"
    by (rule reach_started) (simp_all add: demo_defs Let_def)
  then have "reach (snd (preStart None
      (handleStarted 1 0 demoInit 10 (snd (preStart None (newService (\<lambda>_. True)))))))"
    by (rule reach_pre) simp
  then show r: "reach demoRunning"
    unfolding demoRunning_def by (rule reach_started) (simp_all add: demo_defs Let_def)
  show "reach demoDone"
    unfolding demoDone_def by (intro reach_wake reach_exit r)
qed

lemma demo_events:
  "sv_events demoDone = [TaskExit 0 demoExec (demoExit 11), TaskExit 0 demoInit (demoExit 10)]"
  unfolding demoDone_def demoRunning_def by (simp add: demo_defs Let_def)

section \<open>Properties\<close>



text \<open>No exit is lost while a process is being started: \<open>HandleStart\<close> returns exactly
  the exits with the process's pid that were reported since \<open>Subscribe\<close>, in the order they
  came, whatever else happened to the tracker in between (exits of other processes, other
  starts, cancellations and deletions).\<close>

theorem early_exits_are_detected:
  assumes "Subscribe c t = (sub, t1)" and "list_all (\<lambda>x. \<not> ends_sub sub x) xs"
  shows "fst (HandleStart sub c' p pid (fold track_exec xs t1))
       = filter (\<lambda>e. xe_Pid e = pid) (exits_of xs)"
proof -
  from assms(1) Subscribe_live [of c t] have "live sub t1" "collected t1 sub pid = []" by simp_all
  with track_run [OF _ assms(2), of t1 pid]
  have "collected (fold track_exec xs t1) sub pid = filter (\<lambda>e. xe_Pid e = pid) (exits_of xs)"
    by simp
  then show ?thesis
    by (simp add: HandleStart_def completeSub_def sub_complete_def det_remove_def Let_def)
qed

theorem early_exits_are_detected_witness:
  "fst (HandleStart 1 0 demoExec 11
        (fold track_exec [TNotifyExit (demoExit 12), TSubscribe None, TNotifyExit (demoExit 11)]
           (snd (Subscribe None newExitTracker))))
     = [demoExit 11]"
proof -
  have "Subscribe None newExitTracker = (1, snd (Subscribe None newExitTracker))"
    by (simp add: demo_defs Let_def)
  from early_exits_are_detected [OF this,
      of "[TNotifyExit (demoExit 12), TSubscribe None, TNotifyExit (demoExit 11)]" 0 demoExec 11]
  show ?thesis by (simp add: demoExit_def)
qed

text \<open>A process that is registered when its exit arrives is found: the exit returns
  exactly the processes registered under its pid, removes them and nothing else, and
  marks the containers whose init process is among them.\<close>

theorem notify_exit_takes_registered:
  "case NotifyExit e t of (cps, t') \<Rightarrow>
     cps = reg_lookup (et_running t) (xe_Pid e)
     \<and> reg_lookup (et_running t') pid
         = (if pid = xe_Pid e then [] else reg_lookup (et_running t) pid)
     \<and> (InitHasExited c t' \<longleftrightarrow>
          InitHasExited c t \<or> (\<exists>cp \<in> set cps. pr_IsInit (cp_Process cp) \<and> cp_Container cp = c))"
  by (simp add: NotifyExit_def removeByPID_def InitHasExited_def stashInits_simps reg_lookup_upd)

text \<open>C17. An exec that exits before its start is recorded is counted wrongly: it is
  published and subtracted from the number of running execs although it was never added,
  so the count falls below the number of execs that are registered.\<close>

theorem early_exec_exit_undercounts:
  assumes "\<not> pr_IsInit p" and "det_exits (et_detector (sv_tracker s)) sub pid = [e]"
    and "et_containers (sv_tracker s) c \<noteq> None"
  shows "execCount (et_containers (sv_tracker (handleStarted sub c p pid s))) c
       = execCount (et_containers (sv_tracker s)) c - 1
     \<and> et_running (sv_tracker (handleStarted sub c p pid s)) = et_running (sv_tracker s)"
proof -
  have "completeSub sub pid (sv_tracker s) = ([e], (sv_tracker s)\<lparr>et_detector :=
      det_remove sub (et_detector (sv_tracker s))\<rparr>)"
    using assms(2) by (simp add: completeSub_def sub_complete_def det_remove_def Let_def)
  with assms(1,3) show ?thesis
    by (simp add: handleStarted_def HandleStart_def handleProcessExit_exec execCount_NotifyExecExit)
qed

text \<open>In the concrete run: a second exec (pid 12) exits early, the count drops to zero, and
  the exit of the init process is published at once although the first exec is running.\<close>

theorem early_exec_exit_undercounts_witness:
  "let s = processExit (demoExit 12) (snd (preStart None demoRunning));
       s' = handleStarted 3 0 demoExec 12 s
   in execCount (et_containers (sv_tracker s')) 0 = 0
      \<and> regExecs (et_running (sv_tracker s')) 0 = 1
      \<and> TaskExit 0 demoInit (demoExit 10) \<in> set (sv_events (processExit (demoExit 10) s'))"
proof -
  let ?s = "processExit (demoExit 12) (snd (preStart None demoRunning))"
  let ?s' = "handleStarted 3 0 demoExec 12 ?s"
  have d: "\<not> pr_IsInit demoExec" by (simp add: demoExec_def)
  have c: "et_containers (sv_tracker ?s) 0 \<noteq> None" "execCount (et_containers (sv_tracker ?s)) 0 = 1"
    "det_exits (et_detector (sv_tracker ?s)) 3 12 = [demoExit 12]"
    "et_running (sv_tracker ?s) = (\<lambda>_. None)(10 := Some [\<lparr>cp_Container = 0, cp_Process = demoInit\<rparr>],
       11 := Some [\<lparr>cp_Container = 0, cp_Process = demoExec\<rparr>])"
    unfolding demoRunning_def by (simp_all add: demo_defs Let_def execCount_def fun_eq_iff)
  from early_exec_exit_undercounts [OF d c(3,1)] c(2)
  have e: "execCount (et_containers (sv_tracker ?s')) 0 = 0"
    and r: "et_running (sv_tracker ?s') = et_running (sv_tracker ?s)" by simp_all
  have "regExecs (et_running (sv_tracker ?s')) 0 = 1"
    unfolding r c(4) by (simp add: regExecs_def reg_lookup_def demoInit_def demoExec_def)
  moreover have "TaskExit 0 demoInit (demoExit 10) \<in> set (sv_events (processExit (demoExit 10) ?s'))"
    unfolding demoRunning_def by (simp add: demo_defs Let_def)
  ultimately show ?thesis using e by (simp add: Let_def)
qed

text \<open>C18. The two halves of \<open>HandleStart\<close> are not one atomic step: an exit reported after
  the subscription is completed and before the process is registered reaches nobody, and
  the process stays registered as running after it has exited.\<close>

theorem exit_in_registration_window_is_lost:
  assumes "completeSub sub (xe_Pid e) t = ([], t1)" and "NotifyExit e t1 = (cps, t2)"
    and "reg_lookup (et_running t) (xe_Pid e) = []"
  shows "cps = [] \<and> reg_lookup (et_running (registerStarted c p (xe_Pid e) t2)) (xe_Pid e)
       = [\<lparr>cp_Container = c, cp_Process = p\<rparr>]"
proof -
  from assms(1) have "et_running t1 = et_running t"
    by (auto simp: completeSub_def split: prod.splits)
  with assms(2,3) show ?thesis
    by (auto simp: NotifyExit_def removeByPID_def registerStarted_def reg_add_def reg_lookup_upd Let_def)
qed

theorem exit_in_registration_window_is_lost_witness:
  "let t = snd (Subscribe None newExitTracker); t1 = snd (completeSub 1 11 t);
       t2 = snd (NotifyExit (demoExit 11) t1)
   in reg_lookup (et_running (registerStarted 0 demoExec 11 t2)) 11
        = [\<lparr>cp_Container = 0, cp_Process = demoExec\<rparr>]"
proof -
  let ?t = "snd (Subscribe None newExitTracker)"
  have "completeSub 1 (xe_Pid (demoExit 11)) ?t = ([], snd (completeSub 1 11 ?t))"
    "reg_lookup (et_running ?t) (xe_Pid (demoExit 11)) = []"
    by (simp_all add: demo_defs Let_def)
  from exit_in_registration_window_is_lost [OF this(1) surjective_pairing this(2), of 0 demoExec]
  show ?thesis by (simp add: demoExit_def Let_def)
qed

end
