(* ===== verification/Cpu_Hotplug.thy ===== *)
theory Cpu_Hotplug
  imports Contracts Go_Strings
begin

text \<open>
  \<^verbatim>\<open>internal/shim/cpuhotplug/controller.go\<close>: the controller that adds and removes vCPUs of
  a VM according to the CPU usage of its container.

  The controller's fields are a record; the VM (\<open>vm.CPUHotplugger\<close>), the cgroup statistics,
  the callbacks that online and offline a vCPU in the guest and the clock are functions
  over an arbitrary world \<open>'v\<close>. Every method that matters runs under the controller's
  mutex. \<open>float64\<close> results go through the rounding function of the environment.
\<close>

section \<open>Data\<close>

record CPUInfo =
  CPUIndex :: int
  QOMPath :: string
  Thread :: int
  Target :: string

record cpu_Config =
  cc_MonitorInterval :: duration
  cc_ScaleUpCooldown :: duration
  cc_ScaleDownCooldown :: duration
  cc_ScaleUpThreshold :: f64
  cc_ScaleDownThreshold :: f64
  cc_ScaleUpThrottleLimit :: f64
  cc_ScaleUpStability :: int
  cc_ScaleDownStability :: int
  cc_EnableScaleDown :: bool

record cpu_Controller =
  cc_bootCPUs :: int
  cc_maxCPUs :: int
  cc_currentCPUs :: int
  cc_config :: cpu_Config
  cc_lastScaleUp :: go_time
  cc_lastScaleDown :: go_time
  cc_consecutiveHighUsage :: int
  cc_consecutiveLowUsage :: int
  cc_lastSampleTime :: go_time
  cc_lastUsageUsec :: nat
  cc_lastThrottledUsec :: nat
  cc_stopCh :: gochan
  cc_stoppedCh :: gochan

record 'v cpu_env =
  ce_QueryCPUs :: "'v \<Rightarrow> (goerr + CPUInfo list) \<times> 'v"
  ce_HotplugCPU :: "int \<Rightarrow> 'v \<Rightarrow> goerr option \<times> 'v"
  ce_UnplugCPU :: "int \<Rightarrow> 'v \<Rightarrow> goerr option \<times> 'v"
  ce_stats :: "('v \<Rightarrow> (goerr + nat \<times> nat) \<times> 'v) option"
  ce_onlineCPU :: "(int \<Rightarrow> 'v \<Rightarrow> goerr option \<times> 'v) option"
  ce_offlineCPU :: "(int \<Rightarrow> 'v \<Rightarrow> goerr option \<times> 'v) option"
  ce_clock :: "'v \<Rightarrow> go_time"
  ce_rnd :: rounding

definition cpu_DefaultConfig :: cpu_Config where
  "cpu_DefaultConfig =
     \<lparr>cc_MonitorInterval = 5 * Second, cc_ScaleUpCooldown = 10 * Second,
      cc_ScaleDownCooldown = 30 * Second, cc_ScaleUpThreshold = Fin 80,
      cc_ScaleDownThreshold = Fin 50, cc_ScaleUpThrottleLimit = Fin 5,
      cc_ScaleUpStability = 2, cc_ScaleDownStability = 6, cc_EnableScaleDown = True\<rparr>"

text \<open>\<open>None\<close> is the no-op controller.\<close>

definition cpu_NewController :: "int \<Rightarrow> int \<Rightarrow> cpu_Config \<Rightarrow> cpu_Controller option" where
  "cpu_NewController bootCPUs maxCPUs config =
     (if maxCPUs \<le> bootCPUs then None
      else Some \<lparr>cc_bootCPUs = bootCPUs, cc_maxCPUs = maxCPUs, cc_currentCPUs = bootCPUs,
                 cc_config = config, cc_lastScaleUp = 0, cc_lastScaleDown = 0,
                 cc_consecutiveHighUsage = 0, cc_consecutiveLowUsage = 0, cc_lastSampleTime = 0,
                 cc_lastUsageUsec = 0, cc_lastThrottledUsec = 0, cc_stopCh = ChanNil,
                 cc_stoppedCh = ChanNil\<rparr>)"

text \<open>\<open>Start\<close> returns whether the monitor goroutine was launched; the part of \<open>Stop\<close> under
  the mutex returns whether the caller then waits for the goroutine to finish.\<close>

definition cpu_Start :: "cpu_Controller \<Rightarrow> bool \<times> cpu_Controller" where
  "cpu_Start c =
     (if cc_stopCh c \<noteq> ChanNil then (False, c)
      else (True, c\<lparr>cc_stopCh := ChanOpen, cc_stoppedCh := ChanOpen\<rparr>))"

definition cpu_Stop :: "cpu_Controller \<Rightarrow> (bool \<times> cpu_Controller) go" where
  "cpu_Stop c =
     (if cc_stopCh c = ChanNil then Ret (False, c)
      else bindGo (closeChan (cc_stopCh c)) (\<lambda>ch. Ret (True, c\<lparr>cc_stopCh := ch\<rparr>)))"

section \<open>Sampling\<close>

definition setBaseline :: "go_time \<Rightarrow> nat \<Rightarrow> nat \<Rightarrow> cpu_Controller \<Rightarrow> cpu_Controller" where
  "setBaseline now usage throttled c =
     c\<lparr>cc_lastSampleTime := now, cc_lastUsageUsec := usage, cc_lastThrottledUsec := throttled\<rparr>"

definition clampNeg :: "f64 \<Rightarrow> f64" where
  "clampNeg x = (if fLess x (Fin 0) then Fin 0 else x)"

text \<open>\<open>Inr None\<close> is the answer \<open>ok = false\<close>.\<close>

definition sampleCPU ::
  "'v cpu_env \<Rightarrow> cpu_Controller \<Rightarrow> 'v \<Rightarrow> (goerr + (f64 \<times> f64) option) \<times> cpu_Controller \<times> 'v" where
  "sampleCPU env c w =
     (case ce_stats env of
        None \<Rightarrow> (Inr None, c, w)
      | Some stats \<Rightarrow>
          (case stats w of
             (Inl e, w1) \<Rightarrow> (Inl e, c, w1)
           | (Inr (usageUsec, throttledUsec), w1) \<Rightarrow>
               (let now = ce_clock env w1; c1 = setBaseline now usageUsec throttledUsec c
                in if timeIsZero (cc_lastSampleTime c) then (Inr None, c1, w1)
                   else
                     (let elapsed = timeSub now (cc_lastSampleTime c)
                      in if elapsed \<le> 0 then (Inr None, c1, w1)
                         else if usageUsec < cc_lastUsageUsec c \<or> throttledUsec < cc_lastThrottledUsec c
                         then (Inr None, c1, w1)
                         else
                           (let deltaUsage = usageUsec - cc_lastUsageUsec c;
                                deltaThrottled = throttledUsec - cc_lastThrottledUsec c;
                                rnd = ce_rnd env;
                                elapsedUsec = fOfInt rnd (quot elapsed 1000)
                            in if fLeq elapsedUsec (Fin 0) \<or> cc_currentCPUs c \<le> 0
                               then (Inr None, c1, w1)
                               else
                                 (let usagePct = clampNeg
                                        (fMul rnd (fDiv rnd (fOfInt rnd (int deltaUsage))
                                           (fMul rnd elapsedUsec (fOfInt rnd (cc_currentCPUs c)))) (Fin 100));
                                      throttledPct = clampNeg
                                        (fMul rnd (fDiv rnd (fOfInt rnd (int deltaThrottled)) elapsedUsec)
                                           (Fin 100))
                                  in (Inr (Some (usagePct, throttledPct)), c1, w1)))))))"

definition calculateTargetCPUs ::
  "'v cpu_env \<Rightarrow> cpu_Controller \<Rightarrow> 'v \<Rightarrow> int \<times> cpu_Controller \<times> 'v" where
  "calculateTargetCPUs env c0 w0 =
     (case sampleCPU env c0 w0 of
        (Inl e, c, w) \<Rightarrow> (cc_currentCPUs c, c, w)
      | (Inr None, c, w) \<Rightarrow> (cc_currentCPUs c, c, w)
      | (Inr (Some (usagePct, throttledPct)), c, w) \<Rightarrow>
          (let cfg = cc_config c; n = cc_currentCPUs c; rnd = ce_rnd env
           in if fLeq (cc_ScaleUpThrottleLimit cfg) throttledPct then (n, c, w)
              else if fLeq (cc_ScaleUpThreshold cfg) usagePct \<and> n < cc_maxCPUs c then (n + 1, c, w)
              else if cc_EnableScaleDown cfg \<and> n > cc_bootCPUs c \<and> n > 1
                      \<and> fLeq (fDiv rnd (fMul rnd usagePct (fOfInt rnd n)) (fOfInt rnd (n - 1)))
                             (cc_ScaleDownThreshold cfg)
              then (n - 1, c, w)
              else (n, c, w)))"

section \<open>Scaling\<close>

definition canScaleUp :: "go_time \<Rightarrow> cpu_Controller \<Rightarrow> bool" where
  "canScaleUp now c =
     (if timeIsZero (cc_lastScaleUp c) then True
      else timeSub now (cc_lastScaleUp c) \<ge> cc_ScaleUpCooldown (cc_config c))"

definition canScaleDown :: "go_time \<Rightarrow> cpu_Controller \<Rightarrow> bool" where
  "canScaleDown now c =
     (if timeIsZero (cc_lastScaleDown c) then True
      else timeSub now (cc_lastScaleDown c) \<ge> cc_ScaleDownCooldown (cc_config c))"

text \<open>The loop of \<open>scaleUp\<close>: \<open>n\<close> identifiers are left from \<open>nextID\<close> on.\<close>

fun scaleUpLoop ::
  "'v cpu_env \<Rightarrow> int list \<Rightarrow> int \<Rightarrow> nat \<Rightarrow> int \<Rightarrow> int \<Rightarrow> 'v \<Rightarrow> goerr option \<times> int \<times> 'v" where
  "scaleUpLoop env existing cpusToAdd 0 nextID added w = (None, added, w)"
| "scaleUpLoop env existing cpusToAdd (Suc n) nextID added w =
     (if added < cpusToAdd then
        (if nextID \<in> set existing
         then scaleUpLoop env existing cpusToAdd n (nextID + 1) added w
         else
           (case ce_HotplugCPU env nextID w of
              (Some e, w1) \<Rightarrow> (Some (WrapErr (''hotplug CPU '' @ itoa nextID) e), added, w1)
            | (None, w1) \<Rightarrow>
                (let w2 = (case ce_onlineCPU env of None \<Rightarrow> w1 | Some online \<Rightarrow> snd (online nextID w1))
                 in scaleUpLoop env (nextID # existing) cpusToAdd n (nextID + 1) (added + 1) w2)))
      else (None, added, w))"

definition cpu_scaleUp ::
  "'v cpu_env \<Rightarrow> int \<Rightarrow> cpu_Controller \<Rightarrow> 'v \<Rightarrow> goerr option \<times> cpu_Controller \<times> 'v" where
  "cpu_scaleUp env targetCPUs c w =
     (case ce_QueryCPUs env w of
        (Inl e, w1) \<Rightarrow> (Some (WrapErr ''query CPUs for scale-up'' e), c, w1)
      | (Inr cpus, w1) \<Rightarrow>
          (case scaleUpLoop env (map CPUIndex cpus) (targetCPUs - cc_currentCPUs c)
                  (nat (cc_maxCPUs c)) 0 0 w1 of
             (Some e, added, w2) \<Rightarrow> (Some e, c, w2)
           | (None, added, w2) \<Rightarrow>
               (None,
                c\<lparr>cc_currentCPUs := cc_currentCPUs c + added, cc_lastScaleUp := ce_clock env w2,
                  cc_consecutiveHighUsage := 0\<rparr>, w2)))"

fun scaleDownLoop ::
  "'v cpu_env \<Rightarrow> int \<Rightarrow> int list \<Rightarrow> int \<Rightarrow> 'v \<Rightarrow> int \<times> 'v" where
  "scaleDownLoop env cpusToRemove [] removed w = (removed, w)"
| "scaleDownLoop env cpusToRemove (cpuID # ids) removed w =
     (if removed \<ge> cpusToRemove then (removed, w)
      else
        (let w1 = (case ce_offlineCPU env of None \<Rightarrow> w | Some offline \<Rightarrow> snd (offline cpuID w))
         in case ce_UnplugCPU env cpuID w1 of
              (Some e, w2) \<Rightarrow> scaleDownLoop env cpusToRemove ids removed w2
            | (None, w2) \<Rightarrow> scaleDownLoop env cpusToRemove ids (removed + 1) w2))"

definition cpu_scaleDown ::
  "'v cpu_env \<Rightarrow> int \<Rightarrow> cpu_Controller \<Rightarrow> 'v \<Rightarrow> goerr option \<times> cpu_Controller \<times> 'v" where
  "cpu_scaleDown env targetCPUs c w =
     (case ce_QueryCPUs env w of
        (Inl e, w1) \<Rightarrow> (Some (WrapErr ''query CPUs for scale-down'' e), c, w1)
      | (Inr cpus, w1) \<Rightarrow>
          (let removable = rev (filter (\<lambda>i. i > 0) (map CPUIndex cpus));
               (removed, w2) = scaleDownLoop env (cc_currentCPUs c - targetCPUs) removable 0 w1
           in (None,
               c\<lparr>cc_currentCPUs := cc_currentCPUs c - removed, cc_lastScaleDown := ce_clock env w2,
                 cc_consecutiveLowUsage := 0\<rparr>, w2)))"

definition cpu_checkAndAdjust ::
  "'v cpu_env \<Rightarrow> cpu_Controller \<Rightarrow> 'v \<Rightarrow> goerr option \<times> cpu_Controller \<times> 'v" where
  "cpu_checkAndAdjust env c w =
     (case ce_QueryCPUs env w of
        (Inl e, w1) \<Rightarrow> (Some (WrapErr ''query vCPUs'' e), c, w1)
      | (Inr cpus, w1) \<Rightarrow>
          (let (target, c2, w2) =
                 calculateTargetCPUs env (c\<lparr>cc_currentCPUs := int (length cpus)\<rparr>) w1
           in if target > cc_currentCPUs c2 then
                (if \<not> canScaleUp (ce_clock env w2) c2 then (None, c2, w2)
                 else
                   (let c3 = c2\<lparr>cc_consecutiveHighUsage := cc_consecutiveHighUsage c2 + 1,
                                cc_consecutiveLowUsage := 0\<rparr>
                    in if cc_consecutiveHighUsage c3 < cc_ScaleUpStability (cc_config c3)
                       then (None, c3, w2)
                       else cpu_scaleUp env target c3 w2))
              else if target < cc_currentCPUs c2 \<and> cc_EnableScaleDown (cc_config c2) then
                (if \<not> canScaleDown (ce_clock env w2) c2 then (None, c2, w2)
                 else
                   (let c3 = c2\<lparr>cc_consecutiveLowUsage := cc_consecutiveLowUsage c2 + 1,
                                cc_consecutiveHighUsage := 0\<rparr>
                    in if cc_consecutiveLowUsage c3 < cc_ScaleDownStability (cc_config c3)
                       then (None, c3, w2)
                       else (case cpu_scaleDown env target c3 w2 of
                               (Some e, c4, w4) \<Rightarrow>
                                 (Some (WrapErr ''failed to scale down CPUs'' e), c4, w4)
                             | r \<Rightarrow> r)))
              else
                (None, c2\<lparr>cc_consecutiveHighUsage := 0, cc_consecutiveLowUsage := 0\<rparr>, w2)))"

section \<open>The calls a check makes\<close>

datatype cpu_call = CPlug int "goerr option" | CUnplug int "goerr option"

fun succeeded :: "cpu_call \<Rightarrow> bool" where
  "succeeded (CPlug i r) = (r = None)"
| "succeeded (CUnplug i r) = (r = None)"

fun isPlug :: "cpu_call \<Rightarrow> bool" where
  "isPlug (CPlug i r) = True"
| "isPlug (CUnplug i r) = False"

definition wrapw :: "('v \<Rightarrow> 'a \<times> 'v) \<Rightarrow> 'v \<times> 'l \<Rightarrow> 'a \<times> 'v \<times> 'l" where
  "wrapw f wl = (let (r, w') = f (fst wl) in (r, (w', snd wl)))"

text \<open>The environment that also records the hotplug and unplug commands and their outcome.\<close>

definition traced_cpu :: "'v cpu_env \<Rightarrow> ('v \<times> cpu_call list) cpu_env" where
  "traced_cpu env =
     \<lparr>ce_QueryCPUs = wrapw (ce_QueryCPUs env),
      ce_HotplugCPU = (\<lambda>i wl. let (r, w') = ce_HotplugCPU env i (fst wl) in (r, (w', snd wl @ [CPlug i r]))),
      ce_UnplugCPU = (\<lambda>i wl. let (r, w') = ce_UnplugCPU env i (fst wl) in (r, (w', snd wl @ [CUnplug i r]))),
      ce_stats = map_option wrapw (ce_stats env),
      ce_onlineCPU = map_option (\<lambda>f i. wrapw (f i)) (ce_onlineCPU env),
      ce_offlineCPU = map_option (\<lambda>f i. wrapw (f i)) (ce_offlineCPU env),
      ce_clock = (\<lambda>wl. ce_clock env (fst wl)), ce_rnd = ce_rnd env\<rparr>"

definition succs :: "cpu_call list \<Rightarrow> int" where
  "succs l = int (length (filter succeeded l))"

lemma succs_simps [simp]:
  "succs [] = 0" "succs (c # l) = (if succeeded c then 1 else 0) + succs l"
  by (simp_all add: succs_def)

lemma wrapw_log: "wrapw f wl = (r, wl') \<Longrightarrow> snd wl' = snd wl"
  by (auto simp: wrapw_def split: prod.splits)

lemma snd_wrapw [simp]: "snd (snd (wrapw f wl)) = snd wl"
  by (auto simp: wrapw_def split: prod.splits)

lemma traced_HotplugCPU:
  "\<exists>r w1. ce_HotplugCPU (traced_cpu env) i wl = (r, (w1, snd wl @ [CPlug i r]))"
  by (cases "ce_HotplugCPU env i (fst wl)") (simp add: traced_cpu_def)

lemma traced_UnplugCPU:
  "\<exists>r w1. ce_UnplugCPU (traced_cpu env) i wl = (r, (w1, snd wl @ [CUnplug i r]))"
  by (cases "ce_UnplugCPU env i (fst wl)") (simp add: traced_cpu_def)

lemma traced_QueryCPUs:
  "ce_QueryCPUs (traced_cpu env) wl = (r, wl') \<Longrightarrow>
     ce_QueryCPUs env (fst wl) = (r, fst wl') \<and> snd wl' = snd wl"
  by (auto simp: traced_cpu_def wrapw_def split: prod.splits)

lemma scaleUpLoop_calls:
  assumes "scaleUpLoop (traced_cpu env) ex k n i a wl = (e, a', wl')" and "a \<le> k"
  shows "\<exists>l. snd wl' = snd wl @ l \<and> a' = a + succs l \<and> a' \<le> k
     \<and> int (length l) \<le> k - a
     \<and> (\<forall>c \<in> set l. \<exists>j r. c = CPlug j r \<and> i \<le> j \<and> j < i + int n \<and> j \<notin> set ex)"
  using assms
proof (induction n arbitrary: ex i a wl)
  case 0
  then show ?case by simp
next
  case (Suc n)
  show ?case
  proof (cases "a < k")
    case False
    with Suc.prems show ?thesis by (auto intro!: exI [of _ "[]"])
  next
    case lt: True
    show ?thesis
    proof (cases "i \<in> set ex")
      case True
      with Suc.prems lt have "scaleUpLoop (traced_cpu env) ex k n (i + 1) a wl = (e, a', wl')" by simp
      from Suc.IH [OF this Suc.prems(2)] obtain l where "snd wl' = snd wl @ l" "a' = a + succs l" "a' \<le> k"
        "int (length l) \<le> k - a"
        and "\<forall>c \<in> set l. \<exists>j r. c = CPlug j r \<and> i + 1 \<le> j \<and> j < i + 1 + int n \<and> j \<notin> set ex"
        by blast
      then show ?thesis by (intro exI [of _ l]) auto
    next
      case False
      obtain r w1 where h: "ce_HotplugCPU (traced_cpu env) i wl = (r, (w1, snd wl @ [CPlug i r]))"
        using traced_HotplugCPU [of env i wl] by blast
      show ?thesis
      proof (cases r)
        case (Some x)
        with h Suc.prems lt False show ?thesis
          by (auto intro!: exI [of _ "[CPlug i (Some x)]"])
      next
        case None
        let ?w2 = "case ce_onlineCPU (traced_cpu env) of None \<Rightarrow> (w1, snd wl @ [CPlug i None])
            | Some online \<Rightarrow> snd (online i (w1, snd wl @ [CPlug i None]))"
        have log: "snd ?w2 = snd wl @ [CPlug i None]"
          by (cases "ce_onlineCPU env") (simp_all add: traced_cpu_def)
        from h None lt False Suc.prems have
          "scaleUpLoop (traced_cpu env) (i # ex) k n (i + 1) (a + 1) ?w2 = (e, a', wl')" by simp
        from Suc.IH [OF this] lt obtain l where "snd wl' = snd ?w2 @ l" "a' = a + 1 + succs l" "a' \<le> k"
          "int (length l) \<le> k - (a + 1)"
          "\<forall>c \<in> set l. \<exists>j r. c = CPlug j r \<and> i + 1 \<le> j \<and> j < i + 1 + int n \<and> j \<notin> set (i # ex)"
          by auto
        with log False show ?thesis
          by (intro exI [of _ "CPlug i None # l"]) auto
      qed
    qed
  qed
qed

lemma scaleDownLoop_calls:
  assumes "scaleDownLoop (traced_cpu env) k ids a wl = (a', wl')" and "a \<le> k"
  shows "\<exists>l. snd wl' = snd wl @ l \<and> a' = a + succs l \<and> a' \<le> k
     \<and> (\<forall>c \<in> set l. \<exists>j r. c = CUnplug j r \<and> j \<in> set ids)"
  using assms
proof (induction ids arbitrary: a wl)
  case Nil
  then show ?case by simp
next
  case (Cons i ids)
  show ?case
  proof (cases "a < k")
    case False
    with Cons.prems show ?thesis by (auto intro!: exI [of _ "[]"])
  next
    case True
    let ?w1 = "case ce_offlineCPU (traced_cpu env) of None \<Rightarrow> wl | Some offline \<Rightarrow> snd (offline i wl)"
    have log: "snd ?w1 = snd wl" by (cases "ce_offlineCPU env") (simp_all add: traced_cpu_def)
    obtain r w2 where h: "ce_UnplugCPU (traced_cpu env) i ?w1 = (r, (w2, snd ?w1 @ [CUnplug i r]))"
      using traced_UnplugCPU [of env i ?w1] by blast
    let ?a = "if r = None then a + 1 else a"
    from h True Cons.prems have
      "scaleDownLoop (traced_cpu env) k ids ?a (w2, snd ?w1 @ [CUnplug i r]) = (a', wl')"
      by (auto simp: Let_def split: option.splits)
    moreover have "?a \<le> k" using True by simp
    ultimately obtain l where "snd wl' = snd ?w1 @ CUnplug i r # l" "a' = ?a + succs l"
      "a' \<le> k" "\<forall>c \<in> set l. \<exists>j r. c = CUnplug j r \<and> j \<in> set ids"
      using Cons.IH [of ?a "(w2, snd ?w1 @ [CUnplug i r])"] by auto
    with log show ?thesis by (intro exI [of _ "CUnplug i r # l"]) auto
  qed
qed

subsection \<open>One check\<close>

text \<open>Sampling only moves the baseline.\<close>

lemma sampleCPU_frame:
  assumes "sampleCPU env c w = (r, c', w')"
  shows "\<exists>t u v. c' = setBaseline t u v c"
proof -
  have "c = setBaseline (cc_lastSampleTime c) (cc_lastUsageUsec c) (cc_lastThrottledUsec c) c"
    by (simp add: setBaseline_def)
  with assms show ?thesis
    by (auto simp: sampleCPU_def Let_def split: option.splits prod.splits sum.splits if_splits)
qed

lemma sampleCPU_log:
  "sampleCPU (traced_cpu env) c wl = (r, c', wl') \<Longrightarrow> snd wl' = snd wl"
  by (auto simp: sampleCPU_def traced_cpu_def wrapw_def Let_def
      split: option.splits prod.splits sum.splits if_splits)

text \<open>The target is the current number of vCPUs, one more below the maximum, or one less
  above the boot number; this holds for every rounding of the percentages.\<close>

lemma calculateTargetCPUs_range:
  assumes "calculateTargetCPUs env c w = (t, c', w')"
  shows "(\<exists>a u v. c' = setBaseline a u v c)
     \<and> (t = cc_currentCPUs c
        \<or> t = cc_currentCPUs c + 1 \<and> cc_currentCPUs c < cc_maxCPUs c
        \<or> t = cc_currentCPUs c - 1 \<and> cc_bootCPUs c < cc_currentCPUs c \<and> 1 < cc_currentCPUs c)"
proof -
  obtain r c1 w1 where s: "sampleCPU env c w = (r, c1, w1)" by (cases "sampleCPU env c w") auto
  from sampleCPU_frame [OF s] obtain a u v where c1: "c1 = setBaseline a u v c" by blast
  from assms s have "c' = c1"
    by (auto simp: calculateTargetCPUs_def Let_def split: sum.splits option.splits if_splits)
  with assms s c1 show ?thesis
    by (auto simp: calculateTargetCPUs_def Let_def setBaseline_def
        split: sum.splits option.splits if_splits)
qed

lemma calculateTargetCPUs_log:
  assumes "calculateTargetCPUs (traced_cpu env) c wl = (t, c', wl')"
  shows "snd wl' = snd wl"
proof -
  obtain r c1 w1 where s: "sampleCPU (traced_cpu env) c wl = (r, c1, w1)"
    by (cases "sampleCPU (traced_cpu env) c wl") auto
  with assms have "wl' = w1"
    by (auto simp: calculateTargetCPUs_def Let_def split: sum.splits option.splits if_splits)
  with sampleCPU_log [OF s] show ?thesis by simp
qed

lemma scaleUp_calls:
  assumes "cpu_scaleUp (traced_cpu env) (cc_currentCPUs c + 1) c wl = (e, c', wl')"
  shows "\<exists>l. snd wl' = snd wl @ l \<and> length l \<le> 1
     \<and> (\<forall>x \<in> set l. \<exists>j r. x = CPlug j r \<and> 0 \<le> j \<and> j < cc_maxCPUs c)
     \<and> (e = None \<longrightarrow> cc_currentCPUs c' = cc_currentCPUs c + succs l)
     \<and> (e = None \<longrightarrow> cc_lastScaleUp c' = ce_clock (traced_cpu env) wl')
     \<and> (e \<noteq> None \<longrightarrow> c' = c)"
proof -
  obtain q w1 where q: "ce_QueryCPUs (traced_cpu env) wl = (q, w1)"
    by (cases "ce_QueryCPUs (traced_cpu env) wl") auto
  then have log: "snd w1 = snd wl" by (auto simp: traced_cpu_def dest: wrapw_log)
  show ?thesis
  proof (cases q)
    case (Inl x)
    with q assms log show ?thesis by (auto simp: cpu_scaleUp_def)
  next
    case (Inr cpus)
    obtain e1 a w2 where lp: "scaleUpLoop (traced_cpu env) (map CPUIndex cpus)
        (cc_currentCPUs c + 1 - cc_currentCPUs c) (nat (cc_maxCPUs c)) 0 0 w1 = (e1, a, w2)"
      by (metis prod.exhaust)
    from scaleUpLoop_calls [OF lp] obtain l where l: "snd w2 = snd w1 @ l" "a = succs l"
      "int (length l) \<le> 1" "\<forall>x \<in> set l. \<exists>j r. x = CPlug j r \<and> 0 \<le> j \<and> j < int (nat (cc_maxCPUs c))"
      by fastforce
    from assms(1) q Inr lp have "wl' = w2" "e = e1"
      "e = None \<longrightarrow> c' = c\<lparr>cc_currentCPUs := cc_currentCPUs c + a,
          cc_lastScaleUp := ce_clock (traced_cpu env) w2, cc_consecutiveHighUsage := 0\<rparr>"
      "e \<noteq> None \<longrightarrow> c' = c"
      by (auto simp: cpu_scaleUp_def split: option.splits)
    moreover have "\<exists>j r. x = CPlug j r \<and> 0 \<le> j \<and> j < cc_maxCPUs c" if "x \<in> set l" for x
    proof -
      from l(4) that obtain j r where "x = CPlug j r" "0 \<le> j" "j < int (nat (cc_maxCPUs c))" by blast
      moreover from this have "j < cc_maxCPUs c" by (cases "0 \<le> cc_maxCPUs c") simp_all
      ultimately show ?thesis by blast
    qed
    ultimately show ?thesis using l log by (intro exI [of _ l]) auto
  qed
qed

lemma scaleDown_calls:
  assumes "cpu_scaleDown (traced_cpu env) (cc_currentCPUs c - 1) c wl = (e, c', wl')"
  shows "\<exists>l. snd wl' = snd wl @ l \<and> succs l \<le> 1
     \<and> (\<forall>x \<in> set l. \<exists>j r. x = CUnplug j r \<and> 0 < j)
     \<and> (e = None \<longrightarrow> cc_currentCPUs c' = cc_currentCPUs c - succs l)
     \<and> (e = None \<longrightarrow> cc_lastScaleDown c' = ce_clock (traced_cpu env) wl')
     \<and> (e \<noteq> None \<longrightarrow> c' = c \<and> l = [])"
proof -
  obtain q w1 where q: "ce_QueryCPUs (traced_cpu env) wl = (q, w1)"
    by (cases "ce_QueryCPUs (traced_cpu env) wl") auto
  then have log: "snd w1 = snd wl" by (auto simp: traced_cpu_def dest: wrapw_log)
  show ?thesis
  proof (cases q)
    case (Inl x)
    with q assms log show ?thesis by (auto simp: cpu_scaleDown_def)
  next
    case (Inr cpus)
    let ?ids = "rev (filter (\<lambda>i. i > 0) (map CPUIndex cpus))"
    obtain a w2 where lp: "scaleDownLoop (traced_cpu env)
        (cc_currentCPUs c - (cc_currentCPUs c - 1)) ?ids 0 w1 = (a, w2)"
      by (metis prod.exhaust)
    from scaleDownLoop_calls [OF lp] obtain l where l: "snd w2 = snd w1 @ l" "a = succs l" "a \<le> 1"
      "\<forall>x \<in> set l. \<exists>j r. x = CUnplug j r \<and> j \<in> set ?ids" by fastforce
    from assms(1) q Inr lp have "wl' = w2" "e = None"
      "c' = c\<lparr>cc_currentCPUs := cc_currentCPUs c - a,
          cc_lastScaleDown := ce_clock (traced_cpu env) w2, cc_consecutiveLowUsage := 0\<rparr>"
      by (auto simp: cpu_scaleDown_def)
    with l log show ?thesis by (intro exI [of _ l]) force
  qed
qed

lemma scaleUpLoop_error:
  assumes "scaleUpLoop (traced_cpu env) ex k n i a wl = (Some e, a', wl')" and "k \<le> a + 1"
  shows "\<exists>l. snd wl' = snd wl @ l \<and> (\<forall>x \<in> set l. \<not> succeeded x)"
  using assms
proof (induction n arbitrary: ex i)
  case 0
  then show ?case by simp
next
  case (Suc n)
  obtain r w1 where h: "ce_HotplugCPU (traced_cpu env) i wl = (r, (w1, snd wl @ [CPlug i r]))"
    using traced_HotplugCPU [of env i wl] by blast
  have stop: "scaleUpLoop (traced_cpu env) ex' k m j (a + 1) w2 = (None, a + 1, w2)" for ex' m j w2
    using Suc.prems(2) by (cases m) simp_all
  show ?case
  proof (cases r)
    case None
    with h Suc show ?thesis by (auto simp: stop split: if_splits)
  next
    case (Some x)
    with h Suc show ?thesis by (fastforce split: if_splits)
  qed
qed

lemma scaleUp_error_calls:
  assumes "cpu_scaleUp (traced_cpu env) (cc_currentCPUs c + 1) c wl = (e, c', wl')" "e \<noteq> None"
  shows "\<exists>l. snd wl' = snd wl @ l \<and> (\<forall>x \<in> set l. \<not> succeeded x)"
proof -
  obtain q w1 where q: "ce_QueryCPUs (traced_cpu env) wl = (q, w1)"
    by (cases "ce_QueryCPUs (traced_cpu env) wl") auto
  then have log: "snd w1 = snd wl" by (auto simp: traced_cpu_def dest: wrapw_log)
  show ?thesis
  proof (cases q)
    case (Inl x)
    with q assms log show ?thesis by (auto simp: cpu_scaleUp_def)
  next
    case (Inr cpus)
    with q assms obtain x a where "scaleUpLoop (traced_cpu env) (map CPUIndex cpus) 1
        (nat (cc_maxCPUs c)) 0 0 w1 = (Some x, a, wl')"
      by (auto simp: cpu_scaleUp_def split: prod.splits option.splits)
    from scaleUpLoop_error [OF this] log show ?thesis by simp
  qed
qed

text \<open>The ways a check can go. \<open>c2\<close> is the controller after the query and the sample.\<close>

lemma check_cases:
  assumes "cpu_checkAndAdjust env c w = (e, c', w')"
  obtains
    (query) x where "ce_QueryCPUs env w = (Inl x, w')" "c' = c" "e \<noteq> None"
  | (idle) cpus w1 t a u v h l where "ce_QueryCPUs env w = (Inr cpus, w1)" "e = None"
      "calculateTargetCPUs env (c\<lparr>cc_currentCPUs := int (length cpus)\<rparr>) w1
         = (t, setBaseline a u v (c\<lparr>cc_currentCPUs := int (length cpus)\<rparr>), w')"
      "c' = (setBaseline a u v (c\<lparr>cc_currentCPUs := int (length cpus)\<rparr>))
         \<lparr>cc_consecutiveHighUsage := h, cc_consecutiveLowUsage := l\<rparr>"
      "h = cc_consecutiveHighUsage c \<or> h = cc_consecutiveHighUsage c + 1 \<or> h = 0"
  | (up) cpus w1 a u v w2 where "ce_QueryCPUs env w = (Inr cpus, w1)" "int (length cpus) < cc_maxCPUs c"
      "calculateTargetCPUs env (c\<lparr>cc_currentCPUs := int (length cpus)\<rparr>) w1
         = (int (length cpus) + 1, setBaseline a u v (c\<lparr>cc_currentCPUs := int (length cpus)\<rparr>), w2)"
      "canScaleUp (ce_clock env w2) c"
      "cc_ScaleUpStability (cc_config c) \<le> cc_consecutiveHighUsage c + 1"
      "cpu_scaleUp env (int (length cpus) + 1)
         ((setBaseline a u v (c\<lparr>cc_currentCPUs := int (length cpus)\<rparr>))
            \<lparr>cc_consecutiveHighUsage := cc_consecutiveHighUsage c + 1, cc_consecutiveLowUsage := 0\<rparr>) w2
         = (e, c', w')"
  | (down) cpus w1 a u v w2 e0 where "ce_QueryCPUs env w = (Inr cpus, w1)"
      "cc_bootCPUs c < int (length cpus)" "1 < length cpus"
      "calculateTargetCPUs env (c\<lparr>cc_currentCPUs := int (length cpus)\<rparr>) w1
         = (int (length cpus) - 1, setBaseline a u v (c\<lparr>cc_currentCPUs := int (length cpus)\<rparr>), w2)"
      "canScaleDown (ce_clock env w2) c" "cc_EnableScaleDown (cc_config c)"
      "cc_ScaleDownStability (cc_config c) \<le> cc_consecutiveLowUsage c + 1"
      "cpu_scaleDown env (int (length cpus) - 1)
         ((setBaseline a u v (c\<lparr>cc_currentCPUs := int (length cpus)\<rparr>))
            \<lparr>cc_consecutiveLowUsage := cc_consecutiveLowUsage c + 1, cc_consecutiveHighUsage := 0\<rparr>) w2
         = (e0, c', w')" "e0 = None \<longleftrightarrow> e = None"
proof -
  obtain q w1 where q: "ce_QueryCPUs env w = (q, w1)" by (cases "ce_QueryCPUs env w") auto
  show ?thesis
  proof (cases q)
    case (Inl x)
    with assms q show ?thesis by (intro query) (auto simp: cpu_checkAndAdjust_def)
  next
    case (Inr cpus)
    let ?c = "c\<lparr>cc_currentCPUs := int (length cpus)\<rparr>"
    obtain t c2 w2 where t: "calculateTargetCPUs env ?c w1 = (t, c2, w2)"
      by (cases "calculateTargetCPUs env ?c w1") auto
    from calculateTargetCPUs_range [OF t] obtain a u v where c2: "c2 = setBaseline a u v ?c"
      and tr: "t = int (length cpus)
        \<or> t = int (length cpus) + 1 \<and> int (length cpus) < cc_maxCPUs c
        \<or> t = int (length cpus) - 1 \<and> cc_bootCPUs c < int (length cpus) \<and> 1 < int (length cpus)"
      by auto
    have f: "cc_currentCPUs c2 = int (length cpus)" "cc_config c2 = cc_config c"
      "cc_consecutiveHighUsage c2 = cc_consecutiveHighUsage c"
      "cc_consecutiveLowUsage c2 = cc_consecutiveLowUsage c"
      "canScaleUp n c2 = canScaleUp n c" "canScaleDown n c2 = canScaleDown n c" for n
      by (simp_all add: c2 setBaseline_def canScaleUp_def canScaleDown_def)
    note run = assms [unfolded cpu_checkAndAdjust_def q Inr prod.case sum.case t Let_def f]
    consider "t = int (length cpus)" | "t = int (length cpus) + 1" | "t = int (length cpus) - 1"
      using tr by blast
    then show ?thesis
    proof cases
      case 1
      with run t q Inr show ?thesis by (intro idle [where cpus = cpus and t = t and a = a and u = u and v = v and h = 0 and l = 0])
               (auto simp: c2 setBaseline_def)
    next
      case 2
      let ?h = "cc_consecutiveHighUsage c + 1"
      show ?thesis
      proof (cases "canScaleUp (ce_clock env w2) c \<and> cc_ScaleUpStability (cc_config c) \<le> ?h")
        case True
        with 2 run t q Inr tr show ?thesis
          by (intro up [of cpus w1 a u v w2]) (auto simp: c2 setBaseline_def)
      next
        case no: False
        show ?thesis
        proof (cases "canScaleUp (ce_clock env w2) c")
          case True
          with 2 no run t q Inr show ?thesis
            by (intro idle [where cpus = cpus and t = t and a = a and u = u and v = v and h = ?h and l = 0])
               (auto simp: c2 setBaseline_def)
        next
          case False
          with 2 run t q Inr show ?thesis
            by (intro idle [where cpus = cpus and t = t and a = a and u = u and v = v and h = "cc_consecutiveHighUsage c" and l = "cc_consecutiveLowUsage c"])
               (auto simp: c2 setBaseline_def)
        qed
      qed
    next
      case 3
      let ?l = "cc_consecutiveLowUsage c + 1"
      show ?thesis
      proof (cases "cc_EnableScaleDown (cc_config c) \<and> canScaleDown (ce_clock env w2) c
          \<and> cc_ScaleDownStability (cc_config c) \<le> ?l")
        case True
        let ?c3 = "c2\<lparr>cc_consecutiveLowUsage := ?l, cc_consecutiveHighUsage := 0\<rparr>"
        obtain e0 c4 w4 where d: "cpu_scaleDown env t ?c3 w2 = (e0, c4, w4)"
          by (cases "cpu_scaleDown env t ?c3 w2") auto
        with 3 run t q Inr tr True show ?thesis
          by (intro down [of cpus w1 a u v w2 e0])
             (auto simp: c2 setBaseline_def split: option.splits)
      next
        case no: False
        consider (off) "\<not> cc_EnableScaleDown (cc_config c)"
          | (cool) "cc_EnableScaleDown (cc_config c)" "\<not> canScaleDown (ce_clock env w2) c"
          | (unstable) "cc_EnableScaleDown (cc_config c)" "canScaleDown (ce_clock env w2) c" by blast
        then show ?thesis
        proof cases
          case off
          with 3 run t q Inr show ?thesis by (intro idle [where cpus = cpus and t = t and a = a and u = u and v = v and h = 0 and l = 0])
               (auto simp: c2 setBaseline_def)
        next
          case cool
          with 3 run t q Inr show ?thesis
            by (intro idle [where cpus = cpus and t = t and a = a and u = u and v = v and h = "cc_consecutiveHighUsage c" and l = "cc_consecutiveLowUsage c"])
               (auto simp: c2 setBaseline_def)
        next
          case unstable
          with 3 no run t q Inr show ?thesis
            by (intro idle [where cpus = cpus and t = t and a = a and u = u and v = v and h = 0 and l = ?l]) (auto simp: c2 setBaseline_def)
        qed
      qed
    qed
  qed
qed

section \<open>Runs\<close>

text \<open>Successive checks of the monitor loop.\<close>

fun cpu_run :: "'v cpu_env \<Rightarrow> nat \<Rightarrow> cpu_Controller \<Rightarrow> 'v \<Rightarrow> cpu_Controller \<times> 'v" where
  "cpu_run env 0 c w = (c, w)"
| "cpu_run env (Suc n) c w =
     (let (_, c', w') = cpu_checkAndAdjust env c w in cpu_run env n c' w')"

definition plugs :: "cpu_call list \<Rightarrow> int" where
  "plugs l = succs (filter isPlug l)"

lemma plugs_append [simp]: "plugs (a @ b) = plugs a + plugs b"
  by (simp add: plugs_def succs_def)

lemma plugs_nonneg: "0 \<le> plugs l"
  by (simp add: plugs_def succs_def)

lemma plugs_unplugs: "\<forall>x \<in> set l. \<exists>j r. x = CUnplug j r \<and> P j \<Longrightarrow> plugs l = 0"
  unfolding plugs_def by (subst filter_False) auto

text \<open>What one check does to the record of calls, the hysteresis counter and the limits.\<close>

lemma check_step:
  assumes "cpu_checkAndAdjust (traced_cpu env) c (w, l) = (e, c', (w', l'))"
  shows "\<exists>d. l' = l @ d \<and> cc_config c' = cc_config c \<and> cc_maxCPUs c' = cc_maxCPUs c
     \<and> plugs d \<le> 1
     \<and> (plugs d = 1 \<longrightarrow> cc_ScaleUpStability (cc_config c) \<le> cc_consecutiveHighUsage c + 1
          \<and> cc_consecutiveHighUsage c' = 0)
     \<and> cc_consecutiveHighUsage c' \<le> max 0 (cc_consecutiveHighUsage c + 1)"
  using assms
proof (cases rule: check_cases)
  case (query x)
  then have "l' = l" by (auto simp: traced_cpu_def dest: wrapw_log)
  with query show ?thesis by (auto simp: plugs_def)
next
  case (idle cpus w1 t a u v h low)
  from idle(1) have "snd w1 = l" by (auto simp: traced_cpu_def dest: wrapw_log)
  with calculateTargetCPUs_log [OF idle(3)] have "l' = l" by simp
  with idle show ?thesis by (auto simp: plugs_def setBaseline_def)
next
  case (up cpus w1 a u v w2)
  from up(1) have "snd w1 = l" by (auto simp: traced_cpu_def dest: wrapw_log)
  with calculateTargetCPUs_log [OF up(3)] have l2: "snd w2 = l" by simp
  let ?c3 = "(setBaseline a u v (c\<lparr>cc_currentCPUs := int (length cpus)\<rparr>))
    \<lparr>cc_consecutiveHighUsage := cc_consecutiveHighUsage c + 1, cc_consecutiveLowUsage := 0\<rparr>"
  have s: "cpu_scaleUp (traced_cpu env) (cc_currentCPUs ?c3 + 1) ?c3 w2 = (e, c', (w', l'))"
    using up(6) by (simp add: setBaseline_def)
  from scaleUp_calls [OF s] l2 obtain d where d: "l' = l @ d" "length d \<le> 1"
    "e \<noteq> None \<longrightarrow> c' = ?c3"
    and pl: "e = None \<longrightarrow> cc_currentCPUs c' = cc_currentCPUs ?c3 + succs d" by auto
  have fr: "cc_config c' = cc_config c" "cc_maxCPUs c' = cc_maxCPUs c"
    "e = None \<longrightarrow> cc_consecutiveHighUsage c' = 0"
    using s by (auto simp: cpu_scaleUp_def setBaseline_def split: prod.splits sum.splits option.splits)
  have fail: "plugs d = 0" if "e \<noteq> None"
    using scaleUp_error_calls [OF s that] d(1) l2 by (auto simp: plugs_def succs_def filter_empty_conv)
  have "plugs d \<le> 1" using d(2) by (cases d) (auto simp: plugs_def)
  with d fr fail up(5) show ?thesis
    by (cases "e = None") (auto simp: setBaseline_def)
next
  case (down cpus w1 a u v w2 e0)
  from down(1) have "snd w1 = l" by (auto simp: traced_cpu_def dest: wrapw_log)
  with calculateTargetCPUs_log [OF down(4)] have l2: "snd w2 = l" by simp
  let ?c3 = "(setBaseline a u v (c\<lparr>cc_currentCPUs := int (length cpus)\<rparr>))
    \<lparr>cc_consecutiveLowUsage := cc_consecutiveLowUsage c + 1, cc_consecutiveHighUsage := 0\<rparr>"
  have s: "cpu_scaleDown (traced_cpu env) (cc_currentCPUs ?c3 - 1) ?c3 w2 = (e0, c', (w', l'))"
    using down(8) by (simp add: setBaseline_def)
  from scaleDown_calls [OF s] l2 obtain d where d: "l' = l @ d"
    "\<forall>x \<in> set d. \<exists>j r. x = CUnplug j r \<and> 0 < j" by auto
  have "cc_config c' = cc_config c \<and> cc_maxCPUs c' = cc_maxCPUs c \<and> cc_consecutiveHighUsage c' = 0"
    using s by (auto simp: cpu_scaleDown_def setBaseline_def split: prod.splits sum.splits)
  with d plugs_unplugs [OF d(2)] show ?thesis by auto
qed

lemma check_high_nonneg:
  assumes "cpu_checkAndAdjust env c w = (e, c', w')" "0 \<le> cc_consecutiveHighUsage c"
  shows "0 \<le> cc_consecutiveHighUsage c'"
  using assms(1)
proof (cases rule: check_cases)
  case (up cpus w1 a u v w2)
  then show ?thesis using assms(2)
    by (auto simp: cpu_scaleUp_def setBaseline_def split: prod.splits sum.splits option.splits)
next
  case (down cpus w1 a u v w2 e0)
  then show ?thesis
    by (auto simp: cpu_scaleDown_def setBaseline_def split: prod.splits sum.splits)
qed (use assms(2) in \<open>auto simp: setBaseline_def\<close>)

lemma cpu_run_rate:
  assumes "0 \<le> cc_consecutiveHighUsage c" "plugs l \<ge> 0"
    and "cpu_run (traced_cpu env) n c (w, l) = (c', (w', l'))"
  shows "cc_ScaleUpStability (cc_config c) * (plugs l' - plugs l)
       \<le> int n + cc_consecutiveHighUsage c"
  using assms
proof (induction n arbitrary: c w l)
  case 0
  then show ?case by simp
next
  case (Suc n)
  obtain e c1 w1 l1 where k: "cpu_checkAndAdjust (traced_cpu env) c (w, l) = (e, c1, (w1, l1))"
    by (metis prod.exhaust)
  from check_step [OF k] obtain d where d: "l1 = l @ d" "cc_config c1 = cc_config c" "plugs d \<le> 1"
    "plugs d = 1 \<longrightarrow> cc_ScaleUpStability (cc_config c) \<le> cc_consecutiveHighUsage c + 1
       \<and> cc_consecutiveHighUsage c1 = 0"
    "cc_consecutiveHighUsage c1 \<le> max 0 (cc_consecutiveHighUsage c + 1)" by blast
  have nn: "0 \<le> cc_consecutiveHighUsage c1" by (rule check_high_nonneg [OF k Suc.prems(1)])
  have "0 \<le> plugs l1" by (rule plugs_nonneg)
  moreover have "cpu_run (traced_cpu env) n c1 (w1, l1) = (c', (w', l'))"
    using Suc.prems(3) k by simp
  ultimately have ih: "cc_ScaleUpStability (cc_config c) * (plugs l' - plugs l1)
      \<le> int n + cc_consecutiveHighUsage c1"
    using Suc.IH [OF nn] d(2) by simp
  have "plugs d = 0 \<or> plugs d = 1" using d(3) plugs_nonneg [of d] by auto
  then show ?case
  proof
    assume "plugs d = 0"
    with ih d(1,5) Suc.prems(1) show ?thesis by simp
  next
    assume 1: "plugs d = 1"
    then have "plugs l' - plugs l = (plugs l' - plugs l1) + 1" using d(1) by simp
    then have "cc_ScaleUpStability (cc_config c) * (plugs l' - plugs l)
        = cc_ScaleUpStability (cc_config c) * (plugs l' - plugs l1) + cc_ScaleUpStability (cc_config c)"
      by (simp only: distrib_left mult_1_right)
    with ih d(4) 1 show ?thesis by linarith
  qed
qed

section \<open>Properties\<close>

text \<open>C21. A check of the CPU controller respects the limits: whatever the VM, the
  statistics and the clock answer and however percentages are rounded, it issues no
  hotplug or unplug command when the query fails; otherwise it issues none, or one hotplug
  command for an identifier below the maximum while the VM has fewer vCPUs than the
  maximum, or unplug commands of which at most one succeeds, never for CPU 0, while
  scale-down is enabled and the VM has more vCPUs than it booted with. Without an error
  the recorded number of vCPUs is the number queried plus the successful commands' effect.\<close>

theorem cpu_check_respects_limits:
  "case cpu_checkAndAdjust (traced_cpu env) c (w, []) of (e, c', (w', l)) \<Rightarrow>
     (case ce_QueryCPUs env w of
        (Inl x, _) \<Rightarrow> l = [] \<and> e \<noteq> None
      | (Inr cpus, _) \<Rightarrow>
          (l = []
           \<or> (\<exists>j r. l = [CPlug j r] \<and> 0 \<le> j \<and> j < cc_maxCPUs c \<and> int (length cpus) < cc_maxCPUs c)
           \<or> (list_all (\<lambda>x. \<exists>j r. x = CUnplug j r \<and> 0 < j) l \<and> succs l \<le> 1
              \<and> cc_bootCPUs c < int (length cpus) \<and> cc_EnableScaleDown (cc_config c)))
          \<and> (if e = None
             then cc_currentCPUs c' = int (length cpus) + plugs l - (succs l - plugs l) else True))"
proof -
  obtain e c' w' l where k: "cpu_checkAndAdjust (traced_cpu env) c (w, []) = (e, c', (w', l))"
    by (metis prod.exhaust)
  from k show ?thesis
  proof (cases rule: check_cases)
    case (query x)
    with k traced_QueryCPUs [OF query(1)] show ?thesis by simp
  next
    case (idle cpus w1 t a u v h low)
    have q: "ce_QueryCPUs env w = (Inr cpus, fst w1)" "snd w1 = []"
      using traced_QueryCPUs [OF idle(1)] by simp_all
    with calculateTargetCPUs_log [OF idle(3)] have "l = []" by simp
    with k q(1) idle(4) show ?thesis by (simp add: plugs_def setBaseline_def)
  next
    case (up cpus w1 a u v w2)
    have q: "ce_QueryCPUs env w = (Inr cpus, fst w1)" "snd w1 = []"
      using traced_QueryCPUs [OF up(1)] by simp_all
    with calculateTargetCPUs_log [OF up(3)] have l2: "snd w2 = []" by simp
    let ?c3 = "(setBaseline a u v (c\<lparr>cc_currentCPUs := int (length cpus)\<rparr>))
      \<lparr>cc_consecutiveHighUsage := cc_consecutiveHighUsage c + 1, cc_consecutiveLowUsage := 0\<rparr>"
    have s: "cpu_scaleUp (traced_cpu env) (cc_currentCPUs ?c3 + 1) ?c3 w2 = (e, c', (w', l))"
      using up(6) by (simp add: setBaseline_def)
    from scaleUp_calls [OF s] l2 have "length l \<le> 1"
      and pl: "\<forall>x \<in> set l. \<exists>j r. x = CPlug j r \<and> 0 \<le> j \<and> j < cc_maxCPUs c"
      and n: "e = None \<longrightarrow> cc_currentCPUs c' = int (length cpus) + succs l"
      by (auto simp: setBaseline_def)
    then have "l = [] \<or> (\<exists>j r. l = [CPlug j r] \<and> 0 \<le> j \<and> j < cc_maxCPUs c)"
      by (cases l) auto
    then show ?thesis using k q(1) up(2) n by (auto simp: plugs_def)
  next
    case (down cpus w1 a u v w2 e0)
    have q: "ce_QueryCPUs env w = (Inr cpus, fst w1)" "snd w1 = []"
      using traced_QueryCPUs [OF down(1)] by simp_all
    with calculateTargetCPUs_log [OF down(4)] have l2: "snd w2 = []" by simp
    let ?c3 = "(setBaseline a u v (c\<lparr>cc_currentCPUs := int (length cpus)\<rparr>))
      \<lparr>cc_consecutiveLowUsage := cc_consecutiveLowUsage c + 1, cc_consecutiveHighUsage := 0\<rparr>"
    have s: "cpu_scaleDown (traced_cpu env) (cc_currentCPUs ?c3 - 1) ?c3 w2 = (e0, c', (w', l))"
      using down(8) by (simp add: setBaseline_def)
    from scaleDown_calls [OF s] l2 have un: "\<forall>x \<in> set l. \<exists>j r. x = CUnplug j r \<and> 0 < j" "succs l \<le> 1"
      and n: "e0 = None \<longrightarrow> cc_currentCPUs c' = int (length cpus) - succs l"
      by (auto simp: setBaseline_def)
    then show ?thesis
      using k q(1) down(2,6,9) plugs_unplugs [OF un(1)] by (simp add: list_all_iff)
  qed
qed

text \<open>Scaling up is damped: in any number of successive checks of a new controller,
  each vCPU added took at least \<open>ScaleUpStability\<close> checks, whatever the load does.\<close>

theorem cpu_scale_up_is_damped:
  "case cpu_NewController boot mx cfg of
     None \<Rightarrow> mx \<le> boot
   | Some c \<Rightarrow>
       cc_ScaleUpStability cfg * plugs (snd (snd (cpu_run (traced_cpu env) n c (w, [])))) \<le> int n"
proof (cases "cpu_NewController boot mx cfg")
  case None
  then show ?thesis by (simp add: cpu_NewController_def split: if_splits)
next
  case (Some c)
  then have c: "cc_consecutiveHighUsage c = 0" "cc_config c = cfg"
    by (auto simp: cpu_NewController_def split: if_splits)
  obtain c' w' l' where r: "cpu_run (traced_cpu env) n c (w, []) = (c', (w', l'))"
    by (metis prod.exhaust)
  from cpu_run_rate [OF _ _ r] c show ?thesis using Some r by (simp add: plugs_def)
qed

text \<open>During the cool-down after a scale-up no vCPU is added: as long as the clock
  reads less than \<open>ScaleUpCooldown\<close> after the last scale-up, a check issues no hotplug
  command.\<close>

theorem cpu_no_plug_during_cooldown:
  assumes "\<not> timeIsZero (cc_lastScaleUp c)"
    and "\<And>v. ce_clock env v - cc_lastScaleUp c < cc_ScaleUpCooldown (cc_config c)"
    and "in64 (cc_ScaleUpCooldown (cc_config c))" and "0 < cc_ScaleUpCooldown (cc_config c)"
  shows "list_all (\<lambda>x. \<not> isPlug x) (snd (snd (snd (cpu_checkAndAdjust (traced_cpu env) c (w, [])))))"
proof -
  obtain e c' w' l where k: "cpu_checkAndAdjust (traced_cpu env) c (w, []) = (e, c', (w', l))"
    by (metis prod.exhaust)
  have no: "\<not> canScaleUp (ce_clock (traced_cpu env) v) c" for v
    using assms(1,3,4) assms(2) [of "fst v"]
      timeSub_less_iff [of "cc_ScaleUpCooldown (cc_config c)" "ce_clock env (fst v)" "cc_lastScaleUp c"]
    by (simp add: canScaleUp_def traced_cpu_def in64_def minInt64_def)
  from k have "list_all (\<lambda>x. \<not> isPlug x) l"
  proof (cases rule: check_cases)
    case (query x)
    then show ?thesis by (auto simp: traced_cpu_def dest: wrapw_log)
  next
    case (idle cpus w1 t a u v h low)
    from idle(1) have "snd w1 = []" by (auto simp: traced_cpu_def dest: wrapw_log)
    with calculateTargetCPUs_log [OF idle(3)] show ?thesis by simp
  next
    case (up cpus w1 a u v w2)
    with no show ?thesis by blast
  next
    case (down cpus w1 a u v w2 e0)
    from down(1) have "snd w1 = []" by (auto simp: traced_cpu_def dest: wrapw_log)
    with calculateTargetCPUs_log [OF down(4)] have l2: "snd w2 = []" by simp
    let ?c3 = "(setBaseline a u v (c\<lparr>cc_currentCPUs := int (length cpus)\<rparr>))
      \<lparr>cc_consecutiveLowUsage := cc_consecutiveLowUsage c + 1, cc_consecutiveHighUsage := 0\<rparr>"
    have "cpu_scaleDown (traced_cpu env) (cc_currentCPUs ?c3 - 1) ?c3 w2 = (e0, c', (w', l))"
      using down(8) by (simp add: setBaseline_def)
    from scaleDown_calls [OF this] l2 show ?thesis by (fastforce simp: list_all_iff)
  qed
  with k show ?thesis by simp
qed

text \<open>An environment with two vCPUs, a busy guest and a clock.\<close>

definition busy_env :: "go_time cpu_env" where
  "busy_env =
     \<lparr>ce_QueryCPUs = (\<lambda>w. (Inr [\<lparr>CPUIndex = 0, QOMPath = '''', Thread = 0, Target = ''''\<rparr>,
                               \<lparr>CPUIndex = 1, QOMPath = '''', Thread = 0, Target = ''''\<rparr>], w)),
      ce_HotplugCPU = (\<lambda>i w. (None, w)), ce_UnplugCPU = (\<lambda>i w. (None, w)),
      ce_stats = Some (\<lambda>w. (Inr (9000000, 0), w)), ce_onlineCPU = None, ce_offlineCPU = None,
      ce_clock = (\<lambda>w. 7 * Second), ce_rnd = Fin\<rparr>"

theorem cpu_no_plug_during_cooldown_witness:
  "\<exists>c. cc_lastScaleUp c = 1 * Second \<and> cc_config c = cpu_DefaultConfig
     \<and> list_all (\<lambda>x. \<not> isPlug x) (snd (snd (snd (cpu_checkAndAdjust (traced_cpu busy_env) c (0, [])))))"
proof -
  let ?c = "(the (cpu_NewController 1 4 cpu_DefaultConfig))\<lparr>cc_lastScaleUp := 1 * Second\<rparr>"
  have "list_all (\<lambda>x. \<not> isPlug x) (snd (snd (snd (cpu_checkAndAdjust (traced_cpu busy_env) ?c (0, [])))))"
    by (rule cpu_no_plug_during_cooldown)
       (simp_all add: cpu_NewController_def cpu_DefaultConfig_def busy_env_def timeIsZero_def
         in64_def minInt64_def maxInt64_def)
  then show ?thesis
    by (intro exI [of _ ?c]) (simp add: cpu_NewController_def)
qed

text \<open>Stopping a started controller a second time closes its channel again and panics.\<close>

lemma cpu_stop_twice_panics:
  "cc_stopCh c = ChanNil \<Longrightarrow>
     bindGo (cpu_Stop (snd (cpu_Start c))) (\<lambda>(_, c'). cpu_Stop c') = Panic ''close of closed channel''"
  by (simp add: cpu_Start_def cpu_Stop_def)

end
