(* ===== verification/Mem_Hotplug.thy ===== *)
theory Mem_Hotplug
  imports Contracts Go_Strings
begin

text \<open>
  \<^verbatim>\<open>internal/shim/memhotplug/controller.go\<close>: the controller that plugs and unplugs memory
  of a VM, one DIMM slot at a time, according to the memory usage of its container.

  The QMP client, the statistics, the guest callbacks and the clock are functions over an
  arbitrary world \<open>'v\<close>. Sizes are \<open>int64\<close> with their wrap-around written out. The map of used
  slots only ever holds \<open>true\<close>, so it is the list of its keys.
\<close>

section \<open>Data\<close>

record mem_Config =
  mc_MonitorInterval :: duration
  mc_ScaleUpCooldown :: duration
  mc_ScaleDownCooldown :: duration
  mc_ScaleUpThreshold :: f64
  mc_ScaleDownThreshold :: f64
  mc_OOMSafetyMarginMB :: int
  mc_IncrementSize :: int
  mc_ScaleUpStability :: int
  mc_ScaleDownStability :: int
  mc_EnableScaleDown :: bool
  mc_MaxSlots :: int

record mem_Controller =
  mc_bootMemory :: int
  mc_maxMemory :: int
  mc_currentMemory :: int
  mc_usedSlots :: "int list"
  mc_config :: mem_Config
  mc_lastScaleUp :: go_time
  mc_lastScaleDown :: go_time
  mc_consecutiveHighUsage :: int
  mc_consecutiveLowUsage :: int
  mc_lastSampleTime :: go_time
  mc_lastMemoryUsage :: int
  mc_started :: bool
  mc_stopCh :: gochan
  mc_stoppedCh :: gochan

record 'v mem_env =
  me_HotplugMemory :: "int \<Rightarrow> int \<Rightarrow> 'v \<Rightarrow> goerr option \<times> 'v"
  me_UnplugMemory :: "int \<Rightarrow> 'v \<Rightarrow> goerr option \<times> 'v"
  me_QueryMemorySizeSummary :: "'v \<Rightarrow> (goerr + int \<times> int) \<times> 'v"
  me_stats :: "'v \<Rightarrow> (goerr + int) \<times> 'v"
  me_onlineMemory :: "int \<Rightarrow> 'v \<Rightarrow> goerr option \<times> 'v"
  me_offlineMemory :: "int \<Rightarrow> 'v \<Rightarrow> goerr option \<times> 'v"
  me_clock :: "'v \<Rightarrow> go_time"
  me_rnd :: rounding

definition mem_DefaultConfig :: mem_Config where
  "mem_DefaultConfig =
     \<lparr>mc_MonitorInterval = 10 * Second, mc_ScaleUpCooldown = 30 * Second,
      mc_ScaleDownCooldown = 60 * Second, mc_ScaleUpThreshold = Fin 85,
      mc_ScaleDownThreshold = Fin 60, mc_OOMSafetyMarginMB = 128,
      mc_IncrementSize = 128 * 1024 * 1024, mc_ScaleUpStability = 3, mc_ScaleDownStability = 6,
      mc_EnableScaleDown = False, mc_MaxSlots = 8\<rparr>"

text \<open>\<open>None\<close> is the no-op controller.\<close>

definition mem_NewController :: "int \<Rightarrow> int \<Rightarrow> mem_Config \<Rightarrow> mem_Controller option" where
  "mem_NewController bootMemory maxMemory config =
     (if maxMemory \<le> bootMemory then None
      else
        (let config1 = (if mc_MaxSlots config < 1 then config\<lparr>mc_MaxSlots := 8\<rparr> else config)
         in Some \<lparr>mc_bootMemory = bootMemory, mc_maxMemory = maxMemory, mc_currentMemory = bootMemory,
                  mc_usedSlots = [], mc_config = config1, mc_lastScaleUp = 0, mc_lastScaleDown = 0,
                  mc_consecutiveHighUsage = 0, mc_consecutiveLowUsage = 0, mc_lastSampleTime = 0,
                  mc_lastMemoryUsage = 0, mc_started = False, mc_stopCh = ChanOpen,
                  mc_stoppedCh = ChanOpen\<rparr>))"

text \<open>\<open>Start\<close> returns whether the goroutine was launched, \<open>Stop\<close> whether the caller then
  waits for the goroutine (which closes \<open>stoppedCh\<close> when it ends).\<close>

definition mem_Start :: "mem_Controller \<Rightarrow> bool \<times> mem_Controller" where
  "mem_Start c = (if mc_started c then (False, c) else (True, c\<lparr>mc_started := True\<rparr>))"

definition mem_Stop :: "mem_Controller \<Rightarrow> (bool \<times> mem_Controller) go" where
  "mem_Stop c =
     (if mc_stopCh c = ChanClosed then Ret (False, c)
      else bindGo (closeChan (mc_stopCh c)) (\<lambda>ch. Ret (True, c\<lparr>mc_stopCh := ch\<rparr>)))"

section \<open>Slots\<close>

definition findFreeSlot :: "mem_Controller \<Rightarrow> int" where
  "findFreeSlot c =
     (case find (\<lambda>i. i \<notin> set (mc_usedSlots c)) (map int [0 ..< nat (mc_MaxSlots (mc_config c))]) of
        Some i \<Rightarrow> i | None \<Rightarrow> - 1)"

definition findUsedSlot :: "mem_Controller \<Rightarrow> int" where
  "findUsedSlot c =
     (case find (\<lambda>i. i \<in> set (mc_usedSlots c)) (rev (map int [0 ..< nat (mc_MaxSlots (mc_config c))])) of
        Some i \<Rightarrow> i | None \<Rightarrow> - 1)"

definition markSlot :: "int \<Rightarrow> mem_Controller \<Rightarrow> mem_Controller" where
  "markSlot i c = c\<lparr>mc_usedSlots := List.insert i (mc_usedSlots c)\<rparr>"

definition freeSlot :: "int \<Rightarrow> mem_Controller \<Rightarrow> mem_Controller" where
  "freeSlot i c = c\<lparr>mc_usedSlots := filter (\<lambda>j. j \<noteq> i) (mc_usedSlots c)\<rparr>"

section \<open>Sampling\<close>

definition sampleMemory ::
  "'v mem_env \<Rightarrow> mem_Controller \<Rightarrow> 'v \<Rightarrow> (goerr + f64 option) \<times> mem_Controller \<times> 'v" where
  "sampleMemory env c w =
     (case me_stats env w of
        (Inl e, w1) \<Rightarrow> (Inl (WrapErr ''failed to get memory stats'' e), c, w1)
      | (Inr usageBytes, w1) \<Rightarrow>
          (let now = me_clock env w1; rnd = me_rnd env;
               c1 = c\<lparr>mc_lastSampleTime := now, mc_lastMemoryUsage := usageBytes\<rparr>
           in if timeIsZero (mc_lastSampleTime c) then (Inr None, c1, w1)
              else (Inr (Some (fMul rnd (fDiv rnd (fOfInt rnd usageBytes)
                                           (fOfInt rnd (mc_currentMemory c))) (Fin 100))), c1, w1)))"

definition calculateTargetMemory ::
  "'v mem_env \<Rightarrow> mem_Controller \<Rightarrow> 'v \<Rightarrow> (goerr + int) \<times> mem_Controller \<times> 'v" where
  "calculateTargetMemory env c0 w0 =
     (case sampleMemory env c0 w0 of
        (Inl e, c, w) \<Rightarrow> (Inl e, c, w)
      | (Inr None, c, w) \<Rightarrow> (Inr (mc_currentMemory c), c, w)
      | (Inr (Some usagePct), c, w) \<Rightarrow>
          (let cfg = mc_config c; cur = mc_currentMemory c; rnd = me_rnd env; now = me_clock env w;
               usedMemory = fToInt64 (fDiv rnd (fMul rnd (fOfInt rnd cur) usagePct) (Fin 100));
               freeMemory = wrap64 (cur - usedMemory);
               safetyMargin = wrap64 (wrap64 (mc_OOMSafetyMarginMB cfg * 1024) * 1024)
           in if fLeq (mc_ScaleUpThreshold cfg) usagePct \<and> freeMemory < safetyMargin then
                (if timeSub now (mc_lastScaleUp c) < mc_ScaleUpCooldown cfg then (Inr cur, c, w)
                 else
                   (let c1 = c\<lparr>mc_consecutiveHighUsage := mc_consecutiveHighUsage c + 1,
                               mc_consecutiveLowUsage := 0\<rparr>
                    in if mc_consecutiveHighUsage c1 \<ge> mc_ScaleUpStability cfg then
                         (let newMemory = min (wrap64 (cur + mc_IncrementSize cfg)) (mc_maxMemory c)
                          in if newMemory > cur then (Inr newMemory, c1, w) else (Inr cur, c1, w))
                       else (Inr cur, c1, w)))
              else if fLess usagePct (mc_ScaleDownThreshold cfg) then
                (if timeSub now (mc_lastScaleDown c) < mc_ScaleDownCooldown cfg then (Inr cur, c, w)
                 else
                   (let c1 = c\<lparr>mc_consecutiveLowUsage := mc_consecutiveLowUsage c + 1,
                               mc_consecutiveHighUsage := 0\<rparr>
                    in if mc_consecutiveLowUsage c1 \<ge> mc_ScaleDownStability cfg then
                         (let newMemory = max (wrap64 (cur - mc_IncrementSize cfg)) (mc_bootMemory c);
                              projectedFree = wrap64 (newMemory - usedMemory)
                          in if projectedFree \<ge> safetyMargin \<and> newMemory < cur
                             then (Inr newMemory, c1, w) else (Inr cur, c1, w))
                       else (Inr cur, c1, w)))
              else (Inr cur, c\<lparr>mc_consecutiveHighUsage := 0, mc_consecutiveLowUsage := 0\<rparr>, w)))"

section \<open>Scaling\<close>

definition mem_scaleUp ::
  "'v mem_env \<Rightarrow> int \<Rightarrow> mem_Controller \<Rightarrow> 'v \<Rightarrow> goerr option \<times> mem_Controller \<times> 'v" where
  "mem_scaleUp env targetMemory c w =
     (let amountToAdd = wrap64 (targetMemory - mc_currentMemory c)
      in if amountToAdd \<le> 0 then (None, c, w)
         else
           (let slotID = findFreeSlot c
            in if slotID < 0 then (Some (Errorf ''no free memory slots available''), c, w)
               else
                 (case me_HotplugMemory env slotID amountToAdd w of
                    (Some e, w1) \<Rightarrow> (Some (WrapErr ''failed to hotplug memory'' e), c, w1)
                  | (None, w1) \<Rightarrow>
                      (let c1 = markSlot slotID c
                       in case me_onlineMemory env slotID w1 of
                            (Some e, w2) \<Rightarrow>
                              (let (_, w3) = me_UnplugMemory env slotID w2
                               in (Some (WrapErr ''memory allocated but failed to online in guest'' e),
                                   freeSlot slotID c1, w3))
                          | (None, w2) \<Rightarrow>
                              (None,
                               c1\<lparr>mc_lastScaleUp := me_clock env w2, mc_consecutiveHighUsage := 0,
                                  mc_currentMemory := targetMemory\<rparr>, w2)))))"

definition mem_scaleDown ::
  "'v mem_env \<Rightarrow> int \<Rightarrow> mem_Controller \<Rightarrow> 'v \<Rightarrow> goerr option \<times> mem_Controller \<times> 'v" where
  "mem_scaleDown env targetMemory c w =
     (let amountToRemove = wrap64 (mc_currentMemory c - targetMemory)
      in if amountToRemove \<le> 0 then (None, c, w)
         else
           (let slotID = findUsedSlot c
            in if slotID < 0 then (Some (Errorf ''no used memory slots to remove''), c, w)
               else
                 (case me_offlineMemory env slotID w of
                    (Some e, w1) \<Rightarrow> (Some (WrapErr ''failed to offline memory'' e), c, w1)
                  | (None, w1) \<Rightarrow>
                      (case me_UnplugMemory env slotID w1 of
                         (Some e, w2) \<Rightarrow>
                           (let (_, w3) = me_onlineMemory env slotID w2
                            in (Some (WrapErr ''failed to unplug memory'' e), c, w3))
                       | (None, w2) \<Rightarrow>
                           (None,
                            (freeSlot slotID c)\<lparr>mc_lastScaleDown := me_clock env w2,
                               mc_consecutiveLowUsage := 0, mc_currentMemory := targetMemory\<rparr>, w2)))))"

definition mem_checkAndAdjust ::
  "'v mem_env \<Rightarrow> mem_Controller \<Rightarrow> 'v \<Rightarrow> goerr option \<times> mem_Controller \<times> 'v" where
  "mem_checkAndAdjust env c w =
     (case me_QueryMemorySizeSummary env w of
        (Inl e, w1) \<Rightarrow> (Some (WrapErr ''failed to query memory summary'' e), c, w1)
      | (Inr (baseMemory, pluggedMemory), w1) \<Rightarrow>
          (case calculateTargetMemory env
                  (c\<lparr>mc_currentMemory := wrap64 (baseMemory + pluggedMemory)\<rparr>) w1 of
             (Inl e, c2, w2) \<Rightarrow> (Some (WrapErr ''failed to calculate target memory'' e), c2, w2)
           | (Inr target, c2, w2) \<Rightarrow>
               if target = mc_currentMemory c2 then (None, c2, w2)
               else if target > mc_currentMemory c2 then mem_scaleUp env target c2 w2
               else if target < mc_currentMemory c2 \<and> mc_EnableScaleDown (mc_config c2)
               then mem_scaleDown env target c2 w2
               else (None, c2, w2)))"

section \<open>The slots as a pool\<close>

definition slots_inv :: "mem_Controller \<Rightarrow> bool" where
  "slots_inv c \<longleftrightarrow>
     distinct (mc_usedSlots c) \<and> (\<forall>i \<in> set (mc_usedSlots c). 0 \<le> i \<and> i < mc_MaxSlots (mc_config c))"

definition allSlots :: "mem_Controller \<Rightarrow> int set" where
  "allSlots c = {0 ..< mc_MaxSlots (mc_config c)}"

definition freeSlotOpt :: "mem_Controller \<Rightarrow> int option" where
  "freeSlotOpt c = (let i = findFreeSlot c in if i < 0 then None else Some i)"

lemma set_slots: "set (map int [0 ..< nat m]) = {0 ..< m}"
  by (cases "0 \<le> m") (simp_all add: image_int_atLeastLessThan)

lemma find_SomeD: "find P xs = Some x \<Longrightarrow> P x \<and> x \<in> set xs"
  by (metis find_Some_iff nth_mem)

lemma findFreeSlot_cases:
  "findFreeSlot c = - 1 \<and> allSlots c \<subseteq> set (mc_usedSlots c)
   \<or> findFreeSlot c \<in> allSlots c \<and> findFreeSlot c \<notin> set (mc_usedSlots c)"
proof (cases "find (\<lambda>i. i \<notin> set (mc_usedSlots c)) (map int [0 ..< nat (mc_MaxSlots (mc_config c))])")
  case None
  then have "\<forall>i \<in> set (map int [0 ..< nat (mc_MaxSlots (mc_config c))]). i \<in> set (mc_usedSlots c)"
    by (auto simp: find_None_iff)
  then have "allSlots c \<subseteq> set (mc_usedSlots c)" unfolding set_slots allSlots_def by blast
  with None show ?thesis by (simp add: findFreeSlot_def)
next
  case (Some i)
  from find_SomeD [OF this] have "i \<notin> set (mc_usedSlots c)" "i \<in> allSlots c"
    unfolding set_slots allSlots_def by blast+
  with Some show ?thesis by (simp add: findFreeSlot_def)
qed

lemma findUsedSlot_cases:
  "findUsedSlot c = - 1 \<or> findUsedSlot c \<in> allSlots c \<and> findUsedSlot c \<in> set (mc_usedSlots c)"
proof (cases "find (\<lambda>i. i \<in> set (mc_usedSlots c)) (rev (map int [0 ..< nat (mc_MaxSlots (mc_config c))]))")
  case None
  then show ?thesis by (simp add: findUsedSlot_def)
next
  case (Some i)
  from find_SomeD [OF this] have "i \<in> set (mc_usedSlots c)" "i \<in> allSlots c"
    unfolding set_rev set_slots allSlots_def by blast+
  with Some show ?thesis by (simp add: findUsedSlot_def)
qed

interpretation mem_slots: slot_pool slots_inv "\<lambda>c. set (mc_usedSlots c)" allSlots freeSlotOpt markSlot freeSlot
proof
  fix c :: mem_Controller and k
  assume inv: "slots_inv c"
  show "finite (allSlots c)" by (simp add: allSlots_def)
  show "set (mc_usedSlots c) \<subseteq> allSlots c" using inv by (auto simp: slots_inv_def allSlots_def)
  show "set (mc_usedSlots (freeSlot k c)) = set (mc_usedSlots c) - {k}"
    "allSlots (freeSlot k c) = allSlots c" "slots_inv (freeSlot k c)"
    using inv by (auto simp: freeSlot_def allSlots_def slots_inv_def)
  show "allSlots c \<subseteq> set (mc_usedSlots c)" if "freeSlotOpt c = None"
    using that findFreeSlot_cases [of c] by (auto simp: freeSlotOpt_def allSlots_def Let_def split: if_splits)
  assume "freeSlotOpt c = Some k"
  then have k: "k \<in> allSlots c" "k \<notin> set (mc_usedSlots c)"
    using findFreeSlot_cases [of c] by (auto simp: freeSlotOpt_def Let_def split: if_splits)
  then show "k \<in> allSlots c \<and> k \<notin> set (mc_usedSlots c)" by blast
  show "set (mc_usedSlots (markSlot k c)) = insert k (set (mc_usedSlots c))"
    "allSlots (markSlot k c) = allSlots c"
    by (auto simp: markSlot_def allSlots_def)
  show "slots_inv (markSlot k c)"
    using inv k by (auto simp: markSlot_def slots_inv_def allSlots_def)
qed

section \<open>The commands of a check\<close>

datatype mem_call =
    MPlug int int "goerr option"
  | MUnplug int "goerr option"
  | MOnline int "goerr option"
  | MOffline int "goerr option"

definition traced_mem :: "'v mem_env \<Rightarrow> ('v \<times> mem_call list) mem_env" where
  "traced_mem env =
     \<lparr>me_HotplugMemory = (\<lambda>i z wl. let (r, w) = me_HotplugMemory env i z (fst wl) in (r, (w, snd wl @ [MPlug i z r]))),
      me_UnplugMemory = (\<lambda>i wl. let (r, w) = me_UnplugMemory env i (fst wl) in (r, (w, snd wl @ [MUnplug i r]))),
      me_QueryMemorySizeSummary = (\<lambda>wl. let (r, w) = me_QueryMemorySizeSummary env (fst wl) in (r, (w, snd wl))),
      me_stats = (\<lambda>wl. let (r, w) = me_stats env (fst wl) in (r, (w, snd wl))),
      me_onlineMemory = (\<lambda>i wl. let (r, w) = me_onlineMemory env i (fst wl) in (r, (w, snd wl @ [MOnline i r]))),
      me_offlineMemory = (\<lambda>i wl. let (r, w) = me_offlineMemory env i (fst wl) in (r, (w, snd wl @ [MOffline i r]))),
      me_clock = (\<lambda>wl. me_clock env (fst wl)), me_rnd = me_rnd env\<rparr>"

text \<open>The commands of a scale-up of \<open>z\<close> bytes into slot \<open>s\<close>, and of a scale-down of slot
  \<open>s\<close>, with the used slots they leave.\<close>

definition up_calls :: "mem_Controller \<Rightarrow> int \<Rightarrow> int \<Rightarrow> mem_call list \<Rightarrow> int list \<Rightarrow> bool" where
  "up_calls c s z l used \<longleftrightarrow>
     (\<exists>e. l = [MPlug s z (Some e)] \<and> used = mc_usedSlots c)
     \<or> l = [MPlug s z None, MOnline s None] \<and> set used = insert s (set (mc_usedSlots c))
     \<or> (\<exists>e r. l = [MPlug s z None, MOnline s (Some e), MUnplug s r]
          \<and> set used = set (mc_usedSlots c))"

definition down_calls :: "mem_Controller \<Rightarrow> int \<Rightarrow> mem_call list \<Rightarrow> int list \<Rightarrow> bool" where
  "down_calls c s l used \<longleftrightarrow>
     (\<exists>e. l = [MOffline s (Some e)] \<and> used = mc_usedSlots c)
     \<or> l = [MOffline s None, MUnplug s None] \<and> set used = set (mc_usedSlots c) - {s}
     \<or> (\<exists>e r. l = [MOffline s None, MUnplug s (Some e), MOnline s r] \<and> used = mc_usedSlots c)"

lemma mem_scaleUp_calls:
  assumes "mem_scaleUp (traced_mem env) t c (w, []) = (e, c', (w', l))"
  shows "l = [] \<and> mc_usedSlots c' = mc_usedSlots c
     \<or> (\<exists>s. s \<in> allSlots c \<and> s \<notin> set (mc_usedSlots c) \<and> 0 < wrap64 (t - mc_currentMemory c)
          \<and> up_calls c s (wrap64 (t - mc_currentMemory c)) l (mc_usedSlots c'))"
proof (cases "wrap64 (t - mc_currentMemory c) \<le> 0 \<or> findFreeSlot c < 0")
  case True
  with assms show ?thesis by (auto simp: mem_scaleUp_def Let_def split: if_splits)
next
  case False
  then have s: "findFreeSlot c \<in> allSlots c" "findFreeSlot c \<notin> set (mc_usedSlots c)"
    using findFreeSlot_cases [of c] by auto
  with False assms show ?thesis
    by (auto simp: mem_scaleUp_def traced_mem_def up_calls_def markSlot_def freeSlot_def Let_def
        split: prod.splits option.splits intro!: exI [of _ "findFreeSlot c"])
qed

lemma mem_scaleDown_calls:
  assumes "mem_scaleDown (traced_mem env) t c (w, []) = (e, c', (w', l))"
  shows "l = [] \<and> mc_usedSlots c' = mc_usedSlots c
     \<or> (\<exists>s. s \<in> allSlots c \<and> s \<in> set (mc_usedSlots c) \<and> down_calls c s l (mc_usedSlots c'))"
proof (cases "wrap64 (mc_currentMemory c - t) \<le> 0 \<or> findUsedSlot c < 0")
  case True
  with assms show ?thesis by (auto simp: mem_scaleDown_def Let_def split: if_splits)
next
  case False
  then have s: "findUsedSlot c \<in> allSlots c" "findUsedSlot c \<in> set (mc_usedSlots c)"
    using findUsedSlot_cases [of c] by auto
  with False assms show ?thesis
    by (auto simp: mem_scaleDown_def traced_mem_def down_calls_def freeSlot_def Let_def
        split: prod.splits option.splits intro!: exI [of _ "findUsedSlot c"])
qed

text \<open>The target: the current size, more up to the maximum, or less down to the boot size.
  The calculation touches the sample and the hysteresis counters only.\<close>

definition same_but_counters :: "mem_Controller \<Rightarrow> mem_Controller \<Rightarrow> bool" where
  "same_but_counters c c' \<longleftrightarrow>
     mc_bootMemory c' = mc_bootMemory c \<and> mc_maxMemory c' = mc_maxMemory c
     \<and> mc_currentMemory c' = mc_currentMemory c \<and> mc_usedSlots c' = mc_usedSlots c
     \<and> mc_config c' = mc_config c \<and> mc_lastScaleUp c' = mc_lastScaleUp c
     \<and> mc_lastScaleDown c' = mc_lastScaleDown c"

lemma sampleMemory_frame:
  assumes "sampleMemory env c w = (r, c', w')"
  shows "same_but_counters c c'"
  using assms by (auto simp: sampleMemory_def same_but_counters_def Let_def split: prod.splits sum.splits if_splits)

lemma calculateTargetMemory_range:
  assumes "calculateTargetMemory env c w = (r, c', w')"
  shows "same_but_counters c c'
     \<and> (\<forall>t. r = Inr t \<longrightarrow>
          t = mc_currentMemory c
          \<or> mc_currentMemory c < t \<and> t \<le> mc_maxMemory c \<and> t \<le> wrap64 (mc_currentMemory c + mc_IncrementSize (mc_config c))
          \<or> t < mc_currentMemory c \<and> mc_bootMemory c \<le> t)"
proof -
  obtain s c1 w1 where s: "sampleMemory env c w = (s, c1, w1)" by (cases "sampleMemory env c w") auto
  note f = sampleMemory_frame [OF s, unfolded same_but_counters_def]
  consider e where "s = Inl e" | "s = Inr None" | p where "s = Inr (Some p)"
    by (metis old.sum.exhaust option.exhaust)
  then show ?thesis
  proof cases
    case (3 p)
    with s assms f show ?thesis
      unfolding calculateTargetMemory_def same_but_counters_def Let_def
      by (simp split: if_splits) auto
  qed (use s assms f in \<open>auto simp: calculateTargetMemory_def same_but_counters_def\<close>)
qed

lemma traced_query:
  "me_QueryMemorySizeSummary (traced_mem env) wl = (r, wl') \<Longrightarrow>
     me_QueryMemorySizeSummary env (fst wl) = (r, fst wl') \<and> snd wl' = snd wl"
  by (auto simp: traced_mem_def split: prod.splits)

lemma calculateTargetMemory_log:
  assumes "calculateTargetMemory (traced_mem env) c wl = (r, c', wl')"
  shows "snd wl' = snd wl"
proof -
  obtain s c1 w1 where s: "sampleMemory (traced_mem env) c wl = (s, c1, w1)"
    by (cases "sampleMemory (traced_mem env) c wl") auto
  then have "snd w1 = snd wl"
    by (auto simp: sampleMemory_def traced_mem_def Let_def split: prod.splits sum.splits if_splits)
  moreover from assms s have "wl' = w1"
    by (auto simp: calculateTargetMemory_def Let_def split: sum.splits option.splits if_splits)
  ultimately show ?thesis by simp
qed

lemma same_slots: "same_but_counters c c' \<Longrightarrow> allSlots c' = allSlots c"
  by (simp add: same_but_counters_def allSlots_def)

lemma up_calls_cong: "mc_usedSlots c = mc_usedSlots d \<Longrightarrow> up_calls c = up_calls d"
  and down_calls_cong: "mc_usedSlots c = mc_usedSlots d \<Longrightarrow> down_calls c = down_calls d"
  by (simp_all add: up_calls_def down_calls_def fun_eq_iff)

text \<open>What one check does, for a VM that reports \<open>total\<close> bytes.\<close>

definition mem_step_ok ::
  "mem_Controller \<Rightarrow> int \<Rightarrow> mem_call list \<Rightarrow> int list \<Rightarrow> bool" where
  "mem_step_ok c tot l used \<longleftrightarrow>
     l = [] \<and> used = mc_usedSlots c
     \<or> (\<exists>s t. s \<in> allSlots c \<and> s \<notin> set (mc_usedSlots c)
          \<and> tot < t \<and> t \<le> mc_maxMemory c \<and> 0 < wrap64 (t - tot)
          \<and> up_calls c s (wrap64 (t - tot)) l used)
     \<or> (\<exists>s. s \<in> allSlots c \<and> s \<in> set (mc_usedSlots c) \<and> mc_bootMemory c < tot
          \<and> mc_EnableScaleDown (mc_config c) \<and> down_calls c s l used)"

lemma mem_check_step:
  assumes "mem_checkAndAdjust (traced_mem env) c (w, []) = (e, c', (w', l))"
    and "me_QueryMemorySizeSummary env w = (Inr (b, p), w0)"
  shows "mem_step_ok c (wrap64 (b + p)) l (mc_usedSlots c')"
proof -
  let ?total = "wrap64 (b + p)"
  let ?c1 = "c\<lparr>mc_currentMemory := ?total\<rparr>"
  have q: "me_QueryMemorySizeSummary (traced_mem env) (w, []) = (Inr (b, p), (w0, []))"
    by (simp add: traced_mem_def assms(2))
  obtain r c2 w2 where t: "calculateTargetMemory (traced_mem env) ?c1 (w0, []) = (r, c2, w2)"
    by (cases "calculateTargetMemory (traced_mem env) ?c1 (w0, [])") auto
  from calculateTargetMemory_log [OF t] obtain v2 where w2: "w2 = (v2, [])" by (cases w2) auto
  note range = calculateTargetMemory_range [OF t]
  have c2: "mc_usedSlots c2 = mc_usedSlots c" "mc_currentMemory c2 = ?total" "allSlots c2 = allSlots c"
    "mc_config c2 = mc_config c"
    using range by (auto simp: same_but_counters_def allSlots_def)
  note run = assms(1) [unfolded mem_checkAndAdjust_def q prod.case sum.case t]
  show ?thesis
  proof (cases r)
    case (Inl x)
    with run w2 c2 show ?thesis by (simp add: mem_step_ok_def)
  next
    case (Inr tg)
    consider (eq) "tg = ?total" | (gt) "?total < tg" "tg \<le> mc_maxMemory c"
      | (lt) "tg < ?total" "mc_bootMemory c \<le> tg"
      using range Inr by auto
    then show ?thesis
    proof cases
      case eq
      with Inr run w2 c2 show ?thesis by (simp add: mem_step_ok_def)
    next
      case gt
      with Inr run w2 c2 have "mem_scaleUp (traced_mem env) tg c2 (v2, []) = (e, c', (w', l))" by simp
      from mem_scaleUp_calls [OF this] gt c2 up_calls_cong [OF c2(1)] show ?thesis
        unfolding mem_step_ok_def by auto
    next
      case lt
      show ?thesis
      proof (cases "mc_EnableScaleDown (mc_config c)")
        case True
        with lt Inr run w2 c2 have "mem_scaleDown (traced_mem env) tg c2 (v2, []) = (e, c', (w', l))" by simp
        from mem_scaleDown_calls [OF this] lt c2 True down_calls_cong [OF c2(1)] show ?thesis
          unfolding mem_step_ok_def by auto
      next
        case False
        with lt Inr run w2 c2 show ?thesis by (simp add: mem_step_ok_def)
      qed
    qed
  qed
qed

section \<open>Runs\<close>

fun mem_run :: "'v mem_env \<Rightarrow> nat \<Rightarrow> mem_Controller \<Rightarrow> 'v \<Rightarrow> mem_Controller \<times> 'v" where
  "mem_run env 0 c w = (c, w)"
| "mem_run env (Suc n) c w =
     (let (_, c', w') = mem_checkAndAdjust env c w in mem_run env n c' w')"

lemma same_slots_inv: "same_but_counters c c' \<Longrightarrow> slots_inv c' = slots_inv c"
  by (simp add: same_but_counters_def slots_inv_def)

lemma mem_scaleUp_shape:
  assumes "mem_scaleUp env t c w = (e, c', w')"
  shows "c' = c \<or> (\<not> findFreeSlot c < 0
     \<and> (c' = freeSlot (findFreeSlot c) (markSlot (findFreeSlot c) c)
        \<or> (\<exists>a. c' = (markSlot (findFreeSlot c) c)
             \<lparr>mc_lastScaleUp := a, mc_consecutiveHighUsage := 0, mc_currentMemory := t\<rparr>)))"
  using assms unfolding mem_scaleUp_def Let_def
  by (auto split: if_splits prod.splits option.splits)

lemma mem_scaleDown_shape:
  assumes "mem_scaleDown env t c w = (e, c', w')"
  shows "c' = c \<or> (\<exists>a. c' = (freeSlot (findUsedSlot c) c)
             \<lparr>mc_lastScaleDown := a, mc_consecutiveLowUsage := 0, mc_currentMemory := t\<rparr>)"
  using assms unfolding mem_scaleDown_def Let_def
  by (auto split: if_splits prod.splits option.splits)

lemma slots_inv_update:
  "slots_inv (c\<lparr>mc_lastScaleUp := a, mc_consecutiveHighUsage := b, mc_currentMemory := t\<rparr>) = slots_inv c"
  "slots_inv (c\<lparr>mc_lastScaleDown := a, mc_consecutiveLowUsage := b, mc_currentMemory := t\<rparr>) = slots_inv c"
  "mc_config (markSlot i c) = mc_config c" "mc_config (freeSlot i c) = mc_config c"
  by (simp_all add: slots_inv_def markSlot_def freeSlot_def)

lemma scaleUp_slots_inv:
  assumes inv: "slots_inv c" and k: "mem_scaleUp env t c w = (e, c', w')"
  shows "slots_inv c' \<and> mc_config c' = mc_config c"
proof -
  have m: "slots_inv (markSlot (findFreeSlot c) c)" if "\<not> findFreeSlot c < 0"
    using that inv by (intro mem_slots.inv_take) (simp_all add: freeSlotOpt_def)
  from mem_scaleUp_shape [OF k] show ?thesis
  proof (elim disjE conjE exE)
    assume "\<not> findFreeSlot c < 0" "c' = freeSlot (findFreeSlot c) (markSlot (findFreeSlot c) c)"
    then show ?thesis using mem_slots.inv_give [OF m] by (simp add: slots_inv_update)
  qed (use inv m in \<open>simp_all add: slots_inv_update\<close>)
qed

lemma scaleDown_slots_inv:
  assumes inv: "slots_inv c" and k: "mem_scaleDown env t c w = (e, c', w')"
  shows "slots_inv c' \<and> mc_config c' = mc_config c"
  using mem_scaleDown_shape [OF k] inv mem_slots.inv_give [OF inv]
  by (elim disjE exE) (simp_all add: slots_inv_update)

lemma check_slots_inv:
  assumes "slots_inv c" "mem_checkAndAdjust env c w = (e, c', w')"
  shows "slots_inv c' \<and> mc_config c' = mc_config c"
proof -
  obtain q w1 where q: "me_QueryMemorySizeSummary env w = (q, w1)"
    by (cases "me_QueryMemorySizeSummary env w") auto
  show ?thesis
  proof (cases q)
    case (Inl x)
    with q assms show ?thesis by (auto simp: mem_checkAndAdjust_def)
  next
    case (Inr bp)
    obtain b p where bp: "bp = (b, p)" by (cases bp)
    let ?c1 = "c\<lparr>mc_currentMemory := wrap64 (b + p)\<rparr>"
    obtain r c2 w2 where t: "calculateTargetMemory env ?c1 w1 = (r, c2, w2)"
      by (cases "calculateTargetMemory env ?c1 w1") auto
    from calculateTargetMemory_range [OF t] have same: "same_but_counters ?c1 c2" by (rule conjunct1)
    have "slots_inv ?c1" using assms(1) by (simp add: slots_inv_def)
    then have c2: "slots_inv c2" "mc_config c2 = mc_config c"
      using same same_slots_inv [OF same] by (simp_all add: same_but_counters_def)
    note run = assms(2) [unfolded mem_checkAndAdjust_def q Inr bp prod.case sum.case t]
    from run c2 show ?thesis
      by (cases r)
         (auto split: if_splits dest: scaleUp_slots_inv [OF c2(1)] scaleDown_slots_inv [OF c2(1)])
  qed
qed

lemma run_slots_inv:
  assumes "slots_inv c" "mem_run env n c w = (c', w')"
  shows "slots_inv c' \<and> mc_config c' = mc_config c"
  using assms
proof (induction n arbitrary: c w)
  case 0
  then show ?case by simp
next
  case (Suc n)
  obtain e c1 w1 where k: "mem_checkAndAdjust env c w = (e, c1, w1)"
    by (cases "mem_checkAndAdjust env c w") auto
  with Suc show ?case using check_slots_inv [OF Suc.prems(1) k] by fastforce
qed

section \<open>Properties\<close>


text \<open>The controller never uses more DIMM slots than the VM has: after any number of
  checks of a new controller the slots marked used are distinct slots of the VM, so there
  are at most \<open>MaxSlots\<close> of them.\<close>

theorem mem_slots_bounded:
  "case mem_NewController boot mx cfg of
     None \<Rightarrow> mx \<le> boot
   | Some c \<Rightarrow>
       (case mem_run env n c w of (c', w') \<Rightarrow>
          slots_inv c' \<and> card (set (mc_usedSlots c')) \<le> nat (mc_MaxSlots (mc_config c)))"
proof (cases "mem_NewController boot mx cfg")
  case None
  then show ?thesis by (simp add: mem_NewController_def Let_def split: if_splits)
next
  case (Some c)
  then have c: "slots_inv c" by (auto simp: mem_NewController_def slots_inv_def Let_def split: if_splits)
  obtain c' w' where r: "mem_run env n c w = (c', w')" by (cases "mem_run env n c w")
  from run_slots_inv [OF c r] mem_slots.card_used_le [of c'] Some r show ?thesis
    by (simp add: allSlots_def)
qed

text \<open>A DIMM that the guest does not online and that cannot be unplugged either stays in the
  VM while its slot is marked free, so the next scale-up picks the same slot again.\<close>

lemma mem_failed_rollback_forgets_dimm:
  assumes "mem_scaleUp (traced_mem env) t c (w, []) = (e, c', (w', [MPlug s z None, MOnline s (Some x), MUnplug s (Some y)]))"
  shows "findFreeSlot c' = s"
proof -
  from assms have s: "\<not> findFreeSlot c < 0" "findFreeSlot c = s" "c' = freeSlot s (markSlot s c)"
    by (auto simp: mem_scaleUp_def traced_mem_def Let_def split: if_splits prod.splits option.splits)
  then have "s \<notin> set (mc_usedSlots c)" using findFreeSlot_cases [of c] by auto
  then have "set (mc_usedSlots c') = set (mc_usedSlots c)" "mc_config c' = mc_config c"
    by (auto simp: s(3) freeSlot_def markSlot_def)
  then have "findFreeSlot c' = findFreeSlot c" by (simp add: findFreeSlot_def)
  with s(2) show ?thesis by simp
qed

end
