(* ===== verification/Shim_Lifecycle.thy ===== *)
theory Shim_Lifecycle
  imports Contracts Go_Strings
begin

text \<open>
  \<^verbatim>\<open>internal/shim/lifecycle\<close>: the shim's state machine (\<^verbatim>\<open>state.go\<close>), the errors of a
  shutdown (\<^verbatim>\<open>errors.go\<close>) and the cleanup orchestrator (\<^verbatim>\<open>cleanup.go\<close>).

  The state machine is a record with the two atomics; every method performs one atomic
  write, so a sequence of operations is an interleaving of concurrent callers. The
  orchestrator runs cleanup functions, which are state transformers of an arbitrary world
  \<open>'w\<close> that may fail.
\<close>

section \<open>The shim state machine\<close>

datatype ShimState =
    StateIdle
  | StateCreating
  | StateRunning
  | StateShuttingDown
  | StateDeleting
  | StateOther int

fun ShimState_String :: "ShimState \<Rightarrow> string" where
  "ShimState_String StateIdle = ''idle''"
| "ShimState_String StateCreating = ''creating''"
| "ShimState_String StateRunning = ''running''"
| "ShimState_String StateShuttingDown = ''shutting_down''"
| "ShimState_String StateDeleting = ''deleting''"
| "ShimState_String (StateOther n) = ''unknown('' @ itoa n @ '')''"

record StateTransitionError =
  ste_From :: string
  ste_To :: string
  ste_Current :: string

definition ErrInvalidStateTransition :: goerr where
  "ErrInvalidStateTransition = Sentinel ''invalid state transition''"

definition NewStateTransitionError :: "string \<Rightarrow> string \<Rightarrow> string \<Rightarrow> StateTransitionError" where
  "NewStateTransitionError from to current =
     \<lparr>ste_From = from, ste_To = to, ste_Current = current\<rparr>"

definition StateTransitionError_Error :: "StateTransitionError \<Rightarrow> string" where
  "StateTransitionError_Error e =
     ''invalid state transition from '' @ ste_From e @ '' to '' @ ste_To e
       @ '' (current state: '' @ ste_Current e @ '')''"

definition StateTransitionError_Is :: "StateTransitionError \<Rightarrow> goerr \<Rightarrow> bool" where
  "StateTransitionError_Is e target \<longleftrightarrow> target = ErrInvalidStateTransition"

record StateMachine =
  sm_state :: ShimState
  sm_intentionalShutdown :: bool

definition NewStateMachine :: StateMachine where
  "NewStateMachine = \<lparr>sm_state = StateIdle, sm_intentionalShutdown = False\<rparr>"

definition State :: "StateMachine \<Rightarrow> ShimState" where
  "State sm = sm_state sm"

definition IsIntentionalShutdown :: "StateMachine \<Rightarrow> bool" where
  "IsIntentionalShutdown sm = sm_intentionalShutdown sm"

definition SetIntentionalShutdown :: "bool \<Rightarrow> StateMachine \<Rightarrow> StateMachine" where
  "SetIntentionalShutdown v sm = sm\<lparr>sm_intentionalShutdown := v\<rparr>"

text \<open>\<open>sm.state.CompareAndSwap(old, new)\<close> and the plain store.\<close>

definition sm_store :: "ShimState \<Rightarrow> StateMachine \<Rightarrow> StateMachine" where
  "sm_store v sm = sm\<lparr>sm_state := v\<rparr>"

definition sm_cas :: "ShimState \<Rightarrow> ShimState \<Rightarrow> StateMachine \<Rightarrow> bool \<times> StateMachine" where
  "sm_cas old new sm = (if sm_state sm = old then (True, sm\<lparr>sm_state := new\<rparr>) else (False, sm))"

fun isValidTransition :: "ShimState \<Rightarrow> ShimState \<Rightarrow> bool" where
  "isValidTransition from to =
     (if to = StateShuttingDown then True
      else case from of
        StateIdle \<Rightarrow> to = StateCreating
      | StateCreating \<Rightarrow> to = StateRunning \<or> to = StateIdle
      | StateRunning \<Rightarrow> to = StateDeleting \<or> to = StateShuttingDown
      | StateDeleting \<Rightarrow> to = StateShuttingDown
      | StateShuttingDown \<Rightarrow> False
      | StateOther n \<Rightarrow> False)"

text \<open>
  \<open>Transition\<close> returns the error, if any, and the machine. The current state named in
  an error is loaded after the failed swap; with one caller it is the state the swap saw.
\<close>

definition Transition ::
  "ShimState \<Rightarrow> ShimState \<Rightarrow> StateMachine \<Rightarrow> StateTransitionError option \<times> StateMachine" where
  "Transition from to sm =
     (let err = Some (NewStateTransitionError (ShimState_String from) (ShimState_String to)
                        (ShimState_String (State sm)))
      in if \<not> isValidTransition from to then (err, sm)
         else case sm_cas from to sm of
                (False, sm') \<Rightarrow> (err, sm')
              | (True, sm') \<Rightarrow> (None, sm'))"

definition ForceTransition :: "ShimState \<Rightarrow> StateMachine \<Rightarrow> ShimState \<times> StateMachine" where
  "ForceTransition to sm = (sm_state sm, sm_store to sm)"

definition TryStartCreating :: "StateMachine \<Rightarrow> bool \<times> StateMachine" where
  "TryStartCreating sm = sm_cas StateIdle StateCreating sm"

definition TryStartDeleting :: "StateMachine \<Rightarrow> bool \<times> StateMachine" where
  "TryStartDeleting sm = sm_cas StateRunning StateDeleting sm"

definition MarkCreated :: "StateMachine \<Rightarrow> StateTransitionError option \<times> StateMachine" where
  "MarkCreated sm =
     (case sm_cas StateCreating StateRunning sm of
        (False, sm') \<Rightarrow>
          (Some (NewStateTransitionError (ShimState_String StateCreating)
                   (ShimState_String StateRunning) (ShimState_String (State sm'))), sm')
      | (True, sm') \<Rightarrow> (None, sm'))"

definition MarkCreationFailed :: "StateMachine \<Rightarrow> StateTransitionError option \<times> StateMachine" where
  "MarkCreationFailed sm =
     (case sm_cas StateCreating StateIdle sm of
        (False, sm') \<Rightarrow>
          (Some (NewStateTransitionError (ShimState_String StateCreating)
                   (ShimState_String StateIdle) (ShimState_String (State sm'))), sm')
      | (True, sm') \<Rightarrow> (None, sm'))"

definition IsCreating :: "StateMachine \<Rightarrow> bool" where
  "IsCreating sm \<longleftrightarrow> State sm = StateCreating"

definition IsDeleting :: "StateMachine \<Rightarrow> bool" where
  "IsDeleting sm \<longleftrightarrow> State sm = StateDeleting"

definition IsRunning :: "StateMachine \<Rightarrow> bool" where
  "IsRunning sm \<longleftrightarrow> State sm = StateRunning"

definition IsShuttingDown :: "StateMachine \<Rightarrow> bool" where
  "IsShuttingDown sm \<longleftrightarrow> State sm = StateShuttingDown"

definition CanAcceptRequests :: "StateMachine \<Rightarrow> bool" where
  "CanAcceptRequests sm =
     (let state = State sm in state = StateRunning \<or> state = StateCreating)"

record StateSnapshot =
  snap_State :: ShimState
  snap_IntentionalShutdown :: bool

definition Snapshot :: "StateMachine \<Rightarrow> StateSnapshot" where
  "Snapshot sm =
     \<lparr>snap_State = State sm, snap_IntentionalShutdown = sm_intentionalShutdown sm\<rparr>"

text \<open>
  The calls the shim makes on its machine, as operations. \<open>ForceTransition\<close> is called
  with \<open>StateShuttingDown\<close> only (\<^verbatim>\<open>internal/shim/task/service.go\<close>, \<open>shutdown\<close>).
\<close>

datatype sm_op =
    OpTransition ShimState ShimState
  | OpForceShutdown
  | OpTryStartCreating
  | OpTryStartDeleting
  | OpMarkCreated
  | OpMarkCreationFailed
  | OpSetIntentionalShutdown bool

fun sm_exec :: "sm_op \<Rightarrow> StateMachine \<Rightarrow> StateMachine" where
  "sm_exec (OpTransition from to) sm = snd (Transition from to sm)"
| "sm_exec OpForceShutdown sm = snd (ForceTransition StateShuttingDown sm)"
| "sm_exec OpTryStartCreating sm = snd (TryStartCreating sm)"
| "sm_exec OpTryStartDeleting sm = snd (TryStartDeleting sm)"
| "sm_exec OpMarkCreated sm = snd (MarkCreated sm)"
| "sm_exec OpMarkCreationFailed sm = snd (MarkCreationFailed sm)"
| "sm_exec (OpSetIntentionalShutdown v) sm = SetIntentionalShutdown v sm"

text \<open>How often a run takes a step from a state in one class to a state in another.\<close>

fun sm_moves :: "(ShimState \<Rightarrow> ShimState \<Rightarrow> bool) \<Rightarrow> sm_op list \<Rightarrow> StateMachine \<Rightarrow> nat" where
  "sm_moves m [] sm = 0"
| "sm_moves m (x # xs) sm =
     (if m (State sm) (State (sm_exec x sm)) then 1 else 0) + sm_moves m xs (sm_exec x sm)"

subsection \<open>The machine is an atomic cell\<close>

interpretation shim_cell: cas_cell State sm_store sm_cas
  by unfold_locales (auto simp: State_def sm_store_def sm_cas_def)

lemma sm_cas_eq:
  "sm_cas old new sm = (if State sm = old then (True, sm_store new sm) else (False, sm))"
  by (simp add: shim_cell.cas_eq)

lemma State_sm_store [simp]: "State (sm_store v sm) = v"
  by (rule shim_cell.load_store)

lemma State_SetIntentionalShutdown [simp]: "State (SetIntentionalShutdown v sm) = State sm"
  by (simp add: State_def SetIntentionalShutdown_def)

declare isValidTransition.simps [simp del]

lemma Transition_eq:
  "Transition from to sm =
     (if isValidTransition from to \<and> State sm = from then (None, sm_store to sm)
      else (Some (NewStateTransitionError (ShimState_String from) (ShimState_String to)
                    (ShimState_String (State sm))), sm))"
  by (simp add: Transition_def sm_cas_eq Let_def)

lemma valid_create: "isValidTransition StateIdle StateCreating"
  and valid_delete: "isValidTransition StateRunning StateDeleting"
  and valid_created: "isValidTransition StateCreating StateRunning"
  and valid_failed: "isValidTransition StateCreating StateIdle"
  and valid_shutdown: "isValidTransition a StateShuttingDown"
  by (simp_all add: isValidTransition.simps)

lemmas valid_transitions = valid_create valid_delete valid_created valid_failed valid_shutdown

text \<open>Every operation either leaves the state alone or takes one of the documented
  transitions.\<close>

lemma sm_exec_documented:
  "State (sm_exec x sm) = State sm \<or> isValidTransition (State sm) (State (sm_exec x sm))"
proof (cases x)
  case (OpTransition f t)
  then show ?thesis by (simp add: Transition_eq)
next
  case OpForceShutdown
  then show ?thesis by (simp add: ForceTransition_def valid_transitions)
next
  case OpTryStartCreating
  then show ?thesis by (simp add: TryStartCreating_def sm_cas_eq valid_transitions)
next
  case OpTryStartDeleting
  then show ?thesis by (simp add: TryStartDeleting_def sm_cas_eq valid_transitions)
next
  case OpMarkCreated
  then show ?thesis by (simp add: MarkCreated_def sm_cas_eq valid_transitions)
next
  case OpMarkCreationFailed
  then show ?thesis by (simp add: MarkCreationFailed_def sm_cas_eq valid_transitions)
qed simp

fun sm_rank :: "ShimState \<Rightarrow> nat" where
  "sm_rank StateIdle = 0"
| "sm_rank StateCreating = 0"
| "sm_rank StateRunning = 1"
| "sm_rank StateDeleting = 2"
| "sm_rank StateShuttingDown = 3"
| "sm_rank (StateOther n) = 0"

definition sm_known :: "StateMachine \<Rightarrow> bool" where
  "sm_known sm \<longleftrightarrow> (\<forall>n. State sm \<noteq> StateOther n)"

lemma valid_rank: "isValidTransition a b \<Longrightarrow> sm_rank a \<le> sm_rank b"
  by (cases a; cases b) (auto simp: isValidTransition.simps split: if_splits)

lemma valid_known: "isValidTransition a b \<Longrightarrow> b \<noteq> StateOther n"
  by (cases a) (auto simp: isValidTransition.simps split: if_splits)

interpretation shim_machine: ranked_machine sm_exec sm_known "\<lambda>sm. sm_rank (State sm)"
proof unfold_locales
  fix x sm
  show "sm_rank (State sm) \<le> sm_rank (State (sm_exec x sm))"
    using sm_exec_documented [of x sm] valid_rank by (metis order_refl)
  assume "sm_known sm"
  then show "sm_known (sm_exec x sm)"
    using sm_exec_documented [of x sm] valid_known unfolding sm_known_def by metis
qed

lemma sm_known_New [simp]: "sm_known NewStateMachine"
  by (simp add: sm_known_def State_def NewStateMachine_def)

subsection \<open>Creation attempts exclude each other\<close>

abbreviation starts_create :: "ShimState \<Rightarrow> ShimState \<Rightarrow> bool" where
  "starts_create a b \<equiv> a \<noteq> StateCreating \<and> b = StateCreating"

abbreviation fails_create :: "ShimState \<Rightarrow> ShimState \<Rightarrow> bool" where
  "fails_create a b \<equiv> a = StateCreating \<and> b = StateIdle"

abbreviation enters_running :: "ShimState \<Rightarrow> ShimState \<Rightarrow> bool" where
  "enters_running a b \<equiv> a \<noteq> StateRunning \<and> b = StateRunning"

definition creating_slack :: "ShimState \<Rightarrow> nat" where
  "creating_slack a = (if a = StateIdle then 1 else 0)"

lemma create_step:
  assumes "a = b \<or> isValidTransition a b"
  shows "(if starts_create a b then 1 else 0) + creating_slack b
           \<le> creating_slack a + (if fails_create a b then 1 else (0::nat))"
  using assms by (cases a; cases b) (auto simp: creating_slack_def isValidTransition.simps)

lemma create_moves:
  "sm_moves starts_create xs sm + creating_slack (State (fold sm_exec xs sm))
     \<le> creating_slack (State sm) + sm_moves fails_create xs sm"
proof (induction xs arbitrary: sm)
  case Nil
  show ?case by simp
next
  case (Cons x xs)
  have "(if starts_create (State sm) (State (sm_exec x sm)) then 1 else 0)
          + creating_slack (State (sm_exec x sm))
        \<le> creating_slack (State sm)
          + (if fails_create (State sm) (State (sm_exec x sm)) then 1 else (0::nat))"
    by (rule create_step) (metis sm_exec_documented)
  with Cons.IH [of "sm_exec x sm"] show ?case by simp
qed

lemma running_moves:
  "sm_moves enters_running xs sm \<le> (if sm_rank (State sm) = 0 then 1 else 0)"
proof (induction xs arbitrary: sm)
  case Nil
  show ?case by simp
next
  case (Cons x xs)
  let ?a = "State sm" and ?b = "State (sm_exec x sm)"
  have step: "?a = ?b \<or> isValidTransition ?a ?b"
    by (metis sm_exec_documented)
  then have "(if enters_running ?a ?b then 1 else 0) + (if sm_rank ?b = 0 then 1 else 0)
               \<le> (if sm_rank ?a = 0 then 1 else (0::nat))"
    by (cases ?a; cases ?b) (auto simp: isValidTransition.simps)
  with Cons.IH [of "sm_exec x sm"] show ?case by simp
qed


text \<open>
  C8. One container per shim: whatever the callers do, a shim enters \<open>Running\<close> at most
  once in its life, it never goes back to a state before \<open>Running\<close>, and a shim that is
  shutting down stays so.
\<close>

theorem one_container_per_shim:
  "sm_moves enters_running xs NewStateMachine \<le> 1 \<and>
   sm_rank (State (fold sm_exec xs NewStateMachine))
     \<le> sm_rank (State (fold sm_exec (xs @ ys) NewStateMachine))"
proof
  show "sm_moves enters_running xs NewStateMachine \<le> 1"
    using running_moves [of xs NewStateMachine] by (simp split: if_splits)
  have "sm_known (fold sm_exec xs NewStateMachine)"
    by (rule shim_machine.inv_run) simp
  then show "sm_rank (State (fold sm_exec xs NewStateMachine))
     \<le> sm_rank (State (fold sm_exec (xs @ ys) NewStateMachine))"
    using shim_machine.rank_run by simp
qed

text \<open>
  C9. The four specialised methods are the documented instances of \<open>Transition\<close>: each
  swaps exactly when \<open>Transition\<close> would succeed, leaves the same machine behind, and
  (for the two that report) returns the same error.
\<close>

theorem helpers_are_transitions:
  "MarkCreated sm = Transition StateCreating StateRunning sm \<and>
   MarkCreationFailed sm = Transition StateCreating StateIdle sm \<and>
   TryStartCreating sm = map_prod (\<lambda>e. e = None) id (Transition StateIdle StateCreating sm) \<and>
   TryStartDeleting sm = map_prod (\<lambda>e. e = None) id (Transition StateRunning StateDeleting sm)"
  by (simp add: MarkCreated_def MarkCreationFailed_def TryStartCreating_def TryStartDeleting_def
      Transition_eq sm_cas_eq valid_transitions)

end
