(* ===== verification/Shim_Cleanup.thy ===== *)
theory Shim_Cleanup
  imports Contracts Go_Strings
begin

text \<open>
  \<^verbatim>\<open>internal/shim/lifecycle/cleanup.go\<close> and the shutdown part of \<^verbatim>\<open>errors.go\<close>: the
  orchestrator that runs the registered cleanup functions in dependency order and
  collects their errors.

  A cleanup function is a state transformer of an arbitrary world \<open>'w\<close> that may return
  an error. What was run, in which order and with which outcome is observed by wrapping
  each function so that it appends its phase and its error to a log.
\<close>

section \<open>Shutdown errors\<close>

type_synonym ShutdownPhase = string

definition PhaseHotplugStop :: ShutdownPhase where "PhaseHotplugStop = ''hotplug_stop''"
definition PhaseIOShutdown :: ShutdownPhase where "PhaseIOShutdown = ''io_shutdown''"
definition PhaseConnClose :: ShutdownPhase where "PhaseConnClose = ''connection_close''"
definition PhaseVMShutdown :: ShutdownPhase where "PhaseVMShutdown = ''vm_shutdown''"
definition PhaseNetworkCleanup :: ShutdownPhase where "PhaseNetworkCleanup = ''network_cleanup''"
definition PhaseMountCleanup :: ShutdownPhase where "PhaseMountCleanup = ''mount_cleanup''"
definition PhaseEventClose :: ShutdownPhase where "PhaseEventClose = ''event_close''"

lemmas phase_defs =
  PhaseHotplugStop_def PhaseIOShutdown_def PhaseConnClose_def PhaseVMShutdown_def
  PhaseNetworkCleanup_def PhaseMountCleanup_def PhaseEventClose_def

record ShutdownError =
  se_Phase :: ShutdownPhase
  se_Err :: goerr

definition ShutdownError_Error :: "ShutdownError \<Rightarrow> string" where
  "ShutdownError_Error e = ''shutdown failed at '' @ se_Phase e @ '': '' @ errMsg (se_Err e)"

definition NewShutdownError :: "ShutdownPhase \<Rightarrow> goerr \<Rightarrow> ShutdownError" where
  "NewShutdownError phase err = \<lparr>se_Phase = phase, se_Err = err\<rparr>"

type_synonym ShutdownResult = "ShutdownError list"

definition ShutdownResult_Add ::
  "ShutdownPhase \<Rightarrow> goerr option \<Rightarrow> ShutdownResult \<Rightarrow> ShutdownResult" where
  "ShutdownResult_Add phase err r =
     (case err of None \<Rightarrow> r | Some e \<Rightarrow> r @ [NewShutdownError phase e])"

definition HasErrors :: "ShutdownResult \<Rightarrow> bool" where
  "HasErrors r \<longleftrightarrow> length r > 0"

definition ShutdownResult_Error :: "ShutdownResult \<Rightarrow> string" where
  "ShutdownResult_Error r =
     (if \<not> HasErrors r then ''''
      else ''shutdown completed with errors: '' @ joinWith ''; '' (map ShutdownError_Error r))"

definition AsError :: "ShutdownResult \<Rightarrow> ShutdownResult option" where
  "AsError r = (if \<not> HasErrors r then None else Some r)"

definition FailedPhases :: "ShutdownResult \<Rightarrow> ShutdownPhase list" where
  "FailedPhases r = map se_Phase r"

section \<open>The orchestrator\<close>

type_synonym 'w CleanupFunc = "'w \<Rightarrow> goerr option \<times> 'w"

record 'w cleanupPhase =
  cp_name :: ShutdownPhase
  cp_fn :: "'w CleanupFunc option"
  cp_done :: bool

definition phaseOrder :: "ShutdownPhase list" where
  "phaseOrder =
     [PhaseHotplugStop, PhaseIOShutdown, PhaseConnClose, PhaseVMShutdown,
      PhaseNetworkCleanup, PhaseMountCleanup, PhaseEventClose]"

record 'w CleanupPhases =
  ph_HotplugStop :: "'w CleanupFunc option"
  ph_IOShutdown :: "'w CleanupFunc option"
  ph_ConnClose :: "'w CleanupFunc option"
  ph_VMShutdown :: "'w CleanupFunc option"
  ph_NetworkCleanup :: "'w CleanupFunc option"
  ph_MountCleanup :: "'w CleanupFunc option"
  ph_EventClose :: "'w CleanupFunc option"

type_synonym 'w CleanupOrchestrator = "'w cleanupPhase list"

definition new_phase :: "ShutdownPhase \<Rightarrow> 'w CleanupFunc option \<Rightarrow> 'w cleanupPhase" where
  "new_phase name fn = \<lparr>cp_name = name, cp_fn = fn, cp_done = False\<rparr>"

definition NewCleanupOrchestrator :: "'w CleanupPhases \<Rightarrow> 'w CleanupOrchestrator" where
  "NewCleanupOrchestrator ph =
     [new_phase PhaseHotplugStop (ph_HotplugStop ph),
      new_phase PhaseIOShutdown (ph_IOShutdown ph),
      new_phase PhaseConnClose (ph_ConnClose ph),
      new_phase PhaseVMShutdown (ph_VMShutdown ph),
      new_phase PhaseNetworkCleanup (ph_NetworkCleanup ph),
      new_phase PhaseMountCleanup (ph_MountCleanup ph),
      new_phase PhaseEventClose (ph_EventClose ph)]"

text \<open>The loop of \<open>executeFrom\<close>, with the result accumulated so far.\<close>

fun executeLoop ::
  "'w cleanupPhase list \<Rightarrow> ShutdownResult \<Rightarrow> 'w
     \<Rightarrow> ShutdownResult \<times> 'w cleanupPhase list \<times> 'w" where
  "executeLoop [] result w = (result, [], w)"
| "executeLoop (phase # rest) result w =
     (case cp_fn phase of
        None \<Rightarrow>
          (let (r, rest', w') = executeLoop rest result w in (r, phase # rest', w'))
      | Some fn \<Rightarrow>
          if cp_done phase then
            (let (r, rest', w') = executeLoop rest result w in (r, phase # rest', w'))
          else
            (let (err, w1) = fn w;
                 (r, rest', w') = executeLoop rest (ShutdownResult_Add (cp_name phase) err result) w1
             in (r, phase\<lparr>cp_done := True\<rparr> # rest', w')))"

definition executeFrom ::
  "nat \<Rightarrow> 'w CleanupOrchestrator \<Rightarrow> 'w \<Rightarrow> ShutdownResult \<times> 'w CleanupOrchestrator \<times> 'w" where
  "executeFrom startIdx c w =
     (let (r, rest, w') = executeLoop (drop startIdx c) [] w
      in (r, take startIdx c @ rest, w'))"

definition Execute ::
  "'w CleanupOrchestrator \<Rightarrow> 'w \<Rightarrow> ShutdownResult \<times> 'w CleanupOrchestrator \<times> 'w" where
  "Execute c w = executeFrom 0 c w"

text \<open>\<open>slices.Index\<close>: the first position of a value, if any.\<close>

fun indexOf :: "'a \<Rightarrow> 'a list \<Rightarrow> nat option" where
  "indexOf x [] = None"
| "indexOf x (y # ys) = (if x = y then Some 0 else map_option Suc (indexOf x ys))"

definition ExecutePartial ::
  "ShutdownPhase \<Rightarrow> 'w CleanupOrchestrator \<Rightarrow> 'w
     \<Rightarrow> ShutdownResult \<times> 'w CleanupOrchestrator \<times> 'w" where
  "ExecutePartial startPhase c w =
     executeFrom (case indexOf startPhase phaseOrder of None \<Rightarrow> 0 | Some i \<Rightarrow> i) c w"

definition Reset :: "'w CleanupOrchestrator \<Rightarrow> 'w CleanupOrchestrator" where
  "Reset c = map (\<lambda>p. p\<lparr>cp_done := False\<rparr>) c"

definition CompletedPhases :: "'w CleanupOrchestrator \<Rightarrow> ShutdownPhase list" where
  "CompletedPhases c = map cp_name (filter cp_done c)"

section \<open>What a cleanup run does\<close>

definition pending :: "'w cleanupPhase \<Rightarrow> bool" where
  "pending p \<longleftrightarrow> cp_fn p \<noteq> None \<and> \<not> cp_done p"

type_synonym 'w logged_world = "'w \<times> (ShutdownPhase \<times> goerr option) list"

definition logged :: "ShutdownPhase \<Rightarrow> 'w CleanupFunc \<Rightarrow> 'w logged_world CleanupFunc" where
  "logged name f wl =
     (let (err, w') = f (fst wl) in (err, (w', snd wl @ [(name, err)])))"

definition log_phases :: "'w CleanupPhases \<Rightarrow> 'w logged_world CleanupPhases" where
  "log_phases ph =
     \<lparr>ph_HotplugStop = map_option (logged PhaseHotplugStop) (ph_HotplugStop ph),
      ph_IOShutdown = map_option (logged PhaseIOShutdown) (ph_IOShutdown ph),
      ph_ConnClose = map_option (logged PhaseConnClose) (ph_ConnClose ph),
      ph_VMShutdown = map_option (logged PhaseVMShutdown) (ph_VMShutdown ph),
      ph_NetworkCleanup = map_option (logged PhaseNetworkCleanup) (ph_NetworkCleanup ph),
      ph_MountCleanup = map_option (logged PhaseMountCleanup) (ph_MountCleanup ph),
      ph_EventClose = map_option (logged PhaseEventClose) (ph_EventClose ph)\<rparr>"

text \<open>The function registered for a phase.\<close>

definition registered :: "'w CleanupPhases \<Rightarrow> ShutdownPhase \<Rightarrow> bool" where
  "registered ph p \<longleftrightarrow>
     (\<exists>q \<in> set (NewCleanupOrchestrator ph). cp_name q = p \<and> cp_fn q \<noteq> None)"

text \<open>The errors among the entries of a log.\<close>

definition log_errors :: "(ShutdownPhase \<times> goerr option) list \<Rightarrow> ShutdownResult" where
  "log_errors l = concat (map (\<lambda>(p, e). ShutdownResult_Add p e []) l)"

definition self_logging :: "'w logged_world cleanupPhase \<Rightarrow> bool" where
  "self_logging p \<longleftrightarrow> (\<forall>fn. cp_fn p = Some fn \<longrightarrow> (\<exists>f. fn = logged (cp_name p) f))"

lemma Add_append: "ShutdownResult_Add p e r = r @ ShutdownResult_Add p e []"
  by (cases e) (simp_all add: ShutdownResult_Add_def)

lemma log_errors_append: "log_errors (a @ b) = log_errors a @ log_errors b"
  by (simp add: log_errors_def)

lemma log_errors_single [simp]: "log_errors [(p, e)] = ShutdownResult_Add p e []"
  by (simp add: log_errors_def)

text \<open>One run of the loop: it calls the pending functions, each once, in list order, and
  returns the errors they returned.\<close>

lemma executeLoop_log:
  assumes "\<forall>p \<in> set ps. self_logging p" and "executeLoop ps r wl = (r', ps', wl')"
  shows "\<exists>l. snd wl' = snd wl @ l \<and> map fst l = map cp_name (filter pending ps)
             \<and> r' = r @ log_errors l"
  using assms
proof (induction ps r wl arbitrary: r' ps' wl' rule: executeLoop.induct)
  case (1 r wl)
  then show ?case by (simp add: log_errors_def)
next
  case (2 p ps r wl)
  show ?case
  proof (cases "pending p")
    case False
    then have "\<exists>ps''. executeLoop ps r wl = (r', ps'', wl')"
      using "2.prems"(2) by (auto simp: pending_def split: option.splits prod.splits if_splits)
    then obtain ps'' where e: "executeLoop ps r wl = (r', ps'', wl')" by blast
    have sl: "\<forall>p \<in> set ps. self_logging p" using "2.prems"(1) by simp
    have "\<exists>l. snd wl' = snd wl @ l \<and> map fst l = map cp_name (filter pending ps)
             \<and> r' = r @ log_errors l"
    proof (cases "cp_fn p")
      case None
      from "2.IH"(1) [OF None sl e] show ?thesis .
    next
      case (Some fn)
      with False have "cp_done p" by (simp add: pending_def)
      from "2.IH"(2) [OF Some this sl e] show ?thesis .
    qed
    with False show ?thesis by simp
  next
    case True
    then obtain fn where fn: "cp_fn p = Some fn" and nd: "\<not> cp_done p"
      by (auto simp: pending_def)
    from "2.prems"(1) fn obtain f where f: "fn = logged (cp_name p) f"
      by (auto simp: self_logging_def)
    obtain err w1 where step: "fn wl = (err, w1)" by (cases "fn wl") blast
    from f step have w1: "snd w1 = snd wl @ [(cp_name p, err)]"
      by (auto simp: logged_def split: prod.splits)
    from "2.prems"(2) fn nd step obtain ps''
      where e: "executeLoop ps (ShutdownResult_Add (cp_name p) err r) w1 = (r', ps'', wl')"
      by (auto split: prod.splits)
    from "2.prems"(1) have sl: "\<forall>p \<in> set ps. self_logging p" by simp
    from "2.IH"(3) [OF fn nd step [symmetric] refl sl e]
    obtain l where l: "snd wl' = snd w1 @ l" "map fst l = map cp_name (filter pending ps)"
      "r' = ShutdownResult_Add (cp_name p) err r @ log_errors l" by blast
    from l(3) have "r' = r @ log_errors ((cp_name p, err) # l)"
      using Add_append [of "cp_name p" err r] log_errors_append [of "[(cp_name p, err)]" l]
      by simp
    with l(1,2) w1 True show ?thesis
      by (intro exI [of _ "(cp_name p, err) # l"]) simp
  qed
qed

text \<open>After a run nothing it looked at is pending, and names and functions are unchanged.\<close>

lemma executeLoop_skip:
  assumes "\<not> pending p"
  shows "executeLoop (p # ps) r w
     = (let (r', ps', w') = executeLoop ps r w in (r', p # ps', w'))"
  using assms by (cases "cp_fn p") (simp_all add: pending_def)

lemma executeLoop_call:
  assumes "pending p"
  shows "\<exists>r1 w1. executeLoop (p # ps) r w
     = (let (r', ps', w') = executeLoop ps r1 w1 in (r', p\<lparr>cp_done := True\<rparr> # ps', w'))"
proof -
  from assms obtain fn where fn: "cp_fn p = Some fn" "\<not> cp_done p" by (auto simp: pending_def)
  obtain err w1 where "fn w = (err, w1)" by (cases "fn w") blast
  with fn show ?thesis by auto
qed

lemma executeLoop_cons:
  assumes "executeLoop (p # ps) r w = (r', ps', w')"
  obtains r1 w1 p' ps1 where "executeLoop ps r1 w1 = (r', ps1, w')" "ps' = p' # ps1"
    "\<not> pending p'" "cp_name p' = cp_name p" "cp_fn p' = cp_fn p"
proof (cases "pending p")
  case False
  from assms [unfolded executeLoop_skip [OF False]] that False show ?thesis
    by (auto split: prod.splits)
next
  case True
  from executeLoop_call [OF True, of ps r w] assms obtain r1 w1 where
    "(let (r', ps', w') = executeLoop ps r1 w1 in (r', p\<lparr>cp_done := True\<rparr> # ps', w')) = (r', ps', w')"
    by metis
  with that [of r1 w1 _ "p\<lparr>cp_done := True\<rparr>"] show ?thesis
    by (auto simp: pending_def split: prod.splits)
qed

lemma executeLoop_done:
  assumes "executeLoop ps r w = (r', ps', w')"
  shows "(\<forall>p \<in> set ps'. \<not> pending p)
     \<and> map (\<lambda>p. (cp_name p, cp_fn p)) ps' = map (\<lambda>p. (cp_name p, cp_fn p)) ps"
  using assms
proof (induction ps arbitrary: r w ps')
  case Nil
  then show ?case by simp
next
  case (Cons p ps)
  from Cons.prems obtain r1 w1 p' ps1 where "executeLoop ps r1 w1 = (r', ps1, w')"
    "ps' = p' # ps1" "\<not> pending p'" "cp_name p' = cp_name p" "cp_fn p' = cp_fn p"
    by (rule executeLoop_cons)
  with Cons.IH show ?case by fastforce
qed

lemma executeLoop_idle:
  "\<forall>p \<in> set ps. \<not> pending p \<Longrightarrow> executeLoop ps r w = (r, ps, w)"
  by (induction ps) (simp_all add: executeLoop_skip del: executeLoop.simps(2))

lemma self_logging_New:
  "p \<in> set (NewCleanupOrchestrator (log_phases ph)) \<Longrightarrow> self_logging p"
  by (auto simp: NewCleanupOrchestrator_def log_phases_def new_phase_def self_logging_def)

lemma pending_sub:
  assumes "set xs \<subseteq> set (NewCleanupOrchestrator (log_phases ph))"
  shows "map cp_name (filter pending xs) = filter (registered ph) (map cp_name xs)"
proof -
  have r: "registered ph PhaseHotplugStop \<longleftrightarrow> ph_HotplugStop ph \<noteq> None"
    "registered ph PhaseIOShutdown \<longleftrightarrow> ph_IOShutdown ph \<noteq> None"
    "registered ph PhaseConnClose \<longleftrightarrow> ph_ConnClose ph \<noteq> None"
    "registered ph PhaseVMShutdown \<longleftrightarrow> ph_VMShutdown ph \<noteq> None"
    "registered ph PhaseNetworkCleanup \<longleftrightarrow> ph_NetworkCleanup ph \<noteq> None"
    "registered ph PhaseMountCleanup \<longleftrightarrow> ph_MountCleanup ph \<noteq> None"
    "registered ph PhaseEventClose \<longleftrightarrow> ph_EventClose ph \<noteq> None"
    by (simp_all add: registered_def NewCleanupOrchestrator_def new_phase_def phase_defs)
  have "\<forall>p \<in> set (NewCleanupOrchestrator (log_phases ph)).
      pending p \<longleftrightarrow> registered ph (cp_name p)"
    by (simp add: NewCleanupOrchestrator_def new_phase_def log_phases_def pending_def r)
  then have "filter pending xs = filter (registered ph \<circ> cp_name) xs"
    using assms by (intro filter_cong) auto
  then show ?thesis by (simp only: filter_map)
qed

lemma names_New: "map cp_name (NewCleanupOrchestrator ph) = phaseOrder"
  by (simp add: NewCleanupOrchestrator_def new_phase_def phaseOrder_def)

lemma pending_New:
  "map cp_name (filter pending (drop i (NewCleanupOrchestrator (log_phases ph))))
     = filter (registered ph) (drop i phaseOrder)"
  "map cp_name (filter pending (take i (NewCleanupOrchestrator (log_phases ph))))
     = filter (registered ph) (take i phaseOrder)"
  using pending_sub [OF set_drop_subset, of i ph] pending_sub [OF set_take_subset, of i ph]
  by (simp_all only: names_New drop_map [symmetric] take_map [symmetric])

definition start_index :: "ShutdownPhase \<Rightarrow> nat" where
  "start_index s = (case indexOf s phaseOrder of None \<Rightarrow> 0 | Some i \<Rightarrow> i)"

lemma ExecutePartial_from: "ExecutePartial s c w = executeFrom (start_index s) c w"
  by (simp add: ExecutePartial_def start_index_def)

lemma executeFrom_log:
  assumes "\<forall>p \<in> set c. self_logging p" and "executeFrom i c wl = (r, c', wl')"
  shows "\<exists>l. snd wl' = snd wl @ l \<and> map fst l = map cp_name (filter pending (drop i c))
             \<and> r = log_errors l"
proof -
  from assms(2) obtain rest where "executeLoop (drop i c) [] wl = (r, rest, wl')"
    by (auto simp: executeFrom_def split: prod.splits)
  moreover from assms(1) have "\<forall>p \<in> set (drop i c). self_logging p"
    by (meson in_set_dropD)
  ultimately show ?thesis using executeLoop_log [of "drop i c" "[]" wl] by auto
qed

lemma self_logging_pairs:
  assumes "map (\<lambda>p. (cp_name p, cp_fn p)) ps' = map (\<lambda>p. (cp_name p, cp_fn p)) ps"
    and "\<forall>p \<in> set ps. self_logging p"
  shows "\<forall>p \<in> set ps'. self_logging p"
proof
  fix p assume "p \<in> set ps'"
  then have "(cp_name p, cp_fn p) \<in> set (map (\<lambda>p. (cp_name p, cp_fn p)) ps')" by simp
  then obtain q where "q \<in> set ps" "cp_name p = cp_name q" "cp_fn p = cp_fn q"
    unfolding assms(1) by auto
  with assms(2) show "self_logging p" by (simp add: self_logging_def)
qed

lemma executeFrom_shape:
  assumes "executeFrom i c w = (r, c', w')"
  shows "\<exists>rest. c' = take i c @ rest \<and> (\<forall>p \<in> set rest. \<not> pending p)
     \<and> map (\<lambda>p. (cp_name p, cp_fn p)) rest = map (\<lambda>p. (cp_name p, cp_fn p)) (drop i c)"
proof -
  from assms obtain rest where r: "executeLoop (drop i c) [] w = (r, rest, w')"
    and "c' = take i c @ rest"
    by (auto simp: executeFrom_def split: prod.splits)
  with executeLoop_done [OF r] show ?thesis by simp
qed

section \<open>Properties\<close>

text \<open>C10. A cleanup started at a phase calls exactly the registered cleanup functions
  from that phase on (from the beginning for a phase it does not know), each once, in
  the dependency order of \<open>phaseOrder\<close>, whatever they return and whatever they do to
  the system: a failing phase never stops the later ones. The result holds exactly the
  errors the calls returned, in that order.\<close>

theorem cleanup_runs_in_order:
  "case ExecutePartial s (NewCleanupOrchestrator (log_phases ph)) (w, []) of
     (r, c', (w', l)) \<Rightarrow>
       map fst l = filter (registered ph) (drop (start_index s) phaseOrder) \<and> r = log_errors l"
proof -
  obtain r c' w' l
    where e: "ExecutePartial s (NewCleanupOrchestrator (log_phases ph)) (w, []) = (r, c', (w', l))"
    by (metis prod.exhaust)
  from executeFrom_log [OF _ e [unfolded ExecutePartial_from]] self_logging_New
  have "map fst l = map cp_name
      (filter pending (drop (start_index s) (NewCleanupOrchestrator (log_phases ph))))
    \<and> r = log_errors l" by fastforce
  with e show ?thesis by (simp add: pending_New)
qed

text \<open>C11. Cleanup is idempotent and resumable. After a partial cleanup, a full cleanup
  calls exactly the registered functions of the phases before the starting one, so over
  both runs every registered function is called exactly once; any further cleanup, from
  any phase, calls nothing, changes nothing and reports no error.\<close>

theorem cleanup_exactly_once:
  "case ExecutePartial s (NewCleanupOrchestrator (log_phases ph)) (w, []) of
     (r1, c1, wl1) \<Rightarrow> (case Execute c1 wl1 of
       (r2, c2, (w2, l)) \<Rightarrow>
         map fst l = filter (registered ph) (drop (start_index s) phaseOrder)
                   @ filter (registered ph) (take (start_index s) phaseOrder)
         \<and> distinct (map fst l)
         \<and> (\<forall>s' wl. ExecutePartial s' c2 wl = ([], c2, wl)))"
proof -
  let ?c = "NewCleanupOrchestrator (log_phases ph)" and ?i = "start_index s"
  obtain r1 c1 wl1 where e1: "ExecutePartial s ?c (w, []) = (r1, c1, wl1)"
    by (metis prod.exhaust)
  obtain r2 c2 w2 l where e2: "Execute c1 wl1 = (r2, c2, (w2, l))"
    by (metis prod.exhaust)
  have sl: "\<forall>p \<in> set ?c. self_logging p" by (simp add: self_logging_New)
  from executeFrom_log [OF sl e1 [unfolded ExecutePartial_from]]
  have l1: "map fst (snd wl1) = filter (registered ph) (drop ?i phaseOrder)"
    by (auto simp: pending_New)
  from executeFrom_shape [OF e1 [unfolded ExecutePartial_from]]
  obtain rest where rest: "c1 = take ?i ?c @ rest" "\<forall>p \<in> set rest. \<not> pending p"
    and pairs: "map (\<lambda>p. (cp_name p, cp_fn p)) rest = map (\<lambda>p. (cp_name p, cp_fn p)) (drop ?i ?c)"
    by blast
  from sl have "\<forall>p \<in> set (take ?i ?c). self_logging p" by (meson in_set_takeD)
  moreover from sl have "\<forall>p \<in> set (drop ?i ?c). self_logging p" by (meson in_set_dropD)
  then have "\<forall>p \<in> set rest. self_logging p" using self_logging_pairs [OF pairs] by blast
  ultimately have sl1: "\<forall>p \<in> set c1. self_logging p" using rest(1) by auto
  have "filter pending c1 = filter pending (take ?i ?c)"
    using rest by (simp add: filter_empty_conv)
  then have l2: "map fst l = map fst (snd wl1) @ filter (registered ph) (take ?i phaseOrder)"
    using executeFrom_log [OF sl1 e2 [unfolded Execute_def]] by (auto simp: pending_New)
  have d: "distinct phaseOrder" by (simp add: phaseOrder_def phase_defs)
  then have "distinct (drop ?i phaseOrder @ take ?i phaseOrder)"
    by (metis append_take_drop_id distinct_append inf_commute)
  then have "distinct (filter (registered ph) (drop ?i phaseOrder)
      @ filter (registered ph) (take ?i phaseOrder))"
    using distinct_filter by fastforce
  moreover have "\<forall>p \<in> set c2. \<not> pending p"
    using executeFrom_shape [OF e2 [unfolded Execute_def]] by auto
  then have "\<forall>i wl. executeFrom i c2 wl = ([], c2, wl)"
    by (simp add: executeFrom_def executeLoop_idle in_set_dropD)
  ultimately show ?thesis
    using e1 e2 l1 l2 by (simp add: ExecutePartial_from)
qed

end
