(* ===== verification/Vm_Manager.thy ===== *)
theory Vm_Manager
  imports Qemu_Handles
begin

text \<open>
  The owner of the shim's VM (\<^verbatim>\<open>internal/shim/lifecycle/vm.go\<close>): creating the one VM of a
  shim, the clients of the guest with the retrying dial, and shutting the VM down; and the check for KVM.

  The instance is held as an interface value. A method called on a nil \<open>*Instance\<close> inside the
  interface panics at its first access of the state. The environment variable, the namespace of
  the context, and the results of the KVM system calls are arguments.
\<close>

section \<open>The manager\<close>

record Manager =
  mg_instance :: "Instance iface"

definition NewManager :: Manager where
  "NewManager = \<lparr>mg_instance = NilIface\<rparr>"

definition vmStateDir :: "string \<Rightarrow> string option \<Rightarrow> string \<Rightarrow> string \<Rightarrow> string" where
  "vmStateDir vmStateRoot ns containerID bundlePath =
     (if vmStateRoot \<noteq> '''' then
        (let namespace = (case ns of None \<Rightarrow> ''default'' | Some n \<Rightarrow> if n = '''' then ''default'' else n)
         in pathJoin [vmStateRoot, namespace, containerID])
      else pathJoin [bundlePath, ''vm''])"

definition CreateVM ::
  "'w qemu_os \<Rightarrow> cid_env \<Rightarrow> string \<Rightarrow> string option \<Rightarrow> string \<Rightarrow> string \<Rightarrow> VMResourceConfig option
     \<Rightarrow> Manager \<Rightarrow> lockdir \<Rightarrow> 'w \<Rightarrow> (goerr option \<times> Manager \<times> lockdir \<times> 'w) option" where
  "CreateVM os env vmStateRoot ns containerID bundlePath cfg m d w =
     (if mg_instance m \<noteq> NilIface
      then Some (Some (WrapErr ''vm already exists; shim requires one VM per container'' ErrAlreadyExists), m, d, w)
      else
        (let vmState = vmStateDir vmStateRoot ns containerID bundlePath
         in case qo_mkdirAll os vmState w of
              (Some e, w1) \<Rightarrow> Some (Some (WrapErr (''failed to create vm state directory '' @ vmState) e), m, d, w1)
            | (None, w1) \<Rightarrow>
                (case NewInstance os env containerID vmState cfg d w1 of
                   None \<Rightarrow> None
                 | Some ((err, q), d1, w2) \<Rightarrow> Some (err, m\<lparr>mg_instance := q\<rparr>, d1, w2))))"

definition ErrVMNotCreated :: goerr where
  "ErrVMNotCreated = WrapErr ''vm not created'' ErrFailedPrecondition"

definition mgr_Instance :: "Manager \<Rightarrow> goerr + Instance iface" where
  "mgr_Instance m = (if mg_instance m = NilIface then Inl ErrVMNotCreated else Inr (mg_instance m))"

abbreviation nilDeref :: "'a go" where
  "nilDeref \<equiv> Panic ''invalid memory address or nil pointer dereference''"

definition mgr_Client :: "Manager \<Rightarrow> (goerr + nat option) go" where
  "mgr_Client m =
     (case mg_instance m of
        NilIface \<Rightarrow> Ret (Inl ErrVMNotCreated)
      | TypedNil \<Rightarrow> nilDeref
      | Iface q \<Rightarrow> Ret (Client q))"

definition mgr_DialClient :: "'w qemu_os \<Rightarrow> Manager \<Rightarrow> 'w \<Rightarrow> ((goerr + nat) \<times> 'w) go" where
  "mgr_DialClient os m w =
     (case mg_instance m of
        NilIface \<Rightarrow> Ret (Inl ErrVMNotCreated, w)
      | TypedNil \<Rightarrow> nilDeref
      | Iface q \<Rightarrow> Ret (DialClient os q w))"

definition isTransientVsockError :: "goerr option \<Rightarrow> bool" where
  "isTransientVsockError err =
     (case err of
        None \<Rightarrow> False
      | Some e \<Rightarrow>
          if errIs e ErrFailedPrecondition \<or> errIs e ErrUnavailable then True
          else if errIs e (Errno ''ECONNREFUSED'') \<or> errIs e (Errno ''ECONNRESET'')
            \<or> errIs e (Errno ''ENODEV'') \<or> errIs e (Errno ''EPIPE'') then True
          else errMsg e = ''ttrpc: closed'')"

definition vsockRetryInitialBackoff :: duration where
  "vsockRetryInitialBackoff = 20 * Millisecond"

definition vsockRetryMaxBackoff :: duration where
  "vsockRetryMaxBackoff = 500 * Millisecond"

definition retryBody ::
  "'w qemu_os \<Rightarrow> Manager \<Rightarrow> go_time \<Rightarrow> duration \<times> 'w \<Rightarrow> (duration \<times> 'w) + ((goerr + nat) \<times> 'w) go" where
  "retryBody os m deadline = (\<lambda>(backoff, w).
     case mgr_DialClient os m w of
       Panic s \<Rightarrow> Inr (Panic s)
     | Ret (Inr vmc, w1) \<Rightarrow> Inr (Ret (Inr vmc, w1))
     | Ret (Inl err, w1) \<Rightarrow>
         if \<not> isTransientVsockError (Some err) then Inr (Ret (Inl err, w1))
         else if no_now (qo_net os) w1 > deadline then Inr (Ret (Inl err, w1))
         else Inl (min (wrap64 (backoff * 2)) vsockRetryMaxBackoff, no_sleep (qo_net os) backoff w1))"

definition DialClientWithRetry ::
  "'w qemu_os \<Rightarrow> Manager \<Rightarrow> duration \<Rightarrow> 'w \<Rightarrow> ((goerr + nat) \<times> 'w) go option" where
  "DialClientWithRetry os m maxWait w =
     forLoop (retryBody os m (no_now (qo_net os) w + maxWait)) (vsockRetryInitialBackoff, w)"

definition mgr_Shutdown :: "'w qemu_os \<Rightarrow> Manager \<Rightarrow> 'w \<Rightarrow> (goerr option \<times> Manager \<times> 'w) go" where
  "mgr_Shutdown os m w =
     (case mg_instance m of
        NilIface \<Rightarrow> Ret (None, m\<lparr>mg_instance := NilIface\<rparr>, w)
      | TypedNil \<Rightarrow> nilDeref
      | Iface q \<Rightarrow>
          bindGo (Shutdown os q w) (\<lambda>(err, q', w'). Ret (err, m\<lparr>mg_instance := NilIface\<rparr>, w')))"

section \<open>KVM\<close>

definition expectedKVMAPIVersion :: int where
  "expectedKVMAPIVersion = 12"

text \<open>The results of opening \<^verbatim>\<open>/dev/kvm\<close> and of the version call on it.\<close>

definition CheckKVM :: "goerr option \<Rightarrow> goerr + int \<Rightarrow> goerr option" where
  "CheckKVM openErr version =
     (case openErr of
        Some e \<Rightarrow> Some (WrapErr ''failed to open /dev/kvm'' e)
      | None \<Rightarrow>
          (case version of
             Inl e \<Rightarrow> Some (WrapErr ''failed to get KVM API version'' e)
           | Inr apiVersion \<Rightarrow>
               if apiVersion \<noteq> expectedKVMAPIVersion
               then Some (Errorf (''KVM API version mismatch; expected 12, got '' @ itoa apiVersion))
               else None))"

section \<open>Lemmas\<close>

text \<open>The clock law of the whole environment: a dial with a time limit does not turn the clock back either.\<close>

definition osClockOk :: "'w qemu_os \<Rightarrow> bool" where
  "osClockOk os \<longleftrightarrow> clockOk (qo_net os)
     \<and> (\<forall>c p d w. no_now (qo_net os) w \<le> no_now (qo_net os) (snd (qo_dialTimeout os c p d w)))"

lemma silentOs_clock: "osClockOk silentOs"
proof -
  have "no_now silentNet w = w" for w by (simp add: silentNet_def)
  then show ?thesis using silentNet_clock by (simp add: osClockOk_def silentOs_def)
qed

lemma now_tracked: "no_now (trackedNet n) w = no_now n (fst w)"
  by (simp add: trackedNet_def split: prod.splits)

lemma osClockOk_tracked: "osClockOk os \<Longrightarrow> osClockOk (trackedOs l os)"
proof -
  assume ok: "osClockOk os"
  have "no_now (trackedNet (qo_net os)) w \<le> no_now (trackedNet (qo_net os)) (snd (qo_dialTimeout (trackedOs l os) c p d w))"
    for c p d w
  proof -
    obtain w0 op where w: "w = (w0, op)" by fastforce
    obtain r w1 where d: "qo_dialTimeout os c p d w0 = (r, w1)" by fastforce
    have "fst (snd (qo_dialTimeout (trackedOs l os) c p d w)) = w1"
      using d w by (auto simp: trackedOs_def split: dialOutcome.splits sum.splits)
    moreover have "no_now (qo_net os) w0 \<le> no_now (qo_net os) w1"
      using ok d unfolding osClockOk_def by (metis snd_conv)
    ultimately show ?thesis using w by (simp add: now_tracked)
  qed
  then show ?thesis
    using ok clockOk_tracked unfolding osClockOk_def by (metis tracked_frame(10))
qed

lemma DialClient_cases:
  assumes "DialClient os q w = (r, w')"
  obtains (early) e where "r = Inl e" "w' = w"
  | (nodial) x w1 e where "qo_dialTimeout os (q_guestCID q) DefaultRPCPort dialTimeout w = (x, w1)"
      "\<forall>c. x \<noteq> DialDone (Inr c)" "r = Inl e" "w' = w1"
  | (bad) c w1 w2 t x e where "qo_dialTimeout os (q_guestCID q) DefaultRPCPort dialTimeout w = (DialDone (Inr c), w1)"
      "no_setReadDeadline (qo_net os) c t w1 = (x, w2)" "r = Inl e" "w' = closeH os c w2"
  | (noping) c w1 w2 t w3 x e where "qo_dialTimeout os (q_guestCID q) DefaultRPCPort dialTimeout w = (DialDone (Inr c), w1)"
      "no_setReadDeadline (qo_net os) c t w1 = (None, w2)" "pingTTRPC (qo_net os) c w2 = (x, w3)"
      "r = Inl e" "w' = closeH os c w3"
  | (checked) c w1 w2 t w3 w4 x where "qo_dialTimeout os (q_guestCID q) DefaultRPCPort dialTimeout w = (DialDone (Inr c), w1)"
      "no_setReadDeadline (qo_net os) c t w1 = (None, w2)" "pingTTRPC (qo_net os) c w2 = (None, w3)"
      "no_setReadDeadline (qo_net os) c 0 w3 = (x, w4)"
      "if x = None then r = Inr c \<and> w' = w4 else (\<exists>e. r = Inl e) \<and> w' = closeH os c w4"
proof (cases "getState q = vmStateRunning \<and> no_ctxErr (qo_net os) w = None")
  case False
  then have "(\<exists>e. r = Inl e) \<and> w' = w"
    using assms by (auto simp: DialClient_def split: if_splits option.splits)
  then show thesis using early by blast
next
  case True
  obtain x w1 where d: "qo_dialTimeout os (q_guestCID q) DefaultRPCPort dialTimeout w = (x, w1)" by fastforce
  show thesis
  proof (cases "\<exists>c. x = DialDone (Inr c)")
    case False
    then have "(\<exists>e. r = Inl e) \<and> w' = w1"
      using assms True d by (auto simp: DialClient_def split: dialOutcome.splits sum.splits)
    then show thesis using nodial d False by blast
  next
    case c: True
    then obtain c where c: "x = DialDone (Inr c)" by blast
    let ?t = "no_now (qo_net os) w1 + 200 * Millisecond"
    obtain y w2 where s: "no_setReadDeadline (qo_net os) c ?t w1 = (y, w2)" by fastforce
    obtain z w3 where p: "pingTTRPC (qo_net os) c w2 = (z, w3)" by fastforce
    obtain u w4 where s2: "no_setReadDeadline (qo_net os) c 0 w3 = (u, w4)" by fastforce
    show thesis
    proof (cases "y = None")
      case False
      then obtain e where "y = Some e" by blast
      then show thesis using assms True d c s by (intro bad [of c w1 ?t y w2 e]) (auto simp: DialClient_def)
    next
      case y: True
      show thesis
      proof (cases "z = None")
        case False
        then obtain e where "z = Some e" by blast
        then show thesis using assms True d c s y p
          by (intro noping [of c w1 ?t w2 z w3 e]) (auto simp: DialClient_def)
      next
        case z: True
        then show thesis using assms True d c s y p s2
          by (intro checked [of c w1 ?t w2 w3 u w4]) (auto simp: DialClient_def split: option.splits)
      qed
    qed
  qed
qed

lemma DialClient_clock:
  assumes "osClockOk os" "DialClient os q w = (r, w')"
  shows "no_now (qo_net os) w \<le> no_now (qo_net os) w'"
proof -
  have ok: "clockOk (qo_net os)" using assms(1) by (simp add: osClockOk_def)
  have d: "no_now (qo_net os) w \<le> no_now (qo_net os) w1"
    if "qo_dialTimeout os (q_guestCID q) DefaultRPCPort dialTimeout w = (x, w1)" for x w1
    using assms(1) that unfolding osClockOk_def by (metis snd_conv)
  note mono = clockD(3) [OF ok] pingTTRPC_clock [OF ok] d
  have close: "no_now (qo_net os) v \<le> no_now (qo_net os) (closeH os c v)" for c v
    by (rule clockD(7) [OF ok])
  show ?thesis
    using assms(2)
  proof (cases rule: DialClient_cases)
    case (bad c w1 w2 t x e)
    then show ?thesis using mono close [of w2 c] by (meson order_trans)
  next
    case (noping c w1 w2 t w3 x e)
    then show ?thesis using mono close [of w3 c] by (meson order_trans)
  next
    case (checked c w1 w2 t w3 w4 x)
    then have "no_now (qo_net os) w \<le> no_now (qo_net os) w4" using mono by (meson order_trans)
    then show ?thesis using checked(5) close [of w4 c] by (auto split: if_splits)
  qed (use mono in auto)
qed

lemma dialTimeout_open:
  assumes "qo_dialTimeout (trackedOs l os) c p d w = (x, w')"
  shows "snd w' = (case x of DialDone (Inr h) \<Rightarrow> insert h (snd w) | _ \<Rightarrow> snd w)"
  using assms by (auto simp: trackedOs_def split: prod.splits dialOutcome.splits sum.splits)

lemma DialClient_open:
  assumes "DialClient (trackedOs l os) q w = (r, w')"
  shows "case r of Inl e \<Rightarrow> snd w' \<subseteq> snd w | Inr c \<Rightarrow> snd w' = insert c (snd w)"
proof -
  have dl: "snd w2 = snd w1" if "no_setReadDeadline (trackedNet n) k t w1 = (y, w2)" for n k t w1 y w2
    using that tracked_open(2) [of n k t "fst w1" "snd w1" y "fst w2" "snd w2"] by simp
  have pg: "snd w2 = snd w1" if "pingTTRPC (trackedNet n) k w1 = (y, w2)" for n k w1 y w2
    using that pingTTRPC_open [of n k "fst w1" "snd w1" y "fst w2" "snd w2"] by simp
  show ?thesis
    using assms
  proof (cases rule: DialClient_cases)
    case (nodial x w1 e)
    then show ?thesis using dialTimeout_open [OF nodial(1)] by (auto split: dialOutcome.splits sum.splits)
  next
    case (bad c w1 w2 t x e)
    then have "snd w2 = insert c (snd w)" using dialTimeout_open [OF bad(1)] dl [of "qo_net os" c t w1 x w2] by simp
    then show ?thesis using bad by auto
  next
    case (noping c w1 w2 t w3 x e)
    then have "snd w3 = insert c (snd w)"
      using dialTimeout_open [OF noping(1)] dl [of "qo_net os" c t w1 None w2] pg [of "qo_net os" c w2 x w3] by simp
    then show ?thesis using noping by auto
  next
    case (checked c w1 w2 t w3 w4 x)
    then have "snd w4 = insert c (snd w)"
      using dialTimeout_open [OF checked(1)] dl [of "qo_net os" c t w1 None w2] dl [of "qo_net os" c 0 w3 x w4]
        pg [of "qo_net os" c w2 None w3] by simp
    then show ?thesis using checked(5) by (auto split: if_splits)
  qed simp
qed

subsection \<open>The retrying dial ends\<close>

definition retryInv :: "'w qemu_os \<Rightarrow> Manager \<Rightarrow> duration \<times> 'w \<Rightarrow> bool" where
  "retryInv os m s \<longleftrightarrow> osClockOk os \<and> mg_instance m \<noteq> TypedNil
     \<and> vsockRetryInitialBackoff \<le> fst s \<and> fst s \<le> vsockRetryMaxBackoff"

lemma mgr_DialClient_Ret:
  "mg_instance m \<noteq> TypedNil \<Longrightarrow> \<exists>r w'. mgr_DialClient os m w = Ret (r, w')"
  by (cases "mg_instance m") (auto simp: mgr_DialClient_def)

lemma mgr_DialClient_clock:
  assumes "osClockOk os" "mgr_DialClient os m w = Ret (r, w')"
  shows "no_now (qo_net os) w \<le> no_now (qo_net os) w'"
  using assms DialClient_clock by (cases "mg_instance m") (auto simp: mgr_DialClient_def)

lemma retryBody_continue:
  assumes "retryBody os m deadline (b, w) = Inl (b', w')"
  obtains e w1 where "mgr_DialClient os m w = Ret (Inl e, w1)" "no_now (qo_net os) w1 \<le> deadline"
    "b' = min (wrap64 (b * 2)) vsockRetryMaxBackoff" "w' = no_sleep (qo_net os) b w1"
  using assms by (auto simp: retryBody_def split: go.splits prod.splits sum.splits if_splits)

interpretation retrying: bounded_loop "retryBody os m deadline" "retryInv os m"
  "\<lambda>s. nat (deadline + 1 - no_now (qo_net os) (snd s))"
proof unfold_locales
  fix s s' :: "duration \<times> 'a"
  assume inv: "retryInv os m s" and body: "retryBody os m deadline s = Inl s'"
  obtain b w b' w' where s: "s = (b, w)" "s' = (b', w')" by fastforce
  obtain e w1 where d: "mgr_DialClient os m w = Ret (Inl e, w1)" "no_now (qo_net os) w1 \<le> deadline"
    "b' = min (wrap64 (b * 2)) vsockRetryMaxBackoff" "w' = no_sleep (qo_net os) b w1"
    using body s by (auto elim: retryBody_continue)
  have ok: "osClockOk os" "clockOk (qo_net os)" and b: "20000000 \<le> b" "b \<le> 500000000"
    using inv s by (simp_all add: retryInv_def osClockOk_def vsockRetryInitialBackoff_def vsockRetryMaxBackoff_def)
  have "wrap64 (b * 2) = b * 2"
    using b by (intro wrap64_id) (simp add: in64_def minInt64_def maxInt64_def)
  then show "retryInv os m s'"
    using inv s d(3) b by (simp add: retryInv_def vsockRetryInitialBackoff_def vsockRetryMaxBackoff_def)
  have "no_now (qo_net os) w \<le> no_now (qo_net os) w1" by (rule mgr_DialClient_clock [OF ok(1) d(1)])
  moreover have "no_now (qo_net os) w1 + b \<le> no_now (qo_net os) w'" unfolding d(4) by (rule clockD(1) [OF ok(2)])
  ultimately show "nat (deadline + 1 - no_now (qo_net os) (snd s')) < nat (deadline + 1 - no_now (qo_net os) (snd s))"
    using b d(2) s by simp
qed

text \<open>What the retrying dial answers: a connection, an error that is not transient, or the last error once
  the time is up; and it leaves no other connection open.\<close>

definition dialAnswer :: "'w qemu_os \<Rightarrow> go_time \<Rightarrow> nat set \<Rightarrow> ((goerr + nat) \<times> 'w \<times> nat set) go \<Rightarrow> bool" where
  "dialAnswer os deadline op a \<longleftrightarrow>
     (case a of
        Panic s \<Rightarrow> False
      | Ret (Inr c, w', op') \<Rightarrow> c \<in> op' \<and> op' \<subseteq> insert c op
      | Ret (Inl e, w', op') \<Rightarrow> op' \<subseteq> op
          \<and> (\<not> isTransientVsockError (Some e) \<or> no_now (qo_net os) w' > deadline))"

lemma mgr_DialClient_open:
  assumes "mgr_DialClient (trackedOs l os) m w = Ret (r, w')"
  shows "case r of Inl e \<Rightarrow> snd w' \<subseteq> snd w | Inr c \<Rightarrow> snd w' = insert c (snd w)"
  using assms DialClient_open by (cases "mg_instance m") (fastforce simp: mgr_DialClient_def)+

lemma retry_answer:
  assumes ok: "osClockOk os" and m: "mg_instance m \<noteq> TypedNil"
  shows "\<exists>a. DialClientWithRetry (trackedOs l os) m maxWait (w, op) = Some a
    \<and> dialAnswer os (no_now (qo_net os) w + maxWait) op a"
proof -
  let ?os = "trackedOs l os" and ?dl = "no_now (qo_net os) w + maxWait"
  have st: "retryInv ?os m (vsockRetryInitialBackoff, w, op)"
    using osClockOk_tracked [OF ok] m by (simp add: retryInv_def vsockRetryInitialBackoff_def vsockRetryMaxBackoff_def)
  obtain a where a: "forLoop (retryBody ?os m ?dl) (vsockRetryInitialBackoff, w, op) = Some a"
    using retrying.returns [OF st] by blast
  have "dialAnswer os ?dl op a"
    using a
  proof (rule forLoop_post [where P = "\<lambda>s. snd (snd s) \<subseteq> op"])
    fix s s' :: "duration \<times> 'a \<times> nat set"
    assume sub: "snd (snd s) \<subseteq> op" and body: "retryBody ?os m ?dl s = Inl s'"
    obtain b v b' v' where s: "s = (b, v)" "s' = (b', v')" by (metis surj_pair)
    obtain e v1 where d: "mgr_DialClient ?os m v = Ret (Inl e, v1)" "v' = no_sleep (trackedNet (qo_net os)) b v1"
      using body s by (auto elim: retryBody_continue)
    have "snd v1 \<subseteq> snd v" using mgr_DialClient_open [OF d(1)] by simp
    moreover have "snd v' = snd v1" unfolding d(2) using tracked_open(6) [of _ b "fst v1" "snd v1"] by simp
    ultimately show "snd (snd s') \<subseteq> op" using sub s by simp
  next
    fix s :: "duration \<times> 'a \<times> nat set" and r
    assume sub: "snd (snd s) \<subseteq> op" and body: "retryBody ?os m ?dl s = Inr r"
    obtain b v where s: "s = (b, v)" by (metis surj_pair)
    obtain x v1 where d: "mgr_DialClient ?os m v = Ret (x, v1)" using mgr_DialClient_Ret [OF m, of ?os v] by blast
    note op' = mgr_DialClient_open [OF d]
    show "dialAnswer os ?dl op r"
    proof (cases x)
      case (Inl e)
      then have "r = Ret (Inl e, v1)" "\<not> isTransientVsockError (Some e) \<or> no_now (trackedNet (qo_net os)) v1 > ?dl"
        using body s d by (auto simp: retryBody_def split: if_splits)
      then show ?thesis using op' Inl sub s by (auto simp: dialAnswer_def now_tracked split: prod.splits)
    next
      case (Inr c)
      then have "r = Ret (Inr c, v1)" using body s d by (simp add: retryBody_def)
      then show ?thesis using op' Inr sub s by (auto simp: dialAnswer_def split: prod.splits)
    qed
  qed simp
  then show ?thesis using a by (simp add: DialClientWithRetry_def now_tracked)
qed

subsection \<open>Creating and shutting down\<close>

text \<open>A manager whose instance is nil, typed nil, or an instance that keeps the promise of its state.\<close>

definition mgrInv :: "Manager \<Rightarrow> bool" where
  "mgrInv m \<longleftrightarrow> (case mg_instance m of Iface q \<Rightarrow> instInv q | _ \<Rightarrow> True)"

lemma CreateVM_result:
  assumes "CreateVM os env rt ns i b cfg m d w = Some (r, m', d', w')" "mg_instance m = NilIface"
  shows "case r of None \<Rightarrow> \<exists>q. mg_instance m' = Iface q \<and> q_vmState q = vmStateNew \<and> instInv q
    | Some e \<Rightarrow> mg_instance m' = NilIface \<or> mg_instance m' = TypedNil"
  using assms mkInstance_inv
  by (fastforce simp: CreateVM_def NewInstance_def newInstance_def Let_def mkInstance_def
      split: prod.splits option.splits sum.splits)

text \<open>After an error of \<open>newInstance\<close> the manager takes itself to have a VM, and shutting it down panics.\<close>

lemma typed_nil_poisons:
  assumes "mg_instance m = TypedNil"
  shows "mgr_Instance m = Inr TypedNil" "mgr_Shutdown os m w = nilDeref" "mgr_DialClient os m w = nilDeref"
    "\<exists>e. CreateVM os env rt ns i b cfg m d w = Some (Some e, m, d, w)"
  using assms by (simp_all add: mgr_Instance_def mgr_Shutdown_def mgr_DialClient_def CreateVM_def)

lemma mgr_Shutdown_result:
  assumes "mgrInv m" "mg_instance m \<noteq> TypedNil"
  shows "\<exists>r w'. mgr_Shutdown os m w = Ret (r, \<lparr>mg_instance = NilIface\<rparr>, w')"
proof (cases "mg_instance m")
  case (Iface q)
  have "\<exists>r q' w'. Shutdown os q w = Ret (r, q', w')"
  proof (cases "q_vmState q = vmStateRunning")
    case True
    then have "allConnected q" using assms Iface by (simp add: mgrInv_def instInv_def)
    then show ?thesis using Shutdown_shape [OF True, of os w] by blast
  next
    case False
    then show ?thesis by (simp add: Shutdown_idle)
  qed
  then show ?thesis using Iface by (auto simp: mgr_Shutdown_def)
qed (use assms in \<open>simp_all add: mgr_Shutdown_def\<close>)

end
