(* ===== verification/Conn_Manager.thy ===== *)
theory Conn_Manager
  imports Vm_Manager
begin

text \<open>
  The cache of the shim's connection to the guest's task service
  (\<^verbatim>\<open>internal/shim/task/connmanager.go\<close>). The dial function is an argument; the shim passes
  \<open>DialClientWithRetry\<close> of the VM manager. The locale \<open>dialer\<close> is what the cache relies on: a dial that
  returns and leaves open at most the connection it hands out.
\<close>

section \<open>The connection manager\<close>

record ConnectionManager =
  cm_client :: "nat option"
  cm_closed :: bool

type_synonym 's dial = "duration \<Rightarrow> 's \<Rightarrow> ((goerr + nat) \<times> 's) go option"

definition NewConnectionManager :: ConnectionManager where
  "NewConnectionManager = \<lparr>cm_client = None, cm_closed = False\<rparr>"

definition taskClientRetryTimeout :: duration where
  "taskClientRetryTimeout = 1 * Second"

abbreviation ErrCanceled :: goerr where
  "ErrCanceled \<equiv> Sentinel ''context canceled''"

definition getOrCreateClient ::
  "'s dial \<Rightarrow> ConnectionManager \<Rightarrow> 's \<Rightarrow> ((goerr + nat) \<times> ConnectionManager \<times> 's) go option" where
  "getOrCreateClient dialRetryFn m s =
     (if cm_closed m then Some (Ret (Inl ErrCanceled, m, s))
      else
        (case cm_client m of
           Some c \<Rightarrow> Some (Ret (Inr c, m, s))
         | None \<Rightarrow>
             (case dialRetryFn taskClientRetryTimeout s of
                None \<Rightarrow> None
              | Some (Panic p) \<Rightarrow> Some (Panic p)
              | Some (Ret (Inl err, s1)) \<Rightarrow> Some (Ret (Inl err, m, s1))
              | Some (Ret (Inr client, s1)) \<Rightarrow> Some (Ret (Inr client, m\<lparr>cm_client := Some client\<rparr>, s1)))))"

definition GetClient ::
  "'s dial \<Rightarrow> ConnectionManager \<Rightarrow> 's \<Rightarrow> ((goerr + nat) \<times> ConnectionManager \<times> 's) go option" where
  "GetClient dialRetryFn m s =
     (case cm_client m of
        Some c \<Rightarrow> if \<not> cm_closed m then Some (Ret (Inr c, m, s)) else getOrCreateClient dialRetryFn m s
      | None \<Rightarrow> getOrCreateClient dialRetryFn m s)"

definition SetClient :: "(nat \<Rightarrow> 's \<Rightarrow> 's) \<Rightarrow> nat option \<Rightarrow> ConnectionManager \<Rightarrow> 's \<Rightarrow> ConnectionManager \<times> 's" where
  "SetClient close client m s =
     (if cm_closed m then (m, case client of Some c \<Rightarrow> close c s | None \<Rightarrow> s)
      else
        (m\<lparr>cm_client := client\<rparr>,
         case cm_client m of Some c \<Rightarrow> if client \<noteq> Some c then close c s else s | None \<Rightarrow> s))"

definition ClearClient :: "ConnectionManager \<Rightarrow> nat option \<times> ConnectionManager" where
  "ClearClient m = (cm_client m, m\<lparr>cm_client := None\<rparr>)"

definition Invalidate :: "(nat \<Rightarrow> 's \<Rightarrow> 's) \<Rightarrow> ConnectionManager \<Rightarrow> 's \<Rightarrow> ConnectionManager \<times> 's" where
  "Invalidate close m s =
     (case cm_client m of
        Some c \<Rightarrow> (m\<lparr>cm_client := None\<rparr>, close c s)
      | None \<Rightarrow> (m, s))"

text \<open>The error of closing the client is that of the connection, which the environment does not report.\<close>

definition cm_Close :: "(nat \<Rightarrow> 's \<Rightarrow> 's) \<Rightarrow> ConnectionManager \<Rightarrow> 's \<Rightarrow> ConnectionManager \<times> 's" where
  "cm_Close close m s =
     (if cm_closed m then (m, s)
      else
        (let m1 = m\<lparr>cm_closed := True\<rparr>
         in case cm_client m1 of
              Some c \<Rightarrow> (m1\<lparr>cm_client := None\<rparr>, close c s)
            | None \<Rightarrow> (m1, s)))"

definition HasClient :: "ConnectionManager \<Rightarrow> bool" where
  "HasClient m \<longleftrightarrow> cm_client m \<noteq> None \<and> \<not> cm_closed m"

section \<open>Which connections are open\<close>

text \<open>The calls on a manager. The caller hands over the client of \<open>SetClient\<close> and receives
  that of \<open>ClearClient\<close>; \<open>outside\<close> are the open connections that are not the manager's.\<close>

datatype cm_op = CmGet | CmSet "nat option" | CmClear | CmInvalidate | CmClose

type_synonym 's cm_state = "ConnectionManager \<times> nat set \<times> 's"

fun cm_exec :: "'s dial \<Rightarrow> (nat \<Rightarrow> 's \<Rightarrow> 's) \<Rightarrow> cm_op \<Rightarrow> 's cm_state \<Rightarrow> 's cm_state" where
  "cm_exec dial close CmGet (m, out, s) =
     (case GetClient dial m s of Some (Ret (r, m', s')) \<Rightarrow> (m', out, s') | _ \<Rightarrow> (m, out, s))"
| "cm_exec dial close (CmSet c) (m, out, s) =
     (let (m', s') = SetClient close c m s in (m', out - set_option c, s'))"
| "cm_exec dial close CmClear (m, out, s) =
     (let (c, m') = ClearClient m in (m', out \<union> set_option c, s))"
| "cm_exec dial close CmInvalidate (m, out, s) = (let (m', s') = Invalidate close m s in (m', out, s'))"
| "cm_exec dial close CmClose (m, out, s) = (let (m', s') = cm_Close close m s in (m', out, s'))"

locale dialer =
  fixes dial :: "'s dial"
    and close :: "nat \<Rightarrow> 's \<Rightarrow> 's"
    and opened :: "'s \<Rightarrow> nat set"
    and ok :: bool
  assumes dial_returns: "ok \<Longrightarrow> \<exists>r s'. dial d s = Some (Ret (r, s'))"
    and dial_opened: "ok \<Longrightarrow> dial d s = Some (Ret (r, s')) \<Longrightarrow>
      opened s' \<subseteq> opened s \<union> (case r of Inl e \<Rightarrow> {} | Inr c \<Rightarrow> {c})"
    and close_opened: "opened (close c s) = opened s - {c}"
begin

definition covered :: "'s cm_state \<Rightarrow> bool" where
  "covered x \<longleftrightarrow> (case x of (m, out, s) \<Rightarrow> opened s \<subseteq> out \<union> set_option (cm_client m)
     \<and> (cm_closed m \<longrightarrow> cm_client m = None))"

lemma GetClient_returns:
  assumes ok
  shows "\<exists>r m' s'. GetClient dial m s = Some (Ret (r, m', s'))"
proof -
  obtain r s' where "dial taskClientRetryTimeout s = Some (Ret (r, s'))"
    using dial_returns [OF assms] by blast
  then show ?thesis
    by (cases r) (auto simp: GetClient_def getOrCreateClient_def split: option.splits)
qed

lemma GetClient_cases:
  assumes ok "GetClient dial m s = Some (Ret (r, m', s'))"
  obtains (same) "m' = m" "s' = s"
  | (dialled) x where "\<not> cm_closed m" "cm_client m = None" "dial taskClientRetryTimeout s = Some (Ret (x, s'))"
      "m' = (case x of Inl e \<Rightarrow> m | Inr c \<Rightarrow> m\<lparr>cm_client := Some c\<rparr>)"
proof (cases "cm_closed m \<or> cm_client m \<noteq> None")
  case True
  then show thesis using assms(2)
    by (intro same) (auto simp: GetClient_def getOrCreateClient_def split: option.splits if_splits)
next
  case False
  obtain x s1 where d: "dial taskClientRetryTimeout s = Some (Ret (x, s1))"
    using dial_returns [OF assms(1)] by blast
  with False assms(2) show thesis
    by (intro dialled [of x]; cases x) (auto simp: GetClient_def getOrCreateClient_def)
qed

lemma GetClient_covered:
  assumes ok "covered (m, out, s)" "GetClient dial m s = Some (Ret (r, m', s'))"
  shows "covered (m', out, s')"
  using assms(1,3)
proof (cases rule: GetClient_cases)
  case same
  then show ?thesis using assms(2) by simp
next
  case (dialled x)
  have "opened s' \<subseteq> opened s \<union> (case x of Inl e \<Rightarrow> {} | Inr c \<Rightarrow> {c})"
    by (rule dial_opened [OF assms(1) dialled(3)])
  then show ?thesis using assms(2) dialled(1,2,4) by (cases x) (auto simp: covered_def)
qed

lemma exec_covered: "ok \<Longrightarrow> covered x \<Longrightarrow> covered (cm_exec dial close op x)"
proof -
  assume ok: ok and inv: "covered x"
  obtain m out s where x: "x = (m, out, s)" by (metis prod_cases3)
  show ?thesis
  proof (cases op)
    case CmGet
    obtain r m' s' where g: "GetClient dial m s = Some (Ret (r, m', s'))" using GetClient_returns [OF ok] by blast
    then show ?thesis using GetClient_covered [OF ok _ g] inv CmGet x by simp
  qed (use inv x in \<open>auto simp: covered_def SetClient_def ClearClient_def Invalidate_def cm_Close_def
      close_opened Let_def split: option.splits if_splits\<close>)
qed

lemma run_covered: "ok \<Longrightarrow> covered x \<Longrightarrow> covered (fold (cm_exec dial close) ops x)"
  by (induction ops arbitrary: x) (simp_all add: exec_covered)

end

section \<open>The shim's task clients\<close>

text \<open>The dial the shim passes, on a machine that records which connections are open.\<close>

definition taskDial :: "string \<Rightarrow> 'w qemu_os \<Rightarrow> Manager \<Rightarrow> ('w \<times> nat set) dial" where
  "taskDial l os m = DialClientWithRetry (trackedOs l os) m"

interpretation task_dialer: dialer "taskDial l os m" "closeH (trackedOs l os)" snd
  "osClockOk os \<and> mg_instance m \<noteq> TypedNil"
proof unfold_locales
  fix d and s :: "'a \<times> nat set"
  assume "osClockOk os \<and> mg_instance m \<noteq> TypedNil"
  then obtain a where a: "taskDial l os m d s = Some a" "dialAnswer os (no_now (qo_net os) (fst s) + d) (snd s) a"
    using retry_answer [of os m l d "fst s" "snd s"] by (auto simp: taskDial_def)
  then show "\<exists>r s'. taskDial l os m d s = Some (Ret (r, s'))"
    by (auto simp: dialAnswer_def split: go.splits)
  fix r s'
  assume "taskDial l os m d s = Some (Ret (r, s'))"
  with a show "snd s' \<subseteq> snd s \<union> (case r of Inl e \<Rightarrow> {} | Inr c \<Rightarrow> {c})"
    by (cases s') (auto simp: dialAnswer_def split: sum.splits)
next
  fix c and s :: "'a \<times> nat set"
  show "snd (closeH (trackedOs l os) c s) = snd s - {c}" by simp
qed



end
