(* ===== verification/Qemu_Frame.thy ===== *)
theory Qemu_Frame
  imports Conn_Manager
begin

text \<open>
  What the calls on a VM leave alone. The locale \<open>os_frame\<close> is an environment whose operations keep some part
  \<open>part w\<close> of the world; then creating, starting, dialling and shutting down the VM keep it too. It is
  interpreted on \<open>pairOs\<close>, an environment that carries a second component along (a log, for example), whatever
  the environment below does.
\<close>

locale os_frame =
  fixes os :: "'w qemu_os"
    and part :: "'w \<Rightarrow> 'p"
  assumes net_frame:
      "part (no_sleep (qo_net os) d w) = part w"
      "no_tick (qo_net os) t k w = (r1, w') \<Longrightarrow> part w' = part w"
      "no_dial (qo_net os) c p w = (r2, w') \<Longrightarrow> part w' = part w"
      "no_setReadDeadline (qo_net os) h t w = (r1, w') \<Longrightarrow> part w' = part w"
      "no_write (qo_net os) h bs w = (r3, w') \<Longrightarrow> part w' = part w"
      "no_readFull (qo_net os) h n w = (r4, w') \<Longrightarrow> part w' = part w"
      "no_discard (qo_net os) h u w = (r1, w') \<Longrightarrow> part w' = part w"
      "part (closeH os h w) = part w"
    and file_frame:
      "qo_mkdirAll os path w = (r1, w') \<Longrightarrow> part w' = part w"
      "part (qo_remove os path w) = part w"
      "part (qo_removeAll os path w) = part w"
      "qo_mkfifo os path w = (r1, w') \<Longrightarrow> part w' = part w"
      "qo_create os path w = (r2, w') \<Longrightarrow> part w' = part w"
      "qo_openTAP os path path' w = (r2, w') \<Longrightarrow> part w' = part w"
    and proc_frame:
      "qo_startCmd os path as hs w = (r2, w') \<Longrightarrow> part w' = part w"
      "qo_kill os h w = (r1, w') \<Longrightarrow> part w' = part w"
      "qo_waitExit os h d w = (b, w') \<Longrightarrow> part w' = part w"
    and qmp_frame:
      "qo_newMonitor os path w = (r2, w') \<Longrightarrow> part w' = part w"
      "qo_monConnect os h w = (r1, w') \<Longrightarrow> part w' = part w"
      "qo_monEvents os h w = (r1, w') \<Longrightarrow> part w' = part w"
      "qo_qmpRun os h path w = (r1, w') \<Longrightarrow> part w' = part w"
    and lease_frame: "part (qo_release os l w) = part w"
    and dial_frame: "qo_dialTimeout os c p d w = (x, w') \<Longrightarrow> part w' = part w"
begin

lemmas frames = net_frame(2-7) file_frame(1,4-6) proc_frame qmp_frame dial_frame
lemmas same = net_frame(1,8) file_frame(2,3) lease_frame

lemma snd_frame: "part (snd (qo_kill os h w)) = part w" "part (snd (qo_qmpRun os h path w)) = part w"
    "part (snd (no_tick (qo_net os) t k w)) = part w"
  using proc_frame(2) qmp_frame(4) net_frame(2) by (metis prod.collapse)+

lemma ping_frame: "pingTTRPC (qo_net os) h w = (r, w') \<Longrightarrow> part w' = part w"
  by (auto simp: pingTTRPC_def Let_def split: prod.splits option.splits sum.splits if_splits dest!: frames)

lemma checkConn_frame: "checkConn (qo_net os) h pd w = (r, w') \<Longrightarrow> part w' = part w"
  by (auto simp: checkConn_def split: prod.splits option.splits dest!: frames ping_frame)

lemma connect_frame:
  assumes "connectVsockRPC (qo_net os) c w = Some (r, w')"
  shows "part w' = part w"
proof -
  have "part (snd (r, w')) = part w"
    using assms [unfolded connectVsockRPC_def]
  proof (rule forLoop_post [where P = "\<lambda>(a, b, v). part v = part w"])
    fix x y assume "case x of (a, b, v) \<Rightarrow> part v = part w" "connectBody (qo_net os) c (no_now (qo_net os) w) x = Inl y"
    then show "case y of (a, b, v) \<Rightarrow> part v = part w"
      by (auto simp: connectBody_def same split: prod.splits option.splits sum.splits if_splits dest!: frames checkConn_frame)
  next
    fix x y assume "case x of (a, b, v) \<Rightarrow> part v = part w" "connectBody (qo_net os) c (no_now (qo_net os) w) x = Inr y"
    then show "part (snd y) = part w"
      by (auto simp: connectBody_def same split: prod.splits option.splits sum.splits if_splits dest!: frames checkConn_frame)
  qed simp
  then show ?thesis by simp
qed

lemma wait_frame:
  assumes "waitForSocket (qo_net os) path t w = Some (r, w')"
  shows "part w' = part w"
proof -
  have "part (snd (r, w')) = part w"
    using assms [unfolded waitForSocket_def]
  proof (rule forLoop_post [where P = "\<lambda>(k, v). part v = part w"])
    fix x y assume "case x of (k, v) \<Rightarrow> part v = part w" "waitBody (qo_net os) path t (no_now (qo_net os) w) x = Inl y"
    then show "case y of (k, v) \<Rightarrow> part v = part w"
      by (auto simp: waitBody_def snd_frame split: prod.splits option.splits if_splits dest!: frames)
  next
    fix x y assume "case x of (k, v) \<Rightarrow> part v = part w" "waitBody (qo_net os) path t (no_now (qo_net os) w) x = Inr y"
    then show "part (snd y) = part w"
      by (auto simp: waitBody_def snd_frame split: prod.splits option.splits if_splits dest!: frames)
  qed simp
  then show ?thesis by simp
qed

lemma closes_frame:
  "part (closeAll os hs w) = part w" "part (closeOpt os ho w) = part w" "part (releaseLease os q w) = part w"
  "part (killProcess os q w) = part w" "part (closeQMP os q w) = part w" "part (shutdownGuest os q w) = part w"
  "part (removeIf (qo_remove os path) path w) = part w" "part (removeIf (qo_removeAll os path) path w) = part w"
  "part (snd (closeTAPFiles os q w)) = part w" "part (snd (closeClientConnections os q w)) = part w"
proof -
  show a: "part (closeAll os hs w) = part w" for hs w by (induction hs arbitrary: w) (simp_all add: same)
  show o: "part (closeOpt os ho w) = part w" for ho w by (simp add: closeOpt_def same split: option.splits)
  show "part (releaseLease os q w) = part w" by (simp add: releaseLease_def same split: option.splits)
  show "part (killProcess os q w) = part w" by (simp add: killProcess_def snd_frame split: option.splits)
  show "part (closeQMP os q w) = part w" by (simp add: closeQMP_def same split: option.splits)
  show "part (shutdownGuest os q w) = part w"
    by (auto simp: shutdownGuest_def snd_frame split: option.splits prod.splits dest!: frames)
  show "part (removeIf (qo_remove os path) path w) = part w" "part (removeIf (qo_removeAll os path) path w) = part w"
    by (simp_all add: removeIf_def same)
  show "part (snd (closeTAPFiles os q w)) = part w" by (simp add: closeTAPFiles_def a)
  show "part (snd (closeClientConnections os q w)) = part w" by (simp add: closeClientConnections_def o)
qed

lemma closeTAP_frame: "closeTAPFiles os q w = (q', w') \<Longrightarrow> part w' = part w"
  using closes_frame(9) by (metis snd_conv)

lemma openTaps_frame: "openTaps os ns nics w = (r, nics', w') \<Longrightarrow> part w' = part w"
proof (induction nics arbitrary: w r nics' w')
  case (Cons nic nics)
  obtain x w1 where t: "qo_openTAP os (TapName nic) ns w = (x, w1)" by (metis surj_pair)
  obtain y ns2 w2 where o: "openTaps os ns nics w1 = (y, ns2, w2)" by (metis prod_cases3)
  show ?case using Cons.prems t o Cons.IH [OF o] frames(10) [OF t] by (cases x) auto
qed simp

lemma openTapFiles_frame: "openTapFiles os ns q w = (r, q', w') \<Longrightarrow> part w' = part w"
  by (auto simp: openTapFiles_def Let_def split: prod.splits option.splits if_splits dest!: openTaps_frame closeTAP_frame)

lemma startQemu_frame: "startQemuProcess os as q w = (r, q', w') \<Longrightarrow> part w' = part w"
  by (auto simp: startQemuProcess_def Let_def closes_frame split: prod.splits sum.splits dest!: frames)

lemma newQMP_frame: "newQMPClient os path w = Some (r, w') \<Longrightarrow> part w' = part w"
  by (auto simp: newQMPClient_def same split: prod.splits sum.splits option.splits if_splits dest!: frames wait_frame)

lemma connectQMP_frame: "connectQMP os q w = Some (r, q', w') \<Longrightarrow> part w' = part w"
  by (auto simp: connectQMP_def closes_frame split: prod.splits sum.splits option.splits dest!: newQMP_frame)

lemma connectClient_frame: "connectVsockClient os q w = Some (r, q', w') \<Longrightarrow> part w' = part w"
  by (auto simp: connectVsockClient_def closes_frame split: prod.splits sum.splits option.splits dest!: connect_frame)

lemma rollbackStart_frame: "rollbackStart os q w = (q', w') \<Longrightarrow> part w' = part w"
  by (auto simp: rollbackStart_def Let_def closes_frame split: prod.splits dest!: closeTAP_frame)

lemma startRun_frame: "startRun os opts q w = Some (r, q', w') \<Longrightarrow> part w' = part w"
  by (auto simp: startRun_def Let_def same split: prod.splits sum.splits option.splits
      dest!: openTapFiles_frame startQemu_frame connectQMP_frame connectClient_frame)

lemma consoleFIFO_frame: "setupConsoleFIFO os q w = (r, q', w') \<Longrightarrow> part w' = part w"
  by (auto simp: setupConsoleFIFO_def Let_def same split: prod.splits sum.splits option.splits dest!: frames)

lemma Start_frame: "Start os opts q w = Some (r, q', w') \<Longrightarrow> part w' = part w"
  by (auto simp: Start_def split: prod.splits option.splits bool.splits dest!: consoleFIFO_frame startRun_frame rollbackStart_frame)

lemma DialClient_frame: "DialClient os q w = (r, w') \<Longrightarrow> part w' = part w"
  by (auto simp: DialClient_def same split: prod.splits option.splits sum.splits dialOutcome.splits if_splits
      dest!: frames ping_frame)

lemma mgr_Dial_frame: "mgr_DialClient os m w = Ret (r, w') \<Longrightarrow> part w' = part w"
  by (auto simp: mgr_DialClient_def split: iface.splits dest!: DialClient_frame)

lemma retry_frame:
  assumes "DialClientWithRetry os m d w = returns (r, w')"
  shows "part w' = part w"
proof -
  have "case Ret (r, w') of Ret (e, v) \<Rightarrow> part v = part w | Panic p \<Rightarrow> True"
    using assms [unfolded DialClientWithRetry_def]
  proof (rule forLoop_post [where P = "\<lambda>(b, v). part v = part w"])
    fix x y assume "case x of (b, v) \<Rightarrow> part v = part w" "retryBody os m (no_now (qo_net os) w + d) x = Inl y"
    then show "case y of (b, v) \<Rightarrow> part v = part w"
      by (auto simp: retryBody_def same split: prod.splits go.splits sum.splits if_splits dest!: mgr_Dial_frame)
  next
    fix x y assume "case x of (b, v) \<Rightarrow> part v = part w" "retryBody os m (no_now (qo_net os) w + d) x = Inr y"
    then show "case y of Ret (e, v) \<Rightarrow> part v = part w | Panic p \<Rightarrow> True"
      by (auto simp: retryBody_def split: prod.splits go.splits sum.splits if_splits dest!: mgr_Dial_frame)
  qed simp
  then show ?thesis by simp
qed

lemma failedKill_frame: "cleanupAfterFailedKill os q w = (q', w') \<Longrightarrow> part w' = part w"
  by (auto simp: cleanupAfterFailedKill_def closes_frame dest!: closeTAP_frame)

lemma killQemu_frame: "killQemu os h q w = (r, q', w') \<Longrightarrow> part w' = part w"
  by (auto simp: killQemu_def Let_def split: prod.splits option.splits bool.splits dest!: frames failedKill_frame)

lemma stopQemu_frame: "stopQemuProcess os q w = (r, q', w') \<Longrightarrow> part w' = part w"
  by (auto simp: stopQemuProcess_def split: prod.splits option.splits bool.splits dest!: frames killQemu_frame)

lemma cleanup_frame: "cleanupResources os q w = Ret (q', w') \<Longrightarrow> part w' = part w"
  by (auto simp: cleanupResources_def Let_def closes_frame same split: prod.splits option.splits dest!: closeTAP_frame)

lemma Shutdown_frame:
  assumes "Shutdown os q w = Ret (r, q', w')"
  shows "part w' = part w"
proof (cases "compareAndSwapState vmStateRunning vmStateShutdown q")
  case (Pair b q0)
  obtain q1 w1 where c: "closeClientConnections os (cancelBackgroundMonitors q0) w = (q1, w1)" by (metis surj_pair)
  obtain e q2 w2 where t: "stopQemuProcess os q1 (shutdownGuest os q1 w1) = (e, q2, w2)" by (metis prod_cases3)
  have "part w1 = part w" using closes_frame(10) c by (metis snd_conv)
  then have "part w2 = part w" using stopQemu_frame [OF t] closes_frame(6) by simp
  then show ?thesis
    using assms Pair c t by (cases b; cases e) (auto simp: Shutdown_def bindGo_Ret_iff dest!: cleanup_frame)
qed

lemma mgr_Shutdown_frame: "mgr_Shutdown os m w = Ret (r, m', w') \<Longrightarrow> part w' = part w"
  by (auto simp: mgr_Shutdown_def bindGo_Ret_iff split: iface.splits dest!: Shutdown_frame)

lemma newInstance_frame: "newInstance os env i p st cfg d w = Some (r, d', w') \<Longrightarrow> part w' = part w"
  by (auto simp: newInstance_def Let_def split: sum.splits prod.splits option.splits dest!: frames)

lemma CreateVM_frame: "CreateVM os env rt ns i b cfg m d w = Some (e, m', d', w') \<Longrightarrow> part w' = part w"
  by (auto simp: CreateVM_def NewInstance_def Let_def split: if_splits sum.splits prod.splits option.splits
      dest!: frames newInstance_frame)

lemma GetClient_frame: "GetClient (DialClientWithRetry os m) c w = returns (r, c', w') \<Longrightarrow> part w' = part w"
  by (auto simp: GetClient_def getOrCreateClient_def split: option.splits if_splits go.splits sum.splits dest!: retry_frame)

lemma cm_Close_frame: "cm_Close (closeH os) c w = (c', w') \<Longrightarrow> part w' = part w"
  by (auto simp: cm_Close_def Let_def same split: option.splits if_splits)

end

section \<open>An environment with a passenger\<close>

definition pairP :: "('w \<Rightarrow> 'r \<times> 'w) \<Rightarrow> 'w \<times> 'l \<Rightarrow> 'r \<times> 'w \<times> 'l" where
  "pairP f x = (let (r, w) = f (fst x) in (r, w, snd x))"

definition pairW :: "('w \<Rightarrow> 'w) \<Rightarrow> 'w \<times> 'l \<Rightarrow> 'w \<times> 'l" where
  "pairW f x = (f (fst x), snd x)"

definition pairNet :: "'w net_os \<Rightarrow> ('w \<times> 'l) net_os" where
  "pairNet n =
     \<lparr>no_now = \<lambda>x. no_now n (fst x), no_sleep = \<lambda>d. pairW (no_sleep n d), no_ctxErr = \<lambda>x. no_ctxErr n (fst x),
      no_stat = \<lambda>p x. no_stat n p (fst x), no_tick = \<lambda>t k. pairP (no_tick n t k), no_dial = \<lambda>c p. pairP (no_dial n c p),
      no_setReadDeadline = \<lambda>h t. pairP (no_setReadDeadline n h t), no_write = \<lambda>h b. pairP (no_write n h b),
      no_readFull = \<lambda>h k. pairP (no_readFull n h k), no_discard = \<lambda>h u. pairP (no_discard n h u),
      no_close = \<lambda>h. pairW (no_close n h)\<rparr>"

definition pairOs :: "'w qemu_os \<Rightarrow> ('w \<times> 'l) qemu_os" where
  "pairOs os =
     \<lparr>qo_net = pairNet (qo_net os), qo_probe = \<lambda>x. qo_probe os (fst x), qo_config = \<lambda>x. qo_config os (fst x),
      qo_mkdirAll = \<lambda>p. pairP (qo_mkdirAll os p), qo_remove = \<lambda>p. pairW (qo_remove os p), qo_removeAll = \<lambda>p. pairW (qo_removeAll os p),
      qo_mkfifo = \<lambda>p. pairP (qo_mkfifo os p), qo_create = \<lambda>p. pairP (qo_create os p), qo_openTAP = \<lambda>a b. pairP (qo_openTAP os a b),
      qo_startCmd = \<lambda>p as hs. pairP (qo_startCmd os p as hs), qo_kill = \<lambda>h. pairP (qo_kill os h),
      qo_waitExit = \<lambda>h d. pairP (qo_waitExit os h d), qo_newMonitor = \<lambda>p. pairP (qo_newMonitor os p),
      qo_monConnect = \<lambda>h. pairP (qo_monConnect os h), qo_monEvents = \<lambda>h. pairP (qo_monEvents os h),
      qo_qmpRun = \<lambda>h c. pairP (qo_qmpRun os h c), qo_release = \<lambda>l. pairW (qo_release os l),
      qo_dialTimeout = \<lambda>c p d. pairP (qo_dialTimeout os c p d), qo_statDev = \<lambda>p x. qo_statDev os p (fst x)\<rparr>"

lemma pairP_snd: "pairP f x = (r, y) \<Longrightarrow> snd y = snd x"
  by (auto simp: pairP_def split: prod.splits)

interpretation paired: os_frame "pairOs os" snd for os :: "'w qemu_os"
  by unfold_locales (auto simp: pairOs_def pairNet_def pairW_def dest: pairP_snd)

lemma osClockOk_pair: "osClockOk os \<Longrightarrow> osClockOk (pairOs os)"
  by (simp add: osClockOk_def clockOk_def pairOs_def pairNet_def pairW_def pairP_def case_prod_unfold Let_def)

end
