(* ===== verification/Mount_Util.thy ===== *)
theory Mount_Util
  imports Go_Filepath "HOL-Library.Word"
begin

text \<open>
  Mounting the root file system in the guest (\<^verbatim>\<open>internal/host/mountutil/mount.go\<close>): the
  substitution of \<^verbatim>\<open>{{ ... }}\<close> templates by the places of earlier mounts, the \<^verbatim>\<open>mkdir\<close> options, and the
  loop that performs the mounts and undoes them on an error.

  The regular expressions of the templates are matched by functions: neighbouring classes in them
  are disjoint, so that a match at a position is unique. The system calls are functions of an
  environment record over a world.
\<close>

section \<open>Mounts\<close>

record Mount =
  mnt_Type :: string
  mnt_Source :: string
  mnt_Target :: string
  mnt_Options :: "string list"

record ActiveMount =
  am_Type :: string
  am_Source :: string
  am_Target :: string
  am_Options :: "string list"
  am_MountPoint :: string

section \<open>Directories to create\<close>

record mkdirSpec =
  mk_Path :: string
  mk_Mode :: nat
  mk_UID :: int
  mk_GID :: int

text \<open>\<open>strconv.ParseUint(s, 8, 32)\<close>.\<close>

definition parseOctal32 :: "string \<Rightarrow> nat option" where
  "parseOctal32 s =
     (if s = [] \<or> \<not> list_all (\<lambda>c. isDigit c \<and> digitVal c < 8) s then None
      else (let v = foldl (\<lambda>v c. 8 * v + digitVal c) 0 s in if v < 2 ^ 32 then Some v else None))"

definition mkdirPathPrefix :: string where
  "mkdirPathPrefix = ''X-containerd.mkdir.path=''"

text \<open>The cases of the switch with their fall-through: from the last part to the first.\<close>

definition parseMkdirOption :: "string \<Rightarrow> string \<Rightarrow> goerr + mkdirSpec" where
  "parseMkdirOption opt baseDir =
     (if \<not> hasPrefix opt mkdirPathPrefix then Inl (Errorf (''unknown mkdir mount option '' @ opt))
      else
        (let parts = splitN (CHR '':'') 4 (drop (length mkdirPathPrefix) opt); n = length parts
         in case (if n \<ge> 4 then atoi (parts ! 3) else Some (- 1)) of
              None \<Rightarrow> Inl (Errorf (''invalid gid '' @ parts ! 3 @ '' in mkdir option''))
            | Some gid \<Rightarrow>
                (case (if n \<ge> 3 then atoi (parts ! 2) else Some (- 1)) of
                   None \<Rightarrow> Inl (Errorf (''invalid uid '' @ parts ! 2 @ '' in mkdir option''))
                 | Some uid \<Rightarrow>
                     (case (if n \<ge> 2 then parseOctal32 (parts ! 1) else Some 493) of
                        None \<Rightarrow> Inl (Errorf (''invalid mode '' @ parts ! 1 @ '' in mkdir option''))
                      | Some mode \<Rightarrow>
                          if \<not> hasPrefix (parts ! 0) baseDir
                          then Inl (Errorf (''mkdir path '' @ parts ! 0 @ '' must be under '' @ baseDir))
                          else Inr \<lparr>mk_Path = parts ! 0, mk_Mode = mode, mk_UID = uid, mk_GID = gid\<rparr>))))"

fun processMkdirOptions :: "string list \<Rightarrow> string \<Rightarrow> goerr + string list \<times> mkdirSpec list" where
  "processMkdirOptions [] baseDir = Inr ([], [])"
| "processMkdirOptions (opt # opts) baseDir =
     (if hasPrefix opt ''X-containerd.mkdir.''
      then
        (case parseMkdirOption opt baseDir of
           Inl err \<Rightarrow> Inl err
         | Inr spec \<Rightarrow>
             (case processMkdirOptions opts baseDir of
                Inl err \<Rightarrow> Inl err
              | Inr (remaining, specs) \<Rightarrow> Inr (remaining, spec # specs)))
      else
        (case processMkdirOptions opts baseDir of
           Inl err \<Rightarrow> Inl err
         | Inr (remaining, specs) \<Rightarrow> Inr (opt # remaining, specs)))"

record 'w mount_env =
  me_mkdirAll :: "string \<Rightarrow> nat \<Rightarrow> 'w \<Rightarrow> goerr option \<times> 'w"
  me_chown :: "string \<Rightarrow> int \<Rightarrow> int \<Rightarrow> 'w \<Rightarrow> goerr option \<times> 'w"
  me_mount :: "ActiveMount \<Rightarrow> 'w \<Rightarrow> goerr option \<times> 'w"
  me_unmountAll :: "string \<Rightarrow> 'w \<Rightarrow> goerr option \<times> 'w"

fun applyMkdirSpecs :: "'w mount_env \<Rightarrow> mkdirSpec list \<Rightarrow> 'w \<Rightarrow> goerr option \<times> 'w" where
  "applyMkdirSpecs env [] w = (None, w)"
| "applyMkdirSpecs env (spec # specs) w =
     (case me_mkdirAll env (mk_Path spec) (mk_Mode spec) w of
        (Some err, w1) \<Rightarrow> (Some err, w1)
      | (None, w1) \<Rightarrow>
          if mk_UID spec \<noteq> - 1 \<or> mk_GID spec \<noteq> - 1
          then
            (case me_chown env (mk_Path spec) (mk_UID spec) (mk_GID spec) w1 of
               (Some err, w2) \<Rightarrow> (Some (WrapErr (''failed to chown '' @ mk_Path spec) err), w2)
             | (None, w2) \<Rightarrow> applyMkdirSpecs env specs w2)
          else applyMkdirSpecs env specs w1)"

section \<open>Templates\<close>

text \<open>\<^verbatim>\<open>\s\<close> of Go's regular expressions.\<close>

definition reSpace :: "char \<Rightarrow> bool" where
  "reSpace c \<longleftrightarrow> of_char c \<in> {9, 10, 12, 13, 32 :: nat}"

text \<open>One or more blanks and a number; and blanks and the closing braces.\<close>

definition matchIndex :: "string \<Rightarrow> (string \<times> string) option" where
  "matchIndex s =
     (let r = dropWhile reSpace s; ds = takeWhile isDigit r
      in if r = s \<or> ds = [] then None else Some (ds, dropWhile isDigit r))"

definition matchClose :: "string \<Rightarrow> string option" where
  "matchClose s = cutPrefix (dropWhile reSpace s) ''}}''"

definition matchOpen :: "string \<Rightarrow> string \<Rightarrow> string option" where
  "matchOpen kw s =
     (case cutPrefix s ''{{'' of None \<Rightarrow> None | Some r \<Rightarrow> cutPrefix (dropWhile reSpace r) kw)"

text \<open>\<^verbatim>\<open>\{\{\s*kw\s+(\d+)\s*\}\}\<close> at the beginning of a string, with the rest after the match.\<close>

definition matchSimple :: "string \<Rightarrow> string \<Rightarrow> (string \<times> string) option" where
  "matchSimple kw s =
     (case matchOpen kw s of
        None \<Rightarrow> None
      | Some r \<Rightarrow>
          (case matchIndex r of
             None \<Rightarrow> None
           | Some (ds, r2) \<Rightarrow> map_option (Pair ds) (matchClose r2)))"

definition matchOverlay :: "string \<Rightarrow> ((string \<times> string) \<times> string) option" where
  "matchOverlay s =
     (case matchOpen ''overlay'' s of
        None \<Rightarrow> None
      | Some r \<Rightarrow>
          (case matchIndex r of
             None \<Rightarrow> None
           | Some (ds, r2) \<Rightarrow>
               (case matchIndex r2 of
                  None \<Rightarrow> None
                | Some (es, r3) \<Rightarrow> map_option (Pair (ds, es)) (matchClose r3))))"

text \<open>\<open>ReplaceAllStringFunc\<close>: the matches from left to right; the number counts the
  characters of a match still to be passed over. The first error ends it, since its callers then
  drop the string.\<close>

fun replaceAll ::
  "(string \<Rightarrow> ('m \<times> string) option) \<Rightarrow> ('m \<Rightarrow> goerr + string) \<Rightarrow> nat \<Rightarrow> string \<Rightarrow> goerr + string" where
  "replaceAll m f n [] = Inr []"
| "replaceAll m f (Suc k) (c # s) = replaceAll m f k s"
| "replaceAll m f 0 (c # s) =
     (case m (c # s) of
        None \<Rightarrow> map_sum id (Cons c) (replaceAll m f 0 s)
      | Some (x, rest) \<Rightarrow>
          (case f x of
             Inl err \<Rightarrow> Inl err
           | Inr t \<Rightarrow> map_sum id ((@) t) (replaceAll m f (length s - length rest) s)))"

definition parseIndex :: "string \<Rightarrow> nat \<Rightarrow> goerr + nat" where
  "parseIndex indexStr maxLen =
     (case atoi indexStr of
        None \<Rightarrow> Inl (Errorf (''invalid index '' @ indexStr))
      | Some i \<Rightarrow>
          if i < 0 \<or> i \<ge> int maxLen then Inl (Errorf (''index out of bounds: '' @ itoa i))
          else Inr (nat i))"

definition replaceSimplePattern ::
  "string \<Rightarrow> string \<Rightarrow> ActiveMount list \<Rightarrow> (ActiveMount \<Rightarrow> string) \<Rightarrow> goerr + string" where
  "replaceSimplePattern s kw mounts getter =
     replaceAll (matchSimple kw) (\<lambda>ds. map_sum id (\<lambda>i. getter (mounts ! i)) (parseIndex ds (length mounts))) 0 s"

text \<open>The indices come from digits, so they are not negative.\<close>

definition buildOverlayDirs :: "int \<Rightarrow> int \<Rightarrow> ActiveMount list \<Rightarrow> goerr + string" where
  "buildOverlayDirs start end mounts =
     (let dirs = (\<lambda>is. joinWith '':'' (map (\<lambda>i. am_MountPoint (mounts ! nat i)) is));
          invalid = Inl (Errorf (''invalid range: '' @ itoa start @ ''-'' @ itoa end))
      in if start > end
         then if start \<ge> int (length mounts) \<or> end < 0 then invalid else Inr (dirs (rev [end..start]))
         else if start < 0 \<or> end \<ge> int (length mounts) then invalid else Inr (dirs [start..end]))"

definition replaceOverlayPattern :: "string \<Rightarrow> ActiveMount list \<Rightarrow> goerr + string" where
  "replaceOverlayPattern s mounts =
     replaceAll matchOverlay
       (\<lambda>(ds, es).
          case atoi ds of
            None \<Rightarrow> Inl (Errorf ''invalid start index in overlay'')
          | Some start \<Rightarrow>
              (case atoi es of
                 None \<Rightarrow> Inl (Errorf ''invalid end index in overlay'')
               | Some end \<Rightarrow> buildOverlayDirs start end mounts)) 0 s"

text \<open>\<open>formatString\<close> and the call of the function it returns.\<close>

definition substTemplates :: "string \<Rightarrow> ActiveMount list \<Rightarrow> goerr + string" where
  "substTemplates s a =
     (case replaceSimplePattern s ''source'' a am_Source of
        Inl err \<Rightarrow> Inl (WrapErr ''source pattern'' err)
      | Inr r1 \<Rightarrow>
          (case replaceSimplePattern r1 ''target'' a am_Target of
             Inl err \<Rightarrow> Inl (WrapErr ''target pattern'' err)
           | Inr r2 \<Rightarrow>
               (case replaceSimplePattern r2 ''mount'' a am_MountPoint of
                  Inl err \<Rightarrow> Inl (WrapErr ''mount pattern'' err)
                | Inr r3 \<Rightarrow>
                    (case replaceOverlayPattern r3 a of
                       Inl err \<Rightarrow> Inl (WrapErr ''overlay pattern'' err)
                     | Inr r4 \<Rightarrow>
                         if strContains r4 ''{{'' then Inl (Errorf (''unsupported format pattern in '' @ s))
                         else Inr r4))))"

definition formatString :: "string \<Rightarrow> ActiveMount list \<Rightarrow> goerr + string" where
  "formatString s a = (if \<not> strContains s ''{{'' then Inr s else substTemplates s a)"

fun formatOptions :: "string list \<Rightarrow> ActiveMount list \<Rightarrow> goerr + string list" where
  "formatOptions [] active = Inr []"
| "formatOptions (opt # opts) active =
     (case formatString opt active of
        Inl err \<Rightarrow> Inl (WrapErr (''formatting mount option '' @ opt) err)
      | Inr s \<Rightarrow> map_sum id (Cons s) (formatOptions opts active))"

definition applyFormatSubstitution :: "Mount \<Rightarrow> ActiveMount list \<Rightarrow> goerr + Mount" where
  "applyFormatSubstitution m active =
     (case formatOptions (mnt_Options m) active of
        Inl err \<Rightarrow> Inl err
      | Inr opts \<Rightarrow>
          (case formatString (mnt_Source m) active of
             Inl err \<Rightarrow> Inl (WrapErr (''formatting mount source '' @ mnt_Source m) err)
           | Inr src \<Rightarrow>
               (case formatString (mnt_Target m) active of
                  Inl err \<Rightarrow> Inl (WrapErr (''formatting mount target '' @ mnt_Target m) err)
                | Inr tgt \<Rightarrow> Inr (m\<lparr>mnt_Options := opts, mnt_Source := src, mnt_Target := tgt\<rparr>))))"

section \<open>Mounting\<close>

text \<open>The list is unmounted from its end; the error is that of the last call that failed.\<close>

fun unmountList :: "'w mount_env \<Rightarrow> ActiveMount list \<Rightarrow> goerr option \<Rightarrow> 'w \<Rightarrow> goerr option \<times> 'w" where
  "unmountList env [] lastErr w = (lastErr, w)"
| "unmountList env (a # as) lastErr w =
     (if am_Type a = ''mkdir'' then unmountList env as lastErr w
      else
        (case me_unmountAll env (am_MountPoint a) w of
           (Some err, w1) \<Rightarrow> unmountList env as (Some err) w1
         | (None, w1) \<Rightarrow> unmountList env as lastErr w1))"

definition cleanupMounts :: "'w mount_env \<Rightarrow> ActiveMount list \<Rightarrow> 'w \<Rightarrow> goerr option \<times> 'w" where
  "cleanupMounts env active w = unmountList env (rev active) None w"

text \<open>What happens to a mount before the system call: the \<^verbatim>\<open>format/\<close> and \<^verbatim>\<open>mkdir/\<close> prefixes of its type.\<close>

definition prepareMount ::
  "'w mount_env \<Rightarrow> string \<Rightarrow> ActiveMount list \<Rightarrow> Mount \<Rightarrow> 'w \<Rightarrow> (goerr + Mount) \<times> 'w" where
  "prepareMount env mdir active m w =
     (case (case cutPrefix (mnt_Type m) ''format/'' of
              None \<Rightarrow> Inr m
            | Some t \<Rightarrow> applyFormatSubstitution (m\<lparr>mnt_Type := t\<rparr>) active) of
        Inl err \<Rightarrow> (Inl err, w)
      | Inr m1 \<Rightarrow>
          (case cutPrefix (mnt_Type m1) ''mkdir/'' of
             None \<Rightarrow> (Inr m1, w)
           | Some t \<Rightarrow>
               (case processMkdirOptions (mnt_Options m1) mdir of
                  Inl err \<Rightarrow> (Inl err, w)
                | Inr (remaining, specs) \<Rightarrow>
                    (case applyMkdirSpecs env specs w of
                       (Some err, w1) \<Rightarrow> (Inl err, w1)
                     | (None, w1) \<Rightarrow> (Inr (m1\<lparr>mnt_Type := t, mnt_Options := remaining\<rparr>), w1)))))"

definition activeOf :: "Mount \<Rightarrow> string \<Rightarrow> ActiveMount" where
  "activeOf m target =
     \<lparr>am_Type = mnt_Type m, am_Source = mnt_Source m, am_Target = mnt_Target m, am_Options = mnt_Options m,
      am_MountPoint = target\<rparr>"

text \<open>The loop over the mounts; all but the last go to a numbered directory.\<close>

fun mountLoop ::
  "'w mount_env \<Rightarrow> string \<Rightarrow> string \<Rightarrow> nat \<Rightarrow> Mount list \<Rightarrow> ActiveMount list \<Rightarrow> 'w
     \<Rightarrow> (goerr + ActiveMount list) \<times> 'w" where
  "mountLoop env rootfs mdir i [] active w = (Inr active, w)"
| "mountLoop env rootfs mdir i (m # ms) active w =
     (let target = (if ms \<noteq> [] then pathJoin [mdir, natStr i] else rootfs);
          fail = (\<lambda>err w. (Inl err, snd (cleanupMounts env active w)))
      in case (if ms \<noteq> [] then me_mkdirAll env target 488 w else (None, w)) of
           (Some err, w1) \<Rightarrow> fail err w1
         | (None, w1) \<Rightarrow>
             (case prepareMount env mdir active m w1 of
                (Inl err, w2) \<Rightarrow> fail err w2
              | (Inr m', w2) \<Rightarrow>
                  (case me_mount env (activeOf m' target) w2 of
                     (Some err, w3) \<Rightarrow> fail err w3
                   | (None, w3) \<Rightarrow>
                       mountLoop env rootfs mdir (Suc i) ms (active @ [activeOf m' target]) w3)))"

text \<open>The mounts to undo stand for the clean-up function, which is \<open>cleanupMounts\<close> on them; without
  mounts there is none.\<close>

definition mountAll ::
  "'w mount_env \<Rightarrow> string \<Rightarrow> string \<Rightarrow> Mount list \<Rightarrow> 'w \<Rightarrow> (goerr + ActiveMount list option) \<times> 'w" where
  "mountAll env rootfs mdir mounts w =
     (if mounts = [] then (Inr None, w)
      else
        (case mountLoop env rootfs mdir 0 mounts [] w of
           (Inl err, w1) \<Rightarrow> (Inl err, w1)
         | (Inr active, w1) \<Rightarrow> (Inr (Some active), w1)))"

section \<open>Lemmas\<close>

subsection \<open>Substitution\<close>

lemma replaceAll_skip: "n \<le> length s \<Longrightarrow> replaceAll m f n s = replaceAll m f 0 (drop n s)"
proof (induction m f n s rule: replaceAll.induct)
  case (1 m f n)
  then show ?case by simp
next
  case (2 m f k c s)
  then show ?case by simp
next
  case (3 m f c s)
  then show ?case by simp
qed

text \<open>A matcher of templates matches only at an opening brace.\<close>

definition braceMatcher :: "(string \<Rightarrow> ('m \<times> string) option) \<Rightarrow> bool" where
  "braceMatcher m \<longleftrightarrow> (\<forall>c s. c \<noteq> CHR ''{'' \<longrightarrow> m (c # s) = None)"

lemma cutPrefix_brace: "c \<noteq> CHR ''{'' \<Longrightarrow> cutPrefix (c # s) ''{{'' = None"
  by (simp add: cutPrefix_def hasPrefix_def)

lemma brace_matchers: "braceMatcher (matchSimple kw)" "braceMatcher matchOverlay"
  by (simp_all add: braceMatcher_def matchSimple_def matchOverlay_def matchOpen_def cutPrefix_brace)

lemma replaceAll_prefix:
  assumes "braceMatcher m" "CHR ''{'' \<notin> set p"
  shows "replaceAll m f 0 (p @ s) = map_sum id ((@) p) (replaceAll m f 0 s)"
  using assms(2)
proof (induction p)
  case Nil
  show ?case by (cases "replaceAll m f 0 s") simp_all
next
  case (Cons c p)
  then have "c \<noteq> CHR ''{''" by auto
  then have "m (c # p @ s) = None" using assms(1) unfolding braceMatcher_def by blast
  with Cons show ?case by (cases "replaceAll m f 0 s") simp_all
qed

lemma replaceAll_plain: "braceMatcher m \<Longrightarrow> CHR ''{'' \<notin> set p \<Longrightarrow> replaceAll m f 0 p = Inr p"
  using replaceAll_prefix [of m p f "[]"] by simp

text \<open>A string with one template, that the matcher takes, or does not.\<close>

lemma replaceAll_hit:
  assumes "braceMatcher m" "CHR ''{'' \<notin> set p" "CHR ''{'' \<notin> set q" "m (c # t @ q) = Some (x, q)" "f x = Inr y"
  shows "replaceAll m f 0 (p @ (c # t) @ q) = Inr (p @ y @ q)"
proof -
  have "replaceAll m f (length (t @ q) - length q) (t @ q) = replaceAll m f 0 q"
    by (subst replaceAll_skip) simp_all
  then have "replaceAll m f 0 ((c # t) @ q) = Inr (y @ q)"
    using assms(4,5) replaceAll_plain [OF assms(1,3)] by simp
  then show ?thesis using replaceAll_prefix [OF assms(1,2), of f "(c # t) @ q"] by simp
qed

lemma replaceAll_miss:
  assumes "braceMatcher m" "CHR ''{'' \<notin> set p" "CHR ''{'' \<notin> set q" "m (''{{'' @ q) = None" "m (''{'' @ q) = None"
  shows "replaceAll m f 0 (p @ ''{{'' @ q) = Inr (p @ ''{{'' @ q)"
proof -
  have "replaceAll m f 0 (''{{'' @ q) = Inr (''{{'' @ q)"
    using assms(4,5) replaceAll_plain [OF assms(1,3)] by simp
  then show ?thesis using replaceAll_prefix [OF assms(1,2), of f "''{{'' @ q"] by simp
qed

lemma natStr_char: "c \<in> set (natStr n) \<Longrightarrow> isDigit c"
  using natStr_digits [of n] by (simp add: list_all_iff)

lemma natStr_no_char:
  "CHR ''{'' \<notin> set (natStr n)" "CHR ''/'' \<notin> set (natStr n)" "CHR '':'' \<notin> set (natStr n)"
  using natStr_char [of "CHR ''{''" n] natStr_char [of "CHR ''/''" n] natStr_char [of "CHR '':''" n]
  by (auto simp: isDigit_def)

lemma digits_split:
  assumes "\<not> isDigit c"
  shows "takeWhile isDigit (natStr n @ c # s) = natStr n" "dropWhile isDigit (natStr n @ c # s) = c # s"
  using assms natStr_digits [of n] by (simp_all add: takeWhile_append dropWhile_append list_all_iff)

lemma digits_not_blank: "dropWhile reSpace (natStr n @ s) = natStr n @ s"
proof -
  have "natStr n \<noteq> []" "isDigit (hd (natStr n))"
    using natStr_digits [of n] by (auto simp: list_all_iff)
  then show ?thesis
    by (cases "natStr n") (auto simp: reSpace_def isDigit_def)
qed

lemma reSpace_eval [simp]: "reSpace (CHR '' '')" "\<not> isDigit (CHR '' '')" "\<not> reSpace (CHR ''}'')"
  by (simp_all add: reSpace_def isDigit_def)

lemma matchIndex_tmpl: "matchIndex ('' '' @ natStr k @ '' '' @ s) = Some (natStr k, '' '' @ s)"
  using digits_split [of "CHR '' ''" k s] digits_not_blank [of k "'' '' @ s"] natStr_digits [of k]
  by (auto simp: matchIndex_def Let_def list_all_iff)

lemma matchClose_tmpl: "matchClose ('' }}'' @ s) = Some s"
  by (simp add: matchClose_def cutPrefix_def hasPrefix_def)

lemma reSpace_letters [simp]:
  "\<not> reSpace (CHR ''m'')" "\<not> reSpace (CHR ''o'')" "\<not> reSpace (CHR ''s'')" "\<not> reSpace (CHR ''t'')"
  by (simp_all add: reSpace_def)

abbreviation mountTmpl :: "nat \<Rightarrow> string" where
  "mountTmpl k \<equiv> ''{{ mount '' @ natStr k @ '' }}''"

abbreviation overlayTmpl :: "nat \<Rightarrow> nat \<Rightarrow> string" where
  "overlayTmpl i k \<equiv> ''{{ overlay '' @ natStr i @ '' '' @ natStr k @ '' }}''"

lemma match_mountTmpl: "matchSimple ''mount'' (mountTmpl k @ q) = Some (natStr k, q)"
proof -
  have "matchOpen ''mount'' (mountTmpl k @ q) = Some ('' '' @ natStr k @ '' '' @ ''}}'' @ q)"
    by (simp add: matchOpen_def cutPrefix_def hasPrefix_def)
  then show ?thesis
    using matchIndex_tmpl [of k "''}}'' @ q"] matchClose_tmpl [of q] by (simp add: matchSimple_def)
qed

lemma match_overlayTmpl: "matchOverlay (overlayTmpl i k @ q) = Some ((natStr i, natStr k), q)"
proof -
  have "matchOpen ''overlay'' (overlayTmpl i k @ q) = Some ('' '' @ natStr i @ '' '' @ natStr k @ '' '' @ ''}}'' @ q)"
    by (simp add: matchOpen_def cutPrefix_def hasPrefix_def)
  then show ?thesis
    using matchIndex_tmpl [of i "natStr k @ '' '' @ ''}}'' @ q"] matchIndex_tmpl [of k "''}}'' @ q"] matchClose_tmpl [of q]
    by (simp add: matchOverlay_def)
qed

lemma match_other:
  "matchSimple ''source'' (''{{ mount '' @ s) = None" "matchSimple ''target'' (''{{ mount '' @ s) = None"
  "matchSimple ''source'' (''{{ overlay '' @ s) = None" "matchSimple ''target'' (''{{ overlay '' @ s) = None"
  "matchSimple ''mount'' (''{{ overlay '' @ s) = None" "matchSimple kw (''{ '' @ s) = None" "matchOverlay (''{ '' @ s) = None"
  by (simp_all add: matchSimple_def matchOverlay_def matchOpen_def cutPrefix_def hasPrefix_def)

text \<open>One template in a string is replaced by what it stands for.\<close>

lemma parseIndex_natStr: "k < n \<Longrightarrow> in64 (int k) \<Longrightarrow> parseIndex (natStr k) n = Inr k"
  using atoi_itoa [of "int k"] by (simp add: parseIndex_def itoa_def)

lemma no_double_brace: "CHR ''{'' \<notin> set s \<Longrightarrow> \<not> strContains s ''{{''"
  by (auto simp: strContains_iff)

lemma subst_mount:
  assumes "CHR ''{'' \<notin> set p" "CHR ''{'' \<notin> set q" "CHR ''{'' \<notin> set (am_MountPoint (a ! k))"
    and k: "k < length a" "in64 (int k)"
  shows "formatString (p @ mountTmpl k @ q) a = Inr (p @ am_MountPoint (a ! k) @ q)"
proof -
  let ?q = "'' mount '' @ natStr k @ '' }}'' @ q" and ?r = "p @ am_MountPoint (a ! k) @ q"
  have q: "CHR ''{'' \<notin> set ?q" using assms(2) natStr_no_char by simp
  have miss: "replaceAll (matchSimple kw) f 0 (p @ ''{{'' @ ?q) = Inr (p @ ''{{'' @ ?q)"
    if "kw = ''source'' \<or> kw = ''target''" for kw f
    using that assms(1) q match_other
    by (intro replaceAll_miss) (auto simp: brace_matchers)
  have "replaceAll (matchSimple ''mount'') (\<lambda>ds. map_sum id (\<lambda>i. am_MountPoint (a ! i)) (parseIndex ds (length a))) 0
      (p @ (CHR ''{'' # ''{ mount '' @ natStr k @ '' }}'') @ q) = Inr ?r"
    by (rule replaceAll_hit [where x = "natStr k"])
      (use assms match_mountTmpl [of k q] in \<open>simp_all add: brace_matchers parseIndex_natStr\<close>)
  then have hit: "replaceSimplePattern (p @ mountTmpl k @ q) ''mount'' a am_MountPoint = Inr ?r"
    by (simp add: replaceSimplePattern_def)
  have r: "CHR ''{'' \<notin> set ?r" using assms by simp
  have "replaceOverlayPattern ?r a = Inr ?r"
    unfolding replaceOverlayPattern_def by (rule replaceAll_plain [OF brace_matchers(2) r])
  moreover have "strContains (p @ mountTmpl k @ q) ''{{''" unfolding strContains_iff
    by (intro exI [of _ p] exI [of _ ?q]) simp
  ultimately show ?thesis
    using miss hit no_double_brace [OF r] by (simp add: formatString_def substTemplates_def replaceSimplePattern_def)
qed

lemma upto_mounts: "k < length a \<Longrightarrow> map (\<lambda>i. g (a ! nat i)) [0..int k] = map g (take (Suc k) a)"
proof (rule nth_equalityI)
  assume k: "k < length a"
  then show "length (map (\<lambda>i. g (a ! nat i)) [0..int k]) = length (map g (take (Suc k) a))" by simp
  fix i assume "i < length (map (\<lambda>i. g (a ! nat i)) [0..int k])"
  then have "i \<le> k" by simp
  then show "map (\<lambda>i. g (a ! nat i)) [0..int k] ! i = map g (take (Suc k) a) ! i"
    using k nth_upto [of 0 i "int k"] by simp
qed

lemma subst_overlay:
  assumes "CHR ''{'' \<notin> set p" "CHR ''{'' \<notin> set q" "\<forall>x \<in> set a. CHR ''{'' \<notin> set (am_MountPoint x)"
    and k: "k < length a" "in64 (int k)"
  shows "formatString (p @ overlayTmpl 0 k @ q) a = Inr (p @ joinWith '':'' (map am_MountPoint (take (Suc k) a)) @ q)"
proof -
  let ?q = "'' overlay '' @ natStr 0 @ '' '' @ natStr k @ '' }}'' @ q"
  let ?d = "joinWith '':'' (map am_MountPoint (take (Suc k) a))" and ?r = "p @ joinWith '':'' (map am_MountPoint (take (Suc k) a)) @ q"
  have q: "CHR ''{'' \<notin> set ?q" using assms(2) natStr_no_char by simp
  have miss: "replaceAll (matchSimple kw) f 0 (p @ ''{{'' @ ?q) = Inr (p @ ''{{'' @ ?q)"
    if "kw = ''source'' \<or> kw = ''target'' \<or> kw = ''mount''" for kw f
    using that assms(1) q match_other
    by (intro replaceAll_miss) (auto simp: brace_matchers)
  have at: "atoi (natStr 0) = Some 0" "atoi (natStr k) = Some (int k)"
    using atoi_itoa [of 0] atoi_itoa [of "int k"] k(2) by (simp_all add: itoa_def in64_def minInt64_def maxInt64_def)
  have "buildOverlayDirs 0 (int k) a = Inr ?d"
    using k upto_mounts [OF k(1), of am_MountPoint] by (simp add: buildOverlayDirs_def Let_def)
  then have hit: "replaceOverlayPattern (p @ overlayTmpl 0 k @ q) a = Inr ?r"
    unfolding replaceOverlayPattern_def
    using replaceAll_hit [OF brace_matchers(2) assms(1,2), of "CHR ''{''" "''{ overlay '' @ natStr 0 @ '' '' @ natStr k @ '' }}''"
        "(natStr 0, natStr k)"] match_overlayTmpl [of 0 k q] at by simp
  have "CHR ''{'' \<notin> set (joinWith '':'' xs)" if "\<forall>x \<in> set xs. CHR ''{'' \<notin> set x" for xs
    using that by (induction "'':'' :: string" xs rule: joinWith.induct) simp_all
  moreover have "\<forall>x \<in> set (map am_MountPoint (take (Suc k) a)). CHR ''{'' \<notin> set x"
    using assms(3) by (auto dest: in_set_takeD)
  ultimately have "CHR ''{'' \<notin> set ?d" by blast
  then have r: "CHR ''{'' \<notin> set ?r" using assms(1,2) by simp
  have "strContains (p @ overlayTmpl 0 k @ q) ''{{''" unfolding strContains_iff
    by (intro exI [of _ p] exI [of _ ?q]) simp
  moreover have "replaceSimplePattern (p @ overlayTmpl 0 k @ q) kw a g = Inr (p @ overlayTmpl 0 k @ q)"
    if "kw = ''source'' \<or> kw = ''target'' \<or> kw = ''mount''" for kw g
    using miss [OF that] by (simp add: replaceSimplePattern_def)
  ultimately show ?thesis
    using hit no_double_brace [OF r] unfolding formatString_def substTemplates_def by (simp only: sum.case if_False simp_thms)
qed

subsection \<open>What is mounted\<close>

text \<open>The environment that records in its world the directories made, the mounts performed and the
  mount points whose unmounting was asked for.\<close>

datatype mountEvent = MadeDir string | Mounted ActiveMount | Unmounted string

definition loggedMounts :: "'w mount_env \<Rightarrow> ('w \<times> mountEvent list) mount_env" where
  "loggedMounts env =
     \<lparr>me_mkdirAll = \<lambda>p m (w, l). (case me_mkdirAll env p m w of
        (Some e, w') \<Rightarrow> (Some e, w', l) | (None, w') \<Rightarrow> (None, w', l @ [MadeDir p])),
      me_chown = \<lambda>p u g (w, l). (case me_chown env p u g w of (r, w') \<Rightarrow> (r, w', l)),
      me_mount = \<lambda>a (w, l). (case me_mount env a w of
        (Some e, w') \<Rightarrow> (Some e, w', l) | (None, w') \<Rightarrow> (None, w', l @ [Mounted a])),
      me_unmountAll = \<lambda>p (w, l). (case me_unmountAll env p w of (r, w') \<Rightarrow> (r, w', l @ [Unmounted p]))\<rparr>"

definition mountEvents :: "mountEvent list \<Rightarrow> mountEvent list" where
  "mountEvents l = filter (\<lambda>e. case e of MadeDir p \<Rightarrow> False | _ \<Rightarrow> True) l"

lemma mountEvents_simps [simp]:
  "mountEvents [] = []" "mountEvents (a @ b) = mountEvents a @ mountEvents b"
  "mountEvents [MadeDir p] = []" "mountEvents [Mounted m] = [Mounted m]" "mountEvents [Unmounted p] = [Unmounted p]"
  by (simp_all add: mountEvents_def)

abbreviation undone :: "ActiveMount list \<Rightarrow> mountEvent list" where
  "undone as \<equiv> map (\<lambda>a. Unmounted (am_MountPoint a)) (rev (filter (\<lambda>a. am_Type a \<noteq> ''mkdir'') as))"

lemma unmountList_log:
  "snd (snd (unmountList (loggedMounts env) as e wl)) =
     snd wl @ map (\<lambda>a. Unmounted (am_MountPoint a)) (filter (\<lambda>a. am_Type a \<noteq> ''mkdir'') as)"
proof (induction as arbitrary: e wl)
  case Nil
  show ?case by simp
next
  case (Cons a as)
  obtain r w' where u: "me_unmountAll env (am_MountPoint a) (fst wl) = (r, w')" by (metis surj_pair)
  then have "me_unmountAll (loggedMounts env) (am_MountPoint a) wl = (r, w', snd wl @ [Unmounted (am_MountPoint a)])"
    by (cases wl) (simp add: loggedMounts_def)
  then show ?case using Cons.IH by (cases r) simp_all
qed

lemma cleanupMounts_log: "snd (snd (cleanupMounts (loggedMounts env) as wl)) = snd wl @ undone as"
  by (simp add: cleanupMounts_def unmountList_log rev_filter rev_map)

lemma logged_step:
  shows "me_mkdirAll (loggedMounts env) p md wl = (r, wl') \<Longrightarrow> mountEvents (snd wl') = mountEvents (snd wl)"
    and "me_chown (loggedMounts env) p u g wl = (r, wl') \<Longrightarrow> snd wl' = snd wl"
    and "me_mount (loggedMounts env) a wl = (r, wl') \<Longrightarrow>
      snd wl' = (case r of None \<Rightarrow> snd wl @ [Mounted a] | Some e \<Rightarrow> snd wl)"
  by (auto simp: loggedMounts_def split: prod.splits option.splits)

lemma applyMkdirSpecs_log:
  "applyMkdirSpecs (loggedMounts env) specs wl = (r, wl') \<Longrightarrow> mountEvents (snd wl') = mountEvents (snd wl)"
proof (induction specs arbitrary: wl)
  case Nil
  then show ?case by simp
next
  case (Cons spec specs)
  obtain r1 wl1 where m: "me_mkdirAll (loggedMounts env) (mk_Path spec) (mk_Mode spec) wl = (r1, wl1)" by (metis surj_pair)
  obtain r2 wl2 where c: "me_chown (loggedMounts env) (mk_Path spec) (mk_UID spec) (mk_GID spec) wl1 = (r2, wl2)" by (metis surj_pair)
  show ?case
    using Cons m c logged_step(1) [OF m] logged_step(2) [OF c] by (cases r1; cases r2) (auto split: if_splits)
qed

lemma prepareMount_log:
  assumes "prepareMount (loggedMounts env) mdir active m wl = (r, wl')"
  shows "mountEvents (snd wl') = mountEvents (snd wl)"
  using assms unfolding prepareMount_def
  by (auto split: sum.splits option.splits prod.splits dest: applyMkdirSpecs_log)

lemma mountLoop_log:
  assumes "mountLoop (loggedMounts env) rootfs mdir i ms active wl = (r, wl')" "mountEvents (snd wl) = map Mounted active"
  shows "case r of Inr as \<Rightarrow> mountEvents (snd wl') = map Mounted as \<and> length as = length active + length ms
    | Inl e \<Rightarrow> \<exists>as. mountEvents (snd wl') = map Mounted as @ undone as \<and> length as < length active + length ms"
  using assms
proof (induction ms arbitrary: i active wl)
  case Nil
  then show ?case by auto
next
  case (Cons m ms)
  let ?env = "loggedMounts env" and ?t = "if ms \<noteq> [] then pathJoin [mdir, natStr i] else rootfs"
  have fail: ?case if "(r, wl') = (Inl e, snd (cleanupMounts ?env active v))" "mountEvents (snd v) = map Mounted active" for e v
    using that cleanupMounts_log [of env active v]
    by (auto simp: mountEvents_def comp_def intro!: exI [of _ active])
  obtain r1 w1 where d: "(if ms \<noteq> [] then me_mkdirAll ?env ?t 488 wl else (None, wl)) = (r1, w1)" by (metis surj_pair)
  have e1: "mountEvents (snd w1) = map Mounted active"
    using d Cons.prems(2) logged_step(1) [of env ?t 488 wl r1 w1] by (auto split: if_splits)
  obtain r2 w2 where p: "prepareMount ?env mdir active m w1 = (r2, w2)" by (metis surj_pair)
  have e2: "mountEvents (snd w2) = map Mounted active" using prepareMount_log [OF p] e1 by simp
  show ?case
  proof (cases r1)
    case (Some e)
    with Cons.prems(1) d e1 show ?thesis by (intro fail [of e w1]) (simp_all add: Let_def)
  next
    case r1: None
    show ?thesis
    proof (cases r2)
      case (Inl e)
      with Cons.prems(1) d p r1 e2 show ?thesis by (intro fail [of e w2]) (simp_all add: Let_def)
    next
      case (Inr m')
      obtain r3 w3 where mt: "me_mount ?env (activeOf m' ?t) w2 = (r3, w3)" by (metis surj_pair)
      note e3 = logged_step(3) [OF mt]
      show ?thesis
      proof (cases r3)
        case (Some e)
        with Cons.prems(1) d p r1 Inr mt e2 e3 show ?thesis by (intro fail [of e w3]) (simp_all add: Let_def)
      next
        case None
        have "mountLoop ?env rootfs mdir (Suc i) ms (active @ [activeOf m' ?t]) w3 = (r, wl')"
          using Cons.prems(1) d p r1 Inr mt None by (simp add: Let_def)
        moreover have "mountEvents (snd w3) = map Mounted (active @ [activeOf m' ?t])"
          using e2 e3 None by simp
        ultimately show ?thesis using Cons.IH [of "Suc i" "active @ [activeOf m' ?t]" w3] by (cases r) simp_all
      qed
    qed
  qed
qed

text \<open>C36. Mounting the root file system is all or nothing: when every mount succeeds, the clean-up
  function unmounts exactly what was mounted, in reverse order; when a step fails, the mounts performed so
  far are unmounted in reverse order before the error is returned.\<close>

theorem mounts_all_or_nothing:
  "case mountAll (loggedMounts env) rootfs mdir ms (w, []) of
     (Inr None, w', l) \<Rightarrow> ms = [] \<and> l = []
   | (Inr (Some as), w', l) \<Rightarrow> mountEvents l = map Mounted as \<and> length as = length ms
       \<and> snd (snd (cleanupMounts (loggedMounts env) as (v, []))) = undone as
   | (Inl e, w', l) \<Rightarrow> \<exists>as. mountEvents l = map Mounted as @ undone as \<and> length as < length ms"
proof (cases "ms = []")
  case True
  then show ?thesis by (simp add: mountAll_def)
next
  case False
  obtain r wl where m: "mountLoop (loggedMounts env) rootfs mdir 0 ms [] (w, []) = (r, wl)" by (metis surj_pair)
  have "mountEvents (snd (w, [])) = map Mounted []" by simp
  from mountLoop_log [OF m this] show ?thesis
    using False m cleanupMounts_log [of env _ "(v, [])"]
    by (cases wl; cases r) (simp_all add: mountAll_def)
qed

end
