(* ===== verification/Rootfs_Mounts.thy ===== *)
theory Rootfs_Mounts
  imports Mount_Util Qemu_Instance
begin

text \<open>
  How the shim hands the root file system to the VM (\<^verbatim>\<open>internal/shim/platform/mounts/linux.go\<close>): the
  layers become disks of the VM, and the mounts for the guest refer to each other by templates, which
  the guest's mounting (theory \<open>Mount_Util\<close>) expands.

  A mount of the request whose options the code overwrites in place is not read again, so that the
  functions return new mounts only. The sizes of files are an argument.
\<close>

section \<open>Disks and mounts\<close>

definition truncateID :: "string \<Rightarrow> string \<Rightarrow> string" where
  "truncateID prefix i =
     (let tag = prefix @ ''-'' @ i in if length tag > 36 then take 36 tag else tag)"

record diskOptions =
  do_name :: string
  do_source :: string
  do_readOnly :: bool
  do_vmdk :: bool

definition filterOptions :: "string list \<Rightarrow> string list" where
  "filterOptions options = filter (\<lambda>o'. o' \<noteq> ''loop'') options"

text \<open>The name of the device of a disk letter. A letter beyond ASCII needs more disks than
  \<open>transformMounts\<close> accepts.\<close>

definition devicePath :: "8 word \<Rightarrow> string" where
  "devicePath disks = ''/dev/vd'' @ [char_of (unat disks)]"

definition diskName :: "8 word \<Rightarrow> string \<Rightarrow> string" where
  "diskName disks i = truncateID (''disk-'' @ natStr (unat disks)) i"

definition handleEROFS ::
  "(string \<Rightarrow> int option) \<Rightarrow> string \<Rightarrow> 8 word \<Rightarrow> Mount \<Rightarrow> Mount list \<times> diskOptions list \<times> 8 word" where
  "handleEROFS fileSize i disks mnt =
     (let (source, isVMDK) =
        (if hasSuffix (mnt_Source mnt) ''fsmeta.erofs''
         then
           (let vmdkPath = trimSuffix (mnt_Source mnt) ''fsmeta.erofs'' @ ''merged.vmdk''
            in case fileSize vmdkPath of
                 Some n \<Rightarrow> if n > 0 then (vmdkPath, True) else (mnt_Source mnt, False)
               | None \<Rightarrow> (mnt_Source mnt, False))
         else (mnt_Source mnt, hasSuffix (mnt_Source mnt) ''.vmdk''));
          guestOptions = filter (\<lambda>opt. \<not> hasPrefix opt ''device='') (mnt_Options mnt)
      in ([\<lparr>mnt_Type = ''erofs'', mnt_Source = devicePath disks, mnt_Target = mnt_Target mnt,
            mnt_Options = filterOptions guestOptions\<rparr>],
          [\<lparr>do_name = diskName disks i, do_source = source, do_readOnly = True, do_vmdk = isVMDK\<rparr>],
          disks + 1))"

definition handleExt4 ::
  "string \<Rightarrow> 8 word \<Rightarrow> Mount \<Rightarrow> Mount list \<times> diskOptions list \<times> 8 word" where
  "handleExt4 i disks mnt =
     (let readOnly = list_ex (\<lambda>opt. opt = ''ro'' \<or> opt = ''readonly'') (mnt_Options mnt)
      in ([\<lparr>mnt_Type = ''ext4'', mnt_Source = devicePath disks, mnt_Target = mnt_Target mnt,
            mnt_Options = filterOptions (mnt_Options mnt)\<rparr>],
          [\<lparr>do_name = diskName disks i, do_source = mnt_Source mnt, do_readOnly = readOnly, do_vmdk = False\<rparr>],
          disks + 1))"

section \<open>Overlays\<close>

record overlayAnalysis =
  oa_workdirIdx :: int
  oa_upperdirIdx :: int
  oa_hasLowerTmpl :: bool
  oa_needTransform :: bool
  oa_overlayEnd :: int

text \<open>\<open>FindStringSubmatch\<close>: the first match in a string.\<close>

fun findFirst :: "(string \<Rightarrow> ('m \<times> string) option) \<Rightarrow> string \<Rightarrow> 'm option" where
  "findFirst m [] = map_option fst (m [])"
| "findFirst m (c # s) = (case m (c # s) of Some (x, r) \<Rightarrow> Some x | None \<Rightarrow> findFirst m s)"

text \<open>\<open>Atoi\<close> of digits with the error ignored: a number out of range gives the largest.\<close>

definition atoiClamped :: "string \<Rightarrow> int" where
  "atoiClamped s = min maxInt64 (int (digitsVal s))"

definition analyzeOption :: "int \<Rightarrow> string \<Rightarrow> overlayAnalysis \<Rightarrow> overlayAnalysis" where
  "analyzeOption i opt r =
     (if hasPrefix opt ''upperdir='' then
        (let r1 = r\<lparr>oa_upperdirIdx := i\<rparr> in if strContains opt ''{{'' then r1 else r1\<lparr>oa_needTransform := True\<rparr>)
      else if hasPrefix opt ''workdir='' then
        (let r1 = r\<lparr>oa_workdirIdx := i\<rparr> in if strContains opt ''{{'' then r1 else r1\<lparr>oa_needTransform := True\<rparr>)
      else if hasPrefix opt ''lowerdir='' then
        (if strContains opt ''{{'' then
           (let r1 = r\<lparr>oa_hasLowerTmpl := True\<rparr>
            in case findFirst matchOverlay opt of
                 Some (a, b) \<Rightarrow> r1\<lparr>oa_overlayEnd := max (atoiClamped a) (atoiClamped b)\<rparr>
               | None \<Rightarrow> r1)
         else r)
      else r)"

fun analyzeFrom :: "int \<Rightarrow> string list \<Rightarrow> overlayAnalysis \<Rightarrow> overlayAnalysis" where
  "analyzeFrom i [] r = r"
| "analyzeFrom i (opt # opts) r = analyzeFrom (i + 1) opts (analyzeOption i opt r)"

definition analyzeOverlayOptions :: "string list \<Rightarrow> overlayAnalysis" where
  "analyzeOverlayOptions options =
     analyzeFrom 0 options
       \<lparr>oa_workdirIdx = - 1, oa_upperdirIdx = - 1, oa_hasLowerTmpl = False, oa_needTransform = False,
        oa_overlayEnd = - 1\<rparr>"

fun transformOptions :: "overlayAnalysis \<Rightarrow> string \<Rightarrow> int \<Rightarrow> string list \<Rightarrow> string list" where
  "transformOptions a tmpfs i [] = []"
| "transformOptions a tmpfs i (opt # opts) =
     (if i = oa_upperdirIdx a then ''upperdir={{ mount '' @ tmpfs @ '' }}/upper''
      else if i = oa_workdirIdx a then ''workdir={{ mount '' @ tmpfs @ '' }}/work''
      else opt) # transformOptions a tmpfs (i + 1) opts"

definition handleOverlay :: "Mount \<Rightarrow> Mount list" where
  "handleOverlay mnt =
     (let a = analyzeOverlayOptions (mnt_Options mnt)
      in if oa_hasLowerTmpl a \<and> oa_needTransform a \<and> oa_upperdirIdx a \<ge> 0 \<and> oa_workdirIdx a \<ge> 0
           \<and> oa_overlayEnd a \<ge> 0
         then
           (let tmpfs = itoa (wrap64 (oa_overlayEnd a + 1))
            in [\<lparr>mnt_Type = ''tmpfs'', mnt_Source = ''tmpfs'', mnt_Target = '''', mnt_Options = [''mode=0755'']\<rparr>,
                \<lparr>mnt_Type = ''format/mkdir/overlay'', mnt_Source = mnt_Source mnt, mnt_Target = mnt_Target mnt,
                 mnt_Options = transformOptions a tmpfs 0 (mnt_Options mnt) @
                   [''X-containerd.mkdir.path={{ mount '' @ tmpfs @ '' }}/upper'',
                    ''X-containerd.mkdir.path={{ mount '' @ tmpfs @ '' }}/work'']\<rparr>])
         else [mnt])"

section \<open>The transformation\<close>

definition transformMount ::
  "(string \<Rightarrow> int option) \<Rightarrow> string \<Rightarrow> 8 word \<Rightarrow> Mount \<Rightarrow> goerr + Mount list \<times> diskOptions list \<times> 8 word" where
  "transformMount fileSize i disks mnt =
     (let t = mnt_Type mnt
      in if t = ''erofs'' \<or> t = ''format/erofs'' then Inr (handleEROFS fileSize i disks mnt)
         else if t = ''ext4'' then Inr (handleExt4 i disks mnt)
         else if t = ''overlay'' \<or> t = ''format/overlay'' \<or> t = ''format/mkdir/overlay''
         then Inr (handleOverlay mnt, [], disks)
         else if hasPrefix t ''mkfs/'' \<or> hasPrefix t ''format/''
         then Inl (WrapErr (''mount type '' @ t @ '' requires mount manager'') ErrNotImplemented)
         else Inr ([mnt], [], disks))"

fun transformAll ::
  "(string \<Rightarrow> int option) \<Rightarrow> string \<Rightarrow> 8 word \<Rightarrow> Mount list \<Rightarrow> goerr + Mount list \<times> diskOptions list" where
  "transformAll fileSize i disks [] = Inr ([], [])"
| "transformAll fileSize i disks (mnt # ms) =
     (case transformMount fileSize i disks mnt of
        Inl err \<Rightarrow> Inl err
      | Inr (mounts, disksToAdd, disks') \<Rightarrow>
          (case transformAll fileSize i disks' ms of
             Inl err \<Rightarrow> Inl err
           | Inr (am, toAdd) \<Rightarrow> Inr (mounts @ am, disksToAdd @ toAdd)))"

fun addDisksToVM :: "'w qemu_os \<Rightarrow> diskOptions list \<Rightarrow> Instance \<Rightarrow> 'w \<Rightarrow> goerr option \<times> Instance" where
  "addDisksToVM os [] q w = (None, q)"
| "addDisksToVM os (d # ds) q w =
     (case AddDisk os (do_name d) (do_source d) (do_readOnly d) q w of
        (Some err, q1) \<Rightarrow> (Some err, q1)
      | (None, q1) \<Rightarrow> addDisksToVM os ds q1 w)"

text \<open>The number of EROFS mounts, and the last ext4 mount.\<close>

fun lastExt4 :: "int \<Rightarrow> Mount list \<Rightarrow> int \<Rightarrow> int" where
  "lastExt4 i [] r = r"
| "lastExt4 i (m # ms) r = lastExt4 (i + 1) ms (if mnt_Type m = ''ext4'' then i else r)"

definition erofsCount :: "Mount list \<Rightarrow> nat" where
  "erofsCount mounts = length (filter (\<lambda>m. mnt_Type m = ''erofs'') mounts)"

definition overlayOpts :: "nat \<Rightarrow> nat \<Rightarrow> string list" where
  "overlayOpts erofsEndIndex ext4Index =
     [''lowerdir={{ overlay 0 '' @ natStr erofsEndIndex @ '' }}'',
      ''upperdir={{ mount '' @ natStr ext4Index @ '' }}/upper'',
      ''workdir={{ mount '' @ natStr ext4Index @ '' }}/work'',
      ''X-containerd.mkdir.path={{ mount '' @ natStr ext4Index @ '' }}/upper'',
      ''X-containerd.mkdir.path={{ mount '' @ natStr ext4Index @ '' }}/work'']"

definition generateOverlayIfNeeded :: "Mount list \<Rightarrow> Mount list" where
  "generateOverlayIfNeeded mounts =
     (if length mounts < 2 then mounts
      else if list_ex (\<lambda>m. mnt_Type m = ''overlay'' \<or> strContains (mnt_Type m) ''overlay'') mounts then mounts
      else
        (let ext4Index = lastExt4 0 mounts (- 1)
         in if erofsCount mounts = 0 \<or> ext4Index \<noteq> int (length mounts) - 1 then mounts
            else mounts @
              [\<lparr>mnt_Type = ''format/mkdir/overlay'', mnt_Source = ''overlay'', mnt_Target = '''',
                mnt_Options = overlayOpts (erofsCount mounts - 1) (nat ext4Index)\<rparr>]))"

definition transformMounts ::
  "'w qemu_os \<Rightarrow> (string \<Rightarrow> int option) \<Rightarrow> string \<Rightarrow> Mount list \<Rightarrow> Instance \<Rightarrow> 'w
     \<Rightarrow> (goerr + Mount list) \<times> Instance" where
  "transformMounts os fileSize i ms q w =
     (case transformAll fileSize i 97 ms of
        Inl err \<Rightarrow> (Inl err, q)
      | Inr (am, toAdd) \<Rightarrow>
          if length toAdd > 10
          then (Inl (WrapErr ''exceeded maximum virtio disk count'' ErrNotImplemented), q)
          else
            (case addDisksToVM os toAdd q w of
               (Some err, q1) \<Rightarrow> (Inl err, q1)
             | (None, q1) \<Rightarrow> (Inr (generateOverlayIfNeeded am), q1)))"

text \<open>\<open>linuxManager.Setup\<close>; it registers no clean-up.\<close>

definition mounts_Setup ::
  "'w qemu_os \<Rightarrow> (string \<Rightarrow> int option) \<Rightarrow> string \<Rightarrow> Mount list \<Rightarrow> Instance \<Rightarrow> 'w
     \<Rightarrow> (goerr + Mount list) \<times> Instance" where
  "mounts_Setup os fileSize i rootfsMounts q w = transformMounts os fileSize i rootfsMounts q w"

section \<open>Lemmas\<close>

subsection \<open>The shim's side\<close>

definition erofsLayer :: "Mount \<Rightarrow> bool" where
  "erofsLayer m \<longleftrightarrow> mnt_Type m = ''erofs'' \<or> mnt_Type m = ''format/erofs''"

text \<open>The mounts and disks of layers from a disk letter on.\<close>

definition guestLayer :: "8 word \<Rightarrow> Mount \<Rightarrow> Mount" where
  "guestLayer d m = \<lparr>mnt_Type = ''erofs'', mnt_Source = devicePath d, mnt_Target = mnt_Target m,
     mnt_Options = filterOptions (filter (\<lambda>opt. \<not> hasPrefix opt ''device='') (mnt_Options m))\<rparr>"

fun guestLayers :: "8 word \<Rightarrow> Mount list \<Rightarrow> Mount list" where
  "guestLayers d [] = []"
| "guestLayers d (m # ms) = guestLayer d m # guestLayers (d + 1) ms"

lemma length_guestLayers [simp]: "length (guestLayers d ms) = length ms"
  by (induction d ms rule: guestLayers.induct) simp_all

lemma handleEROFS_shape:
  "\<exists>src v. handleEROFS fs i d m = ([guestLayer d m],
     [\<lparr>do_name = diskName d i, do_source = src, do_readOnly = True, do_vmdk = v\<rparr>], d + 1)"
  by (auto simp: handleEROFS_def guestLayer_def Let_def split: option.splits)

lemma transformAll_layers:
  assumes "list_all erofsLayer ls" "transformAll fs i (d + of_nat (length ls)) ms = Inr (am, ds)"
  shows "\<exists>ds'. transformAll fs i d (ls @ ms) = Inr (guestLayers d ls @ am, ds' @ ds)
    \<and> map do_name ds' = map (\<lambda>k. diskName (d + of_nat k) i) [0..<length ls] \<and> list_all do_readOnly ds'"
  using assms
proof (induction ls arbitrary: d)
  case Nil
  then show ?case by simp
next
  case (Cons m ls)
  obtain src v where h: "handleEROFS fs i d m = ([guestLayer d m],
     [\<lparr>do_name = diskName d i, do_source = src, do_readOnly = True, do_vmdk = v\<rparr>], d + 1)"
    using handleEROFS_shape by blast
  then have t: "transformMount fs i d m = Inr ([guestLayer d m],
     [\<lparr>do_name = diskName d i, do_source = src, do_readOnly = True, do_vmdk = v\<rparr>], d + 1)"
    using Cons.prems(1) by (auto simp: transformMount_def erofsLayer_def)
  obtain ds' where ds': "transformAll fs i (d + 1) (ls @ ms) = Inr (guestLayers (d + 1) ls @ am, ds' @ ds)"
    "map do_name ds' = map (\<lambda>k. diskName (d + 1 + of_nat k) i) [0..<length ls]" "list_all do_readOnly ds'"
    using Cons.IH [of "d + 1"] Cons.prems by (auto simp: algebra_simps)
  have "map (\<lambda>k. diskName (d + of_nat k) i) [0..<Suc (length ls)] = diskName d i # map do_name ds'"
    using ds'(2) by (simp add: upt_rec [of 0] map_Suc_upt [symmetric] comp_def add.assoc del: upt_Suc)
  then show ?case
    using t ds' by (intro exI [of _ "\<lparr>do_name = diskName d i, do_source = src, do_readOnly = True, do_vmdk = v\<rparr> # ds'"])
      (simp del: upt_Suc)
qed

lemma diskName_nonempty: "diskName d i \<noteq> ''''"
  by (simp add: diskName_def truncateID_def Let_def)

lemma addDisksToVM_new:
  assumes "q_vmState q = vmStateNew" "list_all (\<lambda>d. do_name d \<noteq> '''') ds"
  shows "addDisksToVM os ds q w = (None, q\<lparr>q_disks := q_disks q @
    map (\<lambda>d. \<lparr>disk_ID = do_name d, disk_Path = do_source d, Readonly = do_readOnly d\<rparr>) ds\<rparr>)"
  using assms
proof (induction ds arbitrary: q)
  case Nil
  then show ?case by simp
next
  case (Cons d ds)
  let ?q = "q\<lparr>q_disks := q_disks q @ [\<lparr>disk_ID = do_name d, disk_Path = do_source d, Readonly = do_readOnly d\<rparr>]\<rparr>"
  have "AddDisk os (do_name d) (do_source d) (do_readOnly d) q w = (None, ?q)"
    using Cons.prems by (simp add: AddDisk_def getState_def)
  moreover have "q_vmState ?q = vmStateNew" using Cons.prems by simp
  ultimately show ?case using Cons.IH [of ?q] Cons.prems by simp
qed

lemma guestLayers_types:
  "m \<in> set (guestLayers d ls) \<Longrightarrow> mnt_Type m = ''erofs''"
  by (induction d ls rule: guestLayers.induct) (auto simp: guestLayer_def)

lemma lastExt4_append: "lastExt4 i (ms @ [m]) r = (if mnt_Type m = ''ext4'' then i + int (length ms) else lastExt4 i ms r)"
  by (induction ms arbitrary: i r) simp_all

lemma generateOverlay_layers:
  assumes "ls \<noteq> []" "mnt_Type e = ''ext4''"
  shows "generateOverlayIfNeeded (guestLayers d ls @ [e]) = guestLayers d ls @ [e,
     \<lparr>mnt_Type = ''format/mkdir/overlay'', mnt_Source = ''overlay'', mnt_Target = '''',
      mnt_Options = overlayOpts (length ls - 1) (length ls)\<rparr>]"
proof -
  have t: "\<forall>m \<in> set (guestLayers d ls). mnt_Type m = ''erofs''" using guestLayers_types by blast
  have "erofsCount (guestLayers d ls @ [e]) = length ls"
    using t assms(2) by (simp add: erofsCount_def)
  moreover have "\<not> list_ex (\<lambda>m. mnt_Type m = ''overlay'' \<or> strContains (mnt_Type m) ''overlay'') (guestLayers d ls @ [e])"
    using t assms(2) by (auto simp: list_ex_iff hasPrefix_def)
  moreover have "\<not> length (guestLayers d ls @ [e]) < 2" using assms(1) by (cases ls) simp_all
  ultimately show ?thesis using assms by (simp add: generateOverlayIfNeeded_def lastExt4_append)
qed

text \<open>The names of the disks of a container differ, although they are cut to 36 characters.\<close>

lemma natStr_short: "n < 1000 \<Longrightarrow> length (natStr n) \<le> 3"
  by (subst natStr.simps, subst natStr.simps, subst natStr.simps) auto

lemma diskName_number: "takeWhile (\<lambda>c. c \<noteq> CHR ''-'') (drop 5 (diskName d i)) = natStr (unat d)"
proof -
  let ?n = "natStr (unat d)"
  have "unat d < 256" using unsigned_less [of d] by simp
  then have l: "length ?n \<le> 3" using natStr_short by simp
  have "diskName d i = take 36 (''disk-'' @ ?n @ ''-'' @ i)"
    by (simp add: diskName_def truncateID_def Let_def)
  then have "drop 5 (diskName d i) = take 31 (?n @ ''-'' @ i)"
    by (simp add: drop_take)
  also have "\<dots> = ?n @ CHR ''-'' # take (30 - length ?n) i"
  proof -
    have "31 - length ?n = Suc (30 - length ?n)" using l by simp
    then show ?thesis using l by simp
  qed
  finally have eq: "drop 5 (diskName d i) = ?n @ CHR ''-'' # take (30 - length ?n) i" .
  have "\<forall>c \<in> set ?n. c \<noteq> CHR ''-''" using natStr_char isDigit_not_sign by blast
  then show ?thesis unfolding eq by (simp add: takeWhile_append)
qed

lemma diskName_inject: "diskName d i = diskName d' i \<Longrightarrow> d = d'"
  using diskName_number [of d i] diskName_number [of d' i] natStr_inject by (metis word_unat_eq_iff)

lemma disk_letters_distinct: "n \<le> 256 \<Longrightarrow> distinct (map (\<lambda>k. diskName (d + of_nat k) i) [0..<n])"
proof -
  assume n: "n \<le> 256"
  have "inj_on (\<lambda>k. diskName (d + of_nat k) i) (set [0..<n])"
  proof (rule inj_onI)
    fix x y
    assume "x \<in> set [0..<n]" "y \<in> set [0..<n]" and e: "diskName (d + of_nat x) i = diskName (d + of_nat y) i"
    then have b: "x < 256" "y < 256" using n by auto
    have "(of_nat x :: 8 word) = of_nat y" using diskName_inject [OF e] by simp
    then have "unat (of_nat x :: 8 word) = unat (of_nat y :: 8 word)" by simp
    then show "x = y" using b by (simp add: unat_of_nat)
  qed
  then show ?thesis by (simp add: distinct_map)
qed

subsection \<open>The guest's side\<close>

text \<open>An environment in which every call succeeds.\<close>

definition mountsWork :: "'w mount_env \<Rightarrow> bool" where
  "mountsWork env \<longleftrightarrow> (\<forall>p m w. fst (me_mkdirAll env p m w) = None) \<and> (\<forall>a w. fst (me_mount env a w) = None)
     \<and> (\<forall>p u g w. fst (me_chown env p u g w) = None)"

lemma worksD:
  assumes "mountsWork env"
  shows "\<exists>w'. me_mkdirAll env p m w = (None, w')" "\<exists>w'. me_mount env a w = (None, w')"
  using assms unfolding mountsWork_def by (metis prod.collapse)+

definition plainMount :: "Mount \<Rightarrow> bool" where
  "plainMount m \<longleftrightarrow> \<not> hasPrefix (mnt_Type m) ''format/'' \<and> \<not> hasPrefix (mnt_Type m) ''mkdir/''"

lemma prepareMount_plain: "plainMount m \<Longrightarrow> prepareMount env mdir active m w = (Inr m, w)"
  by (simp add: plainMount_def prepareMount_def cutPrefix_def)

fun numbered :: "string \<Rightarrow> nat \<Rightarrow> Mount list \<Rightarrow> ActiveMount list" where
  "numbered mdir i [] = []"
| "numbered mdir i (m # ms) = activeOf m (pathJoin [mdir, natStr i]) # numbered mdir (Suc i) ms"

lemma length_numbered [simp]: "length (numbered mdir i ms) = length ms"
  by (induction mdir i ms rule: numbered.induct) simp_all

lemma numbered_points:
  "map am_MountPoint (numbered mdir i ms) = map (\<lambda>k. pathJoin [mdir, natStr k]) [i..<i + length ms]"
  by (induction mdir i ms rule: numbered.induct) (simp_all add: activeOf_def upt_rec)

lemma mountLoop_plain:
  assumes "mountsWork env" "list_all plainMount ms" "ms2 \<noteq> []"
  shows "\<exists>w'. mountLoop env rootfs mdir i (ms @ ms2) active w =
    mountLoop env rootfs mdir (i + length ms) ms2 (active @ numbered mdir i ms) w'"
  using assms(2)
proof (induction ms arbitrary: i active w)
  case Nil
  then show ?case by auto
next
  case (Cons m ms)
  let ?t = "pathJoin [mdir, natStr i]"
  obtain w1 where w1: "me_mkdirAll env ?t 488 w = (None, w1)" using worksD(1) [OF assms(1)] by blast
  obtain w2 where w2: "me_mount env (activeOf m ?t) w1 = (None, w2)" using worksD(2) [OF assms(1)] by blast
  have "mountLoop env rootfs mdir i ((m # ms) @ ms2) active w =
      mountLoop env rootfs mdir (Suc i) (ms @ ms2) (active @ [activeOf m ?t]) w2"
    using w1 w2 Cons.prems assms(3) by (simp add: Let_def prepareMount_plain)
  moreover obtain w3 where "mountLoop env rootfs mdir (Suc i) (ms @ ms2) (active @ [activeOf m ?t]) w2 =
      mountLoop env rootfs mdir (Suc i + length ms) ms2 ((active @ [activeOf m ?t]) @ numbered mdir (Suc i) ms) w3"
    using Cons.IH [of "Suc i" "active @ [activeOf m ?t]" w2] Cons.prems by auto
  ultimately show ?case by auto
qed

text \<open>A directory for the mounts whose path needs no quoting.\<close>

definition goodDir :: "string \<Rightarrow> bool" where
  "goodDir d \<longleftrightarrow> (\<exists>cs. d = absPath cs \<and> cs \<noteq> [] \<and> list_all plainName cs) \<and> CHR ''{'' \<notin> set d \<and> CHR '':'' \<notin> set d"

lemma plainName_natStr: "plainName (natStr n)"
  using natStr_digits [of n] natStr_no_char(2) [of n]
  by (cases "natStr n") (auto simp: plainName_def isDigit_def)

lemma numbered_dir:
  assumes "goodDir mdir"
  shows "pathJoin [mdir, natStr k] = mdir @ ''/'' @ natStr k"
proof -
  obtain cs where cs: "mdir = absPath cs" "cs \<noteq> []" "list_all plainName cs" using assms by (auto simp: goodDir_def)
  have "pathJoin [mdir, natStr k] = absPath (cs @ [natStr k])"
    unfolding cs(1) using pathJoin_absPath [OF cs(3,2), of "[natStr k]"] plainName_natStr by simp
  also have "\<dots> = mdir @ ''/'' @ natStr k"
    unfolding cs(1) absPath_def using joinWith_append [OF cs(2), of "[natStr k]" "''/''"] by simp
  finally show ?thesis .
qed

lemma splitN_plain: "CHR '':'' \<notin> set s \<Longrightarrow> splitN (CHR '':'') 4 s = [s]"
  by (simp add: numeral_eq_Suc)

lemma parseMkdir_under:
  assumes "CHR '':'' \<notin> set (mdir @ s)"
  shows "parseMkdirOption (''X-containerd.mkdir.path='' @ mdir @ s) mdir =
    Inr \<lparr>mk_Path = mdir @ s, mk_Mode = 493, mk_UID = - 1, mk_GID = - 1\<rparr>"
proof -
  let ?o = "mkdirPathPrefix @ mdir @ s"
  have "hasPrefix ?o mkdirPathPrefix" "drop (length mkdirPathPrefix) ?o = mdir @ s" "hasPrefix (mdir @ s) mdir" by simp_all
  then have "parseMkdirOption ?o mdir = Inr \<lparr>mk_Path = mdir @ s, mk_Mode = 493, mk_UID = - 1, mk_GID = - 1\<rparr>"
    unfolding parseMkdirOption_def Let_def using splitN_plain [OF assms] by simp
  then show ?thesis by (simp add: mkdirPathPrefix_def)
qed

text \<open>The options of the overlay, with the directories of the layers and of the writable disk put in.\<close>

definition expandedOpts :: "string \<Rightarrow> nat \<Rightarrow> string list" where
  "expandedOpts mdir n =
     [''lowerdir='' @ joinWith '':'' (map (\<lambda>k. mdir @ ''/'' @ natStr k) [0..<n]),
      ''upperdir='' @ mdir @ ''/'' @ natStr n @ ''/upper'',
      ''workdir='' @ mdir @ ''/'' @ natStr n @ ''/work'']"

lemma formatOptions_overlay:
  assumes "goodDir mdir" "map am_MountPoint active = map (\<lambda>k. mdir @ ''/'' @ natStr k) [0..<Suc n]" "0 < n" "n \<le> 9"
  shows "formatOptions (overlayOpts (n - 1) n) active = Inr (expandedOpts mdir n @
    [''X-containerd.mkdir.path='' @ mdir @ ''/'' @ natStr n @ ''/upper'',
     ''X-containerd.mkdir.path='' @ mdir @ ''/'' @ natStr n @ ''/work''])"
proof -
  have len: "length active = Suc n" using assms(2) by (metis length_map length_upt diff_zero)
  have mp: "am_MountPoint (active ! n) = mdir @ ''/'' @ natStr n"
    using arg_cong [OF assms(2), of "\<lambda>xs. xs ! n"] len by (simp add: nth_append del: upt_Suc)
  have noB: "CHR ''{'' \<notin> set (mdir @ ''/'' @ natStr k)" for k
    using assms(1) natStr_no_char by (simp add: goodDir_def)
  have all: "\<forall>x \<in> set active. CHR ''{'' \<notin> set (am_MountPoint x)"
  proof
    fix x assume "x \<in> set active"
    then have "am_MountPoint x \<in> set (map am_MountPoint active)" by simp
    then show "CHR ''{'' \<notin> set (am_MountPoint x)" unfolding assms(2) using noB by auto
  qed
  have i64: "in64 (int n)" "in64 (int (n - 1))" using assms(4) by (simp_all add: in64_def minInt64_def maxInt64_def)
  have lower: "map am_MountPoint (take (Suc (n - 1)) active) = map (\<lambda>k. mdir @ ''/'' @ natStr k) [0..<n]"
  proof -
    have "map am_MountPoint (take n active) = take n (map am_MountPoint active)" by (simp add: take_map)
    also have "\<dots> = map (\<lambda>k. mdir @ ''/'' @ natStr k) [0..<n]"
      unfolding assms(2) by (simp add: take_map take_upt del: upt_Suc)
    finally show ?thesis using assms(3) by simp
  qed
  have "formatString (''lowerdir='' @ overlayTmpl 0 (n - 1) @ '''') active =
      Inr (''lowerdir='' @ joinWith '':'' (map (\<lambda>k. mdir @ ''/'' @ natStr k) [0..<n]) @ '''')"
    using subst_overlay [of "''lowerdir=''" "''''" active "n - 1"] all len assms(3) i64 lower by simp
  moreover have "formatString (p @ mountTmpl n @ q) active = Inr (p @ (mdir @ ''/'' @ natStr n) @ q)"
    if "CHR ''{'' \<notin> set p" "CHR ''{'' \<notin> set q" for p q
    using subst_mount [OF that, of active n] noB mp len i64 by simp
  note this [of "''upperdir=''" "''/upper''"] this [of "''workdir=''" "''/work''"]
    this [of "''X-containerd.mkdir.path=''" "''/upper''"] this [of "''X-containerd.mkdir.path=''" "''/work''"]
  moreover have "natStr 0 = ''0''" by (simp add: natStr_eval)
  ultimately show ?thesis by (simp add: overlayOpts_def expandedOpts_def)
qed

lemma processMkdir_overlay:
  assumes "goodDir mdir"
  shows "processMkdirOptions (expandedOpts mdir n @
      [''X-containerd.mkdir.path='' @ mdir @ ''/'' @ natStr n @ ''/upper'',
       ''X-containerd.mkdir.path='' @ mdir @ ''/'' @ natStr n @ ''/work'']) mdir =
    Inr (expandedOpts mdir n,
      [\<lparr>mk_Path = mdir @ ''/'' @ natStr n @ ''/upper'', mk_Mode = 493, mk_UID = - 1, mk_GID = - 1\<rparr>,
       \<lparr>mk_Path = mdir @ ''/'' @ natStr n @ ''/work'', mk_Mode = 493, mk_UID = - 1, mk_GID = - 1\<rparr>])"
proof -
  have c: "CHR '':'' \<notin> set (mdir @ ''/'' @ natStr n @ s)" if "CHR '':'' \<notin> set s" for s
    using assms that natStr_no_char(3) by (simp add: goodDir_def)
  have p: "\<not> hasPrefix (CHR ''l'' # s) ''X-containerd.mkdir.''" "\<not> hasPrefix (CHR ''u'' # s) ''X-containerd.mkdir.''"
    "\<not> hasPrefix (CHR ''w'' # s) ''X-containerd.mkdir.''" "hasPrefix (''X-containerd.mkdir.path='' @ s) ''X-containerd.mkdir.''" for s
    by (simp_all add: hasPrefix_def)
  note pm = parseMkdir_under [of mdir "''/'' @ natStr n @ ''/upper''", OF c [of "''/upper''"]]
    parseMkdir_under [of mdir "''/'' @ natStr n @ ''/work''", OF c [of "''/work''"]]
  show ?thesis
    using p pm by (simp add: expandedOpts_def)
qed

lemma prepareMount_overlay:
  assumes "mountsWork env" "goodDir mdir" "map am_MountPoint active = map (\<lambda>k. mdir @ ''/'' @ natStr k) [0..<Suc n]"
    "0 < n" "n \<le> 9"
  shows "\<exists>w'. prepareMount env mdir active
      \<lparr>mnt_Type = ''format/mkdir/overlay'', mnt_Source = ''overlay'', mnt_Target = '''', mnt_Options = overlayOpts (n - 1) n\<rparr> w =
    (Inr \<lparr>mnt_Type = ''overlay'', mnt_Source = ''overlay'', mnt_Target = '''', mnt_Options = expandedOpts mdir n\<rparr>, w')"
proof -
  let ?up = "mdir @ ''/'' @ natStr n @ ''/upper''" and ?wk = "mdir @ ''/'' @ natStr n @ ''/work''"
  let ?o = "overlayOpts (n - 1) n"
  obtain w1 where w1: "me_mkdirAll env ?up 493 w = (None, w1)" using worksD(1) [OF assms(1)] by blast
  obtain w2 where w2: "me_mkdirAll env ?wk 493 w1 = (None, w2)" using worksD(1) [OF assms(1)] by blast
  have f: "applyFormatSubstitution \<lparr>mnt_Type = ''mkdir/overlay'', mnt_Source = ''overlay'', mnt_Target = '''', mnt_Options = ?o\<rparr> active =
    Inr \<lparr>mnt_Type = ''mkdir/overlay'', mnt_Source = ''overlay'', mnt_Target = '''', mnt_Options = expandedOpts mdir n @
      [''X-containerd.mkdir.path='' @ ?up, ''X-containerd.mkdir.path='' @ ?wk]\<rparr>"
    using formatOptions_overlay [OF assms(2-5)]
    by (simp add: applyFormatSubstitution_def formatString_def hasPrefix_def)
  have c: "cutPrefix ''format/mkdir/overlay'' ''format/'' = Some ''mkdir/overlay''"
    "cutPrefix ''mkdir/overlay'' ''mkdir/'' = Some ''overlay''"
    by (simp_all add: cutPrefix_def hasPrefix_def)
  have "applyMkdirSpecs env [\<lparr>mk_Path = ?up, mk_Mode = 493, mk_UID = - 1, mk_GID = - 1\<rparr>,
      \<lparr>mk_Path = ?wk, mk_Mode = 493, mk_UID = - 1, mk_GID = - 1\<rparr>] w = (None, w2)"
    using w1 w2 by simp
  then show ?thesis
    using c f processMkdir_overlay [OF assms(2), of n] by (simp add: prepareMount_def)
qed

subsection \<open>Both sides together\<close>

lemma guestLayers_sources:
  "map mnt_Source (guestLayers d ls) = map (\<lambda>k. devicePath (d + of_nat k)) [0..<length ls]"
proof (induction d ls rule: guestLayers.induct)
  case (1 d)
  show ?case by simp
next
  case (2 d m ms)
  have "map (\<lambda>k. devicePath (d + of_nat k)) [0..<Suc (length ms)]
      = devicePath d # map (\<lambda>k. devicePath (d + 1 + of_nat k)) [0..<length ms]"
    by (simp add: upt_rec [of 0] map_Suc_upt [symmetric] comp_def add.assoc del: upt_Suc)
  with 2 show ?case by (simp add: guestLayer_def del: upt_Suc)
qed

lemma numbered_sources: "map am_Source (numbered mdir i ms) = map mnt_Source ms"
  by (induction mdir i ms rule: numbered.induct) (simp_all add: activeOf_def)

definition guestExt4 :: "8 word \<Rightarrow> Mount \<Rightarrow> Mount" where
  "guestExt4 d e = \<lparr>mnt_Type = ''ext4'', mnt_Source = devicePath d, mnt_Target = mnt_Target e,
     mnt_Options = filterOptions (mnt_Options e)\<rparr>"

lemma Setup_layers:
  assumes "list_all erofsLayer ls" "ls \<noteq> []" "length ls \<le> 9" "mnt_Type e = ''ext4''" "q_vmState q = vmStateNew"
  shows "\<exists>q'. mounts_Setup os fs i (ls @ [e]) q w = (Inr (guestLayers 97 ls @ [guestExt4 (97 + of_nat (length ls)) e,
      \<lparr>mnt_Type = ''format/mkdir/overlay'', mnt_Source = ''overlay'', mnt_Target = '''',
       mnt_Options = overlayOpts (length ls - 1) (length ls)\<rparr>]), q')
    \<and> map disk_ID (q_disks q') = map disk_ID (q_disks q) @ map (\<lambda>k. diskName (97 + of_nat k) i) [0..<Suc (length ls)]"
proof -
  let ?d = "97 + of_nat (length ls) :: 8 word"
  let ?de = "\<lparr>do_name = diskName ?d i, do_source = mnt_Source e,
      do_readOnly = list_ex (\<lambda>opt. opt = ''ro'' \<or> opt = ''readonly'') (mnt_Options e), do_vmdk = False\<rparr>"
  have "transformAll fs i ?d [e] = Inr ([guestExt4 ?d e], [?de])"
    using assms(4) by (simp add: transformMount_def handleExt4_def guestExt4_def Let_def)
  from transformAll_layers [OF assms(1) this] obtain ds' where
    t: "transformAll fs i 97 (ls @ [e]) = Inr (guestLayers 97 ls @ [guestExt4 ?d e], ds' @ [?de])"
    and n: "map do_name ds' = map (\<lambda>k. diskName (97 + of_nat k) i) [0..<length ls]" by blast
  have len: "length (ds' @ [?de]) \<le> 10" using assms(3) arg_cong [OF n, of length] by simp
  have names: "map do_name (ds' @ [?de]) = map (\<lambda>k. diskName (97 + of_nat k) i) [0..<Suc (length ls)]"
    using n by simp
  have "set (map do_name (ds' @ [?de])) \<subseteq> {s. s \<noteq> ''''}" unfolding names using diskName_nonempty by auto
  then have "list_all (\<lambda>d. do_name d \<noteq> '''') (ds' @ [?de])" by (auto simp: list_all_iff)
  from addDisksToVM_new [OF assms(5) this, of os w]
  have "mounts_Setup os fs i (ls @ [e]) q w = (Inr (generateOverlayIfNeeded (guestLayers 97 ls @ [guestExt4 ?d e])),
      q\<lparr>q_disks := q_disks q @ map (\<lambda>d. \<lparr>disk_ID = do_name d, disk_Path = do_source d, Readonly = do_readOnly d\<rparr>) (ds' @ [?de])\<rparr>)"
    using t len by (simp add: mounts_Setup_def transformMounts_def)
  moreover have "map (disk_ID \<circ> (\<lambda>d. \<lparr>disk_ID = do_name d, disk_Path = do_source d, Readonly = do_readOnly d\<rparr>)) ds' = map do_name ds'"
    by (simp add: comp_def)
  ultimately show ?thesis
    using n generateOverlay_layers [OF assms(2), of "guestExt4 ?d e" 97] by (auto simp: guestExt4_def)
qed


definition workingMounts :: "unit mount_env" where
  "workingMounts = \<lparr>me_mkdirAll = \<lambda>p m w. (None, w), me_chown = \<lambda>p u g w. (None, w),
     me_mount = \<lambda>a w. (None, w), me_unmountAll = \<lambda>p w. (None, w)\<rparr>"


end
