(* ===== verification/Oci_Bundle.thy ===== *)
theory Oci_Bundle
  imports Vm_Resources Go_Filepath "HOL-Library.AList"
begin

text \<open>
  The container's bundle on its way into the VM: loading and changing it on the host
  (\<^verbatim>\<open>internal/shim/bundle/bundle.go\<close>, \<^verbatim>\<open>internal/shim/transform/bundle.go\<close>), and writing it in the
  guest (\<^verbatim>\<open>internal/guest/services/bundle.go\<close>).

  Reading and writing JSON are functions passed as arguments, and so is the list of the
  capabilities the runtime knows. A Go map of files is an association list, in the order in which an
  iteration visits it; the contents of a file are a \<open>string\<close>.
\<close>

section \<open>The bundle on the host\<close>

type_synonym files = "(string \<times> string) list"

record Bundle =
  b_Path :: string
  b_Spec :: Spec
  b_Rootfs :: string
  b_extraFiles :: files

definition resolveRootfsPath :: "Bundle \<Rightarrow> goerr + Bundle" where
  "resolveRootfsPath b =
     (case spec_Root (b_Spec b) of
        None \<Rightarrow> Inl (WrapErr ''root path not specified'' ErrInvalidArgument)
      | Some root' \<Rightarrow>
          (let rootfs = (if isAbs (root_Path root') then root_Path root' else pathJoin [b_Path b, root_Path root'])
           in Inr (b\<lparr>b_Rootfs := rootfs,
                     b_Spec := (b_Spec b)\<lparr>spec_Root := Some (root'\<lparr>root_Path := ''rootfs''\<rparr>)\<rparr>\<rparr>)))"

definition AddExtraFile :: "string \<Rightarrow> string \<Rightarrow> Bundle \<Rightarrow> goerr + Bundle" where
  "AddExtraFile name data b =
     (if name = '''' then Inl (Errorf ''file name cannot be empty'')
      else if name = ''config.json'' then Inl (Errorf ''cannot override config.json'')
      else
        (let cleaned = pathClean name
         in if cleaned \<noteq> name \<or> pathBase name \<noteq> name \<or> cleaned = ''..'' \<or> cleaned = ''.''
            then Inl (Errorf (''file name '' @ name @ '' must not contain path separators or relative components''))
            else Inr (b\<lparr>b_extraFiles := AList.update name data (b_extraFiles b)\<rparr>)))"

text \<open>\<open>Files\<close>, with the encoder of the specification.\<close>

definition bundle_Files :: "(Spec \<Rightarrow> goerr + string) \<Rightarrow> Bundle \<Rightarrow> goerr + files" where
  "bundle_Files marshal b =
     (case marshal (b_Spec b) of
        Inl err \<Rightarrow> Inl (WrapErr ''failed to marshal spec'' err)
      | Inr specBytes \<Rightarrow> Inr (AList.update ''config.json'' specBytes (b_extraFiles b)))"

section \<open>Changing the specification\<close>

text \<open>The loop over the mounts: the ones before, in reverse, and the ones to come.\<close>

fun transformBinds ::
  "(string \<Rightarrow> goerr + string) \<Rightarrow> OciMount list \<Rightarrow> OciMount list \<Rightarrow> Bundle \<Rightarrow> goerr + OciMount list \<times> Bundle" where
  "transformBinds readFile acc [] b = Inr (rev acc, b)"
| "transformBinds readFile acc (m # ms) b =
     (if om_Type m = ''bind'' then
        (let filename = pathBase (om_Source m)
         in if pathBase (pathDir (om_Source m)) \<noteq> pathBase (b_Path b)
            then transformBinds readFile (m # acc) ms b
            else
              (case readFile (om_Source m) of
                 Inl err \<Rightarrow> Inl (WrapErr (''failed to read mount file '' @ filename) err)
               | Inr buf \<Rightarrow>
                   (case AddExtraFile filename buf b of
                      Inl err \<Rightarrow> Inl (WrapErr (''failed to add extra file '' @ filename) err)
                    | Inr b1 \<Rightarrow> transformBinds readFile (m\<lparr>om_Source := filename\<rparr> # acc) ms b1)))
      else transformBinds readFile (m # acc) ms b)"

definition TransformBindMounts :: "(string \<Rightarrow> goerr + string) \<Rightarrow> Bundle \<Rightarrow> goerr + Bundle" where
  "TransformBindMounts readFile b =
     (case transformBinds readFile [] (spec_Mounts (b_Spec b)) b of
        Inl err \<Rightarrow> Inl err
      | Inr (ms, b1) \<Rightarrow> Inr (b1\<lparr>b_Spec := (b_Spec b1)\<lparr>spec_Mounts := ms\<rparr>\<rparr>))"

fun ensureRWFrom :: "string list \<Rightarrow> bool \<Rightarrow> string list" where
  "ensureRWFrom [] hasRW = (if \<not> hasRW then [''rw''] else [])"
| "ensureRWFrom (opt # opts) hasRW =
     (if opt = ''ro'' then ''rw'' # ensureRWFrom opts True
      else opt # ensureRWFrom opts (hasRW \<or> opt = ''rw''))"

definition ensureRW :: "string list \<Rightarrow> string list" where
  "ensureRW opts = ensureRWFrom opts False"

definition cgroupMount :: "string list \<Rightarrow> OciMount" where
  "cgroupMount opts =
     \<lparr>om_Destination = ''/sys/fs/cgroup'', om_Type = ''cgroup2'', om_Source = ''cgroup2'', om_Options = opts\<rparr>"

text \<open>The first mount on the cgroup directory is changed; without one a mount is added.\<close>

fun ensureCgroup :: "OciMount list \<Rightarrow> OciMount list" where
  "ensureCgroup [] = [cgroupMount [''nosuid'', ''noexec'', ''nodev'', ''rw'']]"
| "ensureCgroup (m # ms) =
     (if om_Destination m = ''/sys/fs/cgroup'' then cgroupMount (ensureRW (om_Options m)) # ms
      else m # ensureCgroup ms)"

definition AdaptForVM :: "string list \<Rightarrow> Bundle \<Rightarrow> Bundle" where
  "AdaptForVM knownCaps b =
     (let s0 = b_Spec b;
          s1 = s0\<lparr>spec_Mounts := ensureCgroup (spec_Mounts s0)\<rparr>;
          caps = \<lparr>cap_Bounding = knownCaps, cap_Effective = knownCaps, cap_Permitted = knownCaps,
                  cap_Inheritable = knownCaps, cap_Ambient = knownCaps\<rparr>;
          s2 = s1\<lparr>spec_Process := map_option (\<lambda>p. p\<lparr>proc_Capabilities := Some caps\<rparr>) (spec_Process s1)\<rparr>;
          s3 = s2\<lparr>spec_Linux := map_option
                 (\<lambda>l. l\<lparr>lin_Namespaces := filter (\<lambda>ns. ns_Type ns \<noteq> ''network'' \<and> ns_Type ns \<noteq> ''cgroup'') (lin_Namespaces l),
                        lin_ReadonlyPaths := [], lin_MaskedPaths := []\<rparr>) (spec_Linux s2)\<rparr>
      in b\<lparr>b_Spec := s3\<rparr>)"

fun applyTransformers :: "(Bundle \<Rightarrow> goerr + Bundle) list \<Rightarrow> Bundle \<Rightarrow> goerr + Bundle" where
  "applyTransformers [] b = Inr b"
| "applyTransformers (t # ts) b =
     (case t b of Inl err \<Rightarrow> Inl (WrapErr ''transformer failed'' err) | Inr b1 \<Rightarrow> applyTransformers ts b1)"

text \<open>\<open>Load\<close>; the decoder of the specification is an argument.\<close>

definition bundle_Load ::
  "(string \<Rightarrow> goerr + string) \<Rightarrow> (string \<Rightarrow> goerr + Spec) \<Rightarrow> (Bundle \<Rightarrow> goerr + Bundle) list \<Rightarrow> string \<Rightarrow> goerr + Bundle" where
  "bundle_Load readFile unmarshal transformers path =
     (if path = '''' then Inl (Errorf ''bundle path cannot be empty'')
      else
        (case readFile (pathJoin [path, ''config.json'']) of
           Inl err \<Rightarrow> Inl (WrapErr ''failed to read bundle config'' err)
         | Inr specBytes \<Rightarrow>
             (case unmarshal specBytes of
                Inl err \<Rightarrow> Inl (WrapErr ''failed to parse bundle spec'' err)
              | Inr spec \<Rightarrow>
                  (case resolveRootfsPath \<lparr>b_Path = path, b_Spec = spec, b_Rootfs = '''', b_extraFiles = []\<rparr> of
                     Inl err \<Rightarrow> Inl (WrapErr ''failed to resolve rootfs path'' err)
                   | Inr b \<Rightarrow> applyTransformers transformers b))))"

definition LoadForCreate ::
  "(string \<Rightarrow> goerr + string) \<Rightarrow> (string \<Rightarrow> goerr + Spec) \<Rightarrow> string list \<Rightarrow> string \<Rightarrow> goerr + Bundle" where
  "LoadForCreate readFile unmarshal knownCaps =
     bundle_Load readFile unmarshal [TransformBindMounts readFile, \<lambda>b. Inr (AdaptForVM knownCaps b)]"

section \<open>The bundle in the guest\<close>

record 'w guest_fs =
  gf_mkdir :: "string \<Rightarrow> 'w \<Rightarrow> goerr option \<times> 'w"
  gf_writeFile :: "string \<Rightarrow> string \<Rightarrow> 'w \<Rightarrow> goerr option \<times> 'w"
  gf_removeAll :: "string \<Rightarrow> 'w \<Rightarrow> 'w"

definition bundleRootDir :: string where
  "bundleRootDir = ''/run/bundles''"

text \<open>The check of one file name; \<open>ContainsAny(filename, "/\")\<close>.\<close>

definition checkFilename :: "string \<Rightarrow> goerr option" where
  "checkFilename filename =
     (if filename = '''' then Some (WrapErr ''empty filename in bundle files'' ErrInvalidArgument)
      else if isAbs filename then Some (WrapErr ''absolute path not allowed in bundle'' ErrInvalidArgument)
      else if CHR ''/'' \<in> set filename \<or> CHR 0x5C \<in> set filename
      then Some (WrapErr ''path separators not allowed in bundle filename'' ErrInvalidArgument)
      else if filename = ''..'' \<or> filename = ''.'' then Some (WrapErr ''invalid bundle filename'' ErrInvalidArgument)
      else None)"

fun checkFilenames :: "files \<Rightarrow> goerr option" where
  "checkFilenames [] = None"
| "checkFilenames ((f, b) # fs) = (case checkFilename f of Some e \<Rightarrow> Some e | None \<Rightarrow> checkFilenames fs)"

fun writeFiles :: "'w guest_fs \<Rightarrow> string \<Rightarrow> files \<Rightarrow> 'w \<Rightarrow> goerr option \<times> 'w" where
  "writeFiles fs d [] w = (None, w)"
| "writeFiles fs d ((f, b) # rest) w =
     (case gf_writeFile fs (pathJoin [d, f]) b w of
        (Some e, w1) \<Rightarrow> (Some e, w1)
      | (None, w1) \<Rightarrow> writeFiles fs d rest w1)"

definition bundle_Create :: "'w guest_fs \<Rightarrow> string \<Rightarrow> string \<Rightarrow> files \<Rightarrow> 'w \<Rightarrow> (goerr + string) \<times> 'w" where
  "bundle_Create fs bundleRoot i rfiles w =
     (if i = '''' then (Inl (WrapErr ''bundle ID cannot be empty'' ErrInvalidArgument), w)
      else if strContains i ''..'' \<or> strContains i ''/''
      then (Inl (WrapErr ''invalid bundle ID'' ErrInvalidArgument), w)
      else
        (let d = pathJoin [bundleRoot, i]
         in case checkFilenames rfiles of
              Some e \<Rightarrow> (Inl e, w)
            | None \<Rightarrow>
                (case gf_mkdir fs d w of
                   (Some e, w1) \<Rightarrow> (Inl e, w1)
                 | (None, w1) \<Rightarrow>
                     (case gf_mkdir fs (pathJoin [d, ''rootfs'']) w1 of
                        (Some e, w2) \<Rightarrow> (Inl e, gf_removeAll fs d w2)
                      | (None, w2) \<Rightarrow>
                          (case writeFiles fs d rfiles w2 of
                             (Some e, w3) \<Rightarrow> (Inl e, gf_removeAll fs d w3)
                           | (None, w3) \<Rightarrow> (Inr d, w3))))))"

section \<open>Lemmas\<close>

subsection \<open>File names\<close>

lemma pathBase_plain: "pathBase p = p \<Longrightarrow> p \<noteq> '''' \<Longrightarrow> p \<noteq> ''/'' \<Longrightarrow> CHR ''/'' \<notin> set p"
proof -
  assume b: "pathBase p = p" and p: "p \<noteq> ''''" "p \<noteq> ''/''"
  let ?cs = "filter (\<lambda>c. c \<noteq> '''') (splitOn (CHR ''/'') p)"
  have "?cs \<noteq> []" using b p by (auto simp: pathBase_def split: if_splits)
  then have "p = last ?cs" using b p by (auto simp: pathBase_def split: list.splits if_splits)
  moreover have "last ?cs \<in> set (splitOn (CHR ''/'') p)"
    using \<open>?cs \<noteq> []\<close> last_in_set [of ?cs] by auto
  ultimately show ?thesis using splitOn_no_sep by metis
qed

lemma pathClean_slash: "pathClean ''/'' = ''/''"
  by (simp add: pathClean_def isAbs_def hasPrefix_def cleanComps_def renderPath_def)

text \<open>The host takes plain names only.\<close>

lemma AddExtraFile_plain:
  assumes "AddExtraFile name data b = Inr b'"
  shows "plainName name \<or> name = ''/''" "name \<noteq> ''config.json''"
    "b' = b\<lparr>b_extraFiles := AList.update name data (b_extraFiles b)\<rparr>"
  using assms pathBase_plain [of name]
  by (auto simp: AddExtraFile_def Let_def plainName_def split: if_splits)

lemma checkFilenames_plain:
  "checkFilenames fs = None \<Longrightarrow> (f, b) \<in> set fs \<Longrightarrow> plainName f"
  by (induction fs rule: checkFilenames.induct)
    (auto simp: checkFilename_def plainName_def split: if_splits option.splits)

subsection \<open>What the guest writes\<close>

datatype fsEvent = FsMkdir string | FsWrite string string | FsRemove string

definition loggedFs :: "'w guest_fs \<Rightarrow> ('w \<times> fsEvent list) guest_fs" where
  "loggedFs fs =
     \<lparr>gf_mkdir = \<lambda>p (w, l). (case gf_mkdir fs p w of (r, w') \<Rightarrow> (r, w', l @ [FsMkdir p])),
      gf_writeFile = \<lambda>p c (w, l). (case gf_writeFile fs p c w of (r, w') \<Rightarrow> (r, w', l @ [FsWrite p c])),
      gf_removeAll = \<lambda>p (w, l). (gf_removeAll fs p w, l @ [FsRemove p])\<rparr>"

lemma logged_fs:
  "gf_mkdir (loggedFs fs) p (w, l) = (let (r, w') = gf_mkdir fs p w in (r, w', l @ [FsMkdir p]))"
  "gf_writeFile (loggedFs fs) p c (w, l) = (let (r, w') = gf_writeFile fs p c w in (r, w', l @ [FsWrite p c]))"
  "gf_removeAll (loggedFs fs) p (w, l) = (gf_removeAll fs p w, l @ [FsRemove p])"
  by (simp_all add: loggedFs_def)

lemma writeFiles_log:
  "writeFiles (loggedFs fs) d rs (w, l) = (r, w', l') \<Longrightarrow>
     \<exists>n. l' = l @ map (\<lambda>(f, c). FsWrite (pathJoin [d, f]) c) (take n rs) \<and> (r = None \<longrightarrow> length rs \<le> n)"
proof (induction rs arbitrary: w l)
  case Nil
  then show ?case by simp
next
  case (Cons a rs)
  obtain f c where a: "a = (f, c)" by (metis surj_pair)
  obtain r1 w1 where w1: "gf_writeFile fs (pathJoin [d, f]) c w = (r1, w1)" by (metis surj_pair)
  let ?e = "FsWrite (pathJoin [d, f]) c"
  show ?case
  proof (cases r1)
    case (Some e)
    then show ?thesis using Cons.prems a w1 by (intro exI [of _ 1]) (auto simp: logged_fs)
  next
    case None
    then have "writeFiles (loggedFs fs) d rs (w1, l @ [?e]) = (r, w', l')"
      using Cons.prems a w1 by (simp add: logged_fs)
    from Cons.IH [OF this] obtain n where "l' = (l @ [?e]) @ map (\<lambda>(f, c). FsWrite (pathJoin [d, f]) c) (take n rs)"
      "r = None \<longrightarrow> length rs \<le> n" by blast
    then show ?thesis using a by (intro exI [of _ "Suc n"]) simp
  qed
qed

text \<open>The directory of a bundle.\<close>

definition bundleDir :: "string \<Rightarrow> string" where
  "bundleDir i = (if i = ''.'' then bundleRootDir else bundleRootDir @ ''/'' @ i)"

lemma absPath_run: "bundleRootDir = absPath [''run'', ''bundles'']"
  by (simp add: bundleRootDir_def absPath_def)

lemma plain_run [simp]: "list_all plainName [''run'', ''bundles'']"
  by (simp add: plainName_def)

lemma bundleDir_join:
  assumes "i \<noteq> ''''" "\<not> strContains i ''..''" "\<not> strContains i ''/''"
  shows "pathJoin [bundleRootDir, i] = bundleDir i"
    and "plainName f \<Longrightarrow> pathJoin [bundleDir i, f] = bundleDir i @ ''/'' @ f"
proof -
  have n: "CHR ''/'' \<notin> set i" "i \<noteq> ''..''"
    using assms strContains_char [of i "CHR ''/''"] by (auto simp: hasPrefix_def)
  define cs where "cs = (if i = ''.'' then [''run'', ''bundles''] else [''run'', ''bundles'', i])"
  have pl: "list_all plainName cs" "cs \<noteq> []" using n assms(1) plain_run by (auto simp: cs_def plainName_def)
  have d: "bundleDir i = absPath cs"
    by (simp add: bundleDir_def cs_def bundleRootDir_def absPath_def)
  show "pathJoin [bundleRootDir, i] = bundleDir i"
  proof (cases "i = ''.''")
    case True
    have "pathJoin [bundleRootDir, ''.''] = bundleRootDir"
      by (simp add: pathJoin_def bundleRootDir_def pathClean_def isAbs_def hasPrefix_def cleanComps_def renderPath_def cleanStep.simps)
    then show ?thesis using True by (simp add: bundleDir_def)
  next
    case False
    then have "plainName i" using n assms(1) by (simp add: plainName_def)
    then have "pathJoin (absPath [''run'', ''bundles''] # [i]) = absPath ([''run'', ''bundles''] @ [i])"
      by (intro pathJoin_absPath) (simp_all add: plainName_def)
    then show ?thesis using False d by (simp add: absPath_run cs_def)
  qed
  assume "plainName f"
  then have "pathJoin (absPath cs # [f]) = absPath (cs @ [f])" using pl by (intro pathJoin_absPath) simp_all
  also have "\<dots> = absPath cs @ ''/'' @ f" using joinWith_append [OF pl(2), of "[f]" "''/''"] by (simp add: absPath_def)
  finally show "pathJoin [bundleDir i, f] = bundleDir i @ ''/'' @ f" by (simp add: d)
qed

text \<open>What a call of the guest's bundle service may do to the file system.\<close>

definition confined :: "string \<Rightarrow> files \<Rightarrow> fsEvent \<Rightarrow> bool" where
  "confined i rs ev =
     (case ev of
        FsMkdir p \<Rightarrow> p = bundleDir i \<or> p = bundleDir i @ ''/rootfs''
      | FsWrite p c \<Rightarrow> list_ex (\<lambda>(f, c'). c = c' \<and> plainName f \<and> p = bundleDir i @ ''/'' @ f) rs
      | FsRemove p \<Rightarrow> p = bundleDir i)"

lemma rootfs_join:
  assumes "i \<noteq> ''''" "\<not> strContains i ''..''" "\<not> strContains i ''/''"
  shows "pathJoin [bundleDir i, ''rootfs''] = bundleDir i @ ''/rootfs''"
  using bundleDir_join(2) [OF assms, of "''rootfs''"] by (simp add: plainName_def)

lemma writes_confined:
  assumes "i \<noteq> ''''" "\<not> strContains i ''..''" "\<not> strContains i ''/''" "checkFilenames rs = None"
  shows "list_all (confined i rs) (map (\<lambda>(f, c). FsWrite (pathJoin [bundleDir i, f]) c) (take n rs))"
proof (simp add: list_all_iff, intro ballI)
  fix x assume "x \<in> set (take n rs)"
  then have x: "x \<in> set rs" by (rule in_set_takeD)
  obtain f c where fc: "x = (f, c)" by (metis surj_pair)
  then have "plainName f" using checkFilenames_plain [OF assms(4)] x by blast
  then show "confined i rs (case x of (f, c) \<Rightarrow> FsWrite (pathJoin [bundleDir i, f]) c)"
    using x fc bundleDir_join(2) [OF assms(1-3)] by (auto simp: confined_def list_ex_iff)
qed

lemma confined_events:
  "case bundle_Create (loggedFs fs) bundleRootDir i rs (w, []) of (r, w', l) \<Rightarrow>
     list_all (confined i rs) l \<and> (case r of Inl e \<Rightarrow> True | Inr d \<Rightarrow> d = bundleDir i)"
proof (cases "i = '''' \<or> strContains i ''..'' \<or> strContains i ''/'' \<or> checkFilenames rs \<noteq> None")
  case True
  then show ?thesis by (auto simp: bundle_Create_def Let_def)
next
  case False
  then have ok: "i \<noteq> ''''" "\<not> strContains i ''..''" "\<not> strContains i ''/''" "checkFilenames rs = None" by auto
  note dir = bundleDir_join(1) [OF ok(1-3)] rootfs_join [OF ok(1-3)]
  let ?d = "bundleDir i"
  obtain r1 w1 where m1: "gf_mkdir fs ?d w = (r1, w1)" by (metis surj_pair)
  obtain r2 w2 where m2: "gf_mkdir fs (?d @ ''/rootfs'') w1 = (r2, w2)" by (metis surj_pair)
  obtain r3 w3 l3 where m3: "writeFiles (loggedFs fs) ?d rs (w2, [FsMkdir ?d, FsMkdir (?d @ ''/rootfs'')]) = (r3, w3, l3)"
    by (metis prod_cases3)
  obtain n where l3: "l3 = [FsMkdir ?d, FsMkdir (?d @ ''/rootfs'')] @
      map (\<lambda>(f, c). FsWrite (pathJoin [?d, f]) c) (take n rs)"
    using writeFiles_log [OF m3] by blast
  have c3: "list_all (confined i rs) l3"
    unfolding l3 using writes_confined [OF ok, of n] by (simp add: confined_def)
  have c: "confined i rs (FsMkdir ?d)" "confined i rs (FsMkdir (?d @ ''/rootfs''))" "confined i rs (FsRemove ?d)"
    by (simp_all add: confined_def)
  show ?thesis
    using ok m1 m2 m3 c c3
    by (cases r1; cases r2; cases r3) (simp_all add: bundle_Create_def Let_def dir logged_fs)
qed

text \<open>C33. The guest's bundle service is confined: whatever container identifier and file names a
  request has, and whatever the file system answers, it creates, writes and removes nothing but the bundle's
  own directory, its root directory and files with plain names directly in it.\<close>

theorem bundle_writes_confined:
  "case bundle_Create (loggedFs fs) bundleRootDir i rs (w, []) of (r, w', l) \<Rightarrow>
     list_all (confined i rs) l \<and> (case r of Inl e \<Rightarrow> True | Inr d \<Rightarrow> d = bundleDir i)"
  by (rule confined_events)

subsection \<open>From the host to the guest\<close>

definition fsWorks :: "'w guest_fs \<Rightarrow> bool" where
  "fsWorks fs \<longleftrightarrow> (\<forall>p w. fst (gf_mkdir fs p w) = None) \<and> (\<forall>p c w. fst (gf_writeFile fs p c w) = None)"

lemma writeFiles_works: "fsWorks fs \<Longrightarrow> fst (writeFiles fs d rs w) = None"
proof (induction fs d rs w rule: writeFiles.induct)
  case (1 fs d w)
  show ?case by simp
next
  case (2 fs d f b rest w)
  obtain r1 w1 where "gf_writeFile fs (pathJoin [d, f]) b w = (r1, w1)" by (metis surj_pair)
  moreover from this have "r1 = None" using 2(2) unfolding fsWorks_def by (metis fst_conv)
  ultimately show ?case using 2 by simp
qed

lemma checkFilenames_ok:
  "list_all (\<lambda>(f, c). plainName f \<and> CHR 0x5C \<notin> set f) rs \<Longrightarrow> checkFilenames rs = None"
proof (induction rs rule: checkFilenames.induct)
  case (2 f b fs)
  then have "f \<noteq> ''''" "CHR ''/'' \<notin> set f" "CHR 0x5C \<notin> set f" "f \<noteq> ''.''" "f \<noteq> ''..''" by (simp_all add: plainName_def)
  moreover from this have "\<not> isAbs f" by (cases f) (auto simp: isAbs_def hasPrefix_def)
  ultimately show ?case using 2 by (simp add: checkFilename_def)
qed simp

text \<open>The files of a loaded bundle: the specification and plain names.\<close>

definition goodFiles :: "Bundle \<Rightarrow> bool" where
  "goodFiles b \<longleftrightarrow> distinct (map fst (b_extraFiles b)) \<and> (\<forall>f \<in> set (map fst (b_extraFiles b)). (plainName f \<or> f = ''/'') \<and> f \<noteq> ''config.json'')"

lemma AddExtraFile_good: "AddExtraFile name data b = Inr b' \<Longrightarrow> goodFiles b \<Longrightarrow> goodFiles b'"
proof -
  assume a: "AddExtraFile name data b = Inr b'" and g: "goodFiles b"
  note p = AddExtraFile_plain [OF a]
  have k: "set (map fst (AList.update name data (b_extraFiles b))) = insert name (set (map fst (b_extraFiles b)))"
    unfolding update_keys by auto
  have "distinct (map fst (AList.update name data (b_extraFiles b)))"
    using g by (intro distinct_update) (simp add: goodFiles_def)
  then show ?thesis using p g k unfolding goodFiles_def by auto
qed

lemma transformBinds_good:
  "transformBinds rd acc ms b = Inr (ms', b') \<Longrightarrow> goodFiles b \<Longrightarrow> goodFiles b'"
  by (induction rd acc ms b rule: transformBinds.induct)
    (auto simp: Let_def split: if_splits sum.splits dest: AddExtraFile_good)

lemma goodFiles_spec [simp]: "goodFiles (b\<lparr>b_Spec := x\<rparr>) = goodFiles b"
  by (simp add: goodFiles_def)

lemma goodFiles_adapt [simp]: "goodFiles (AdaptForVM caps b) = goodFiles b"
  by (simp add: AdaptForVM_def Let_def)

text \<open>A loaded bundle is the resolved one, transformed and adapted.\<close>

lemma LoadForCreate_parts:
  assumes "LoadForCreate rd um caps path = Inr b"
  obtains spec b0 ms b1 where
    "resolveRootfsPath \<lparr>b_Path = path, b_Spec = spec, b_Rootfs = '''', b_extraFiles = []\<rparr> = Inr b0"
    "transformBinds rd [] (spec_Mounts (b_Spec b0)) b0 = Inr (ms, b1)"
    "b = AdaptForVM caps (b1\<lparr>b_Spec := (b_Spec b1)\<lparr>spec_Mounts := ms\<rparr>\<rparr>)"
  using assms by (auto simp: LoadForCreate_def bundle_Load_def TransformBindMounts_def split: if_splits sum.splits)

lemma LoadForCreate_good: "LoadForCreate rd um caps path = Inr b \<Longrightarrow> goodFiles b"
proof -
  assume "LoadForCreate rd um caps path = Inr b"
  then obtain spec b0 ms b1 where r: "resolveRootfsPath \<lparr>b_Path = path, b_Spec = spec, b_Rootfs = '''', b_extraFiles = []\<rparr> = Inr b0"
    and t: "transformBinds rd [] (spec_Mounts (b_Spec b0)) b0 = Inr (ms, b1)"
    and b: "b = AdaptForVM caps (b1\<lparr>b_Spec := (b_Spec b1)\<lparr>spec_Mounts := ms\<rparr>\<rparr>)"
    by (rule LoadForCreate_parts)
  have "b_extraFiles b0 = []"
    using r by (auto simp: resolveRootfsPath_def Let_def split: option.splits)
  then have "goodFiles b0" by (simp add: goodFiles_def)
  then have "goodFiles b1" using t transformBinds_good by blast
  then show ?thesis unfolding b by simp
qed

lemma transformBinds_root:
  "transformBinds rd acc ms b = Inr (ms', b') \<Longrightarrow> b_Spec b' = b_Spec b"
  by (induction rd acc ms b rule: transformBinds.induct)
    (auto simp: Let_def split: if_splits sum.splits dest: AddExtraFile_plain(3))

lemma LoadForCreate_root:
  assumes "LoadForCreate rd um caps path = Inr b"
  shows "\<exists>rt. spec_Root (b_Spec b) = Some rt \<and> root_Path rt = ''rootfs''"
proof -
  obtain spec b0 ms b1 where r: "resolveRootfsPath \<lparr>b_Path = path, b_Spec = spec, b_Rootfs = '''', b_extraFiles = []\<rparr> = Inr b0"
    and t: "transformBinds rd [] (spec_Mounts (b_Spec b0)) b0 = Inr (ms, b1)"
    and b: "b = AdaptForVM caps (b1\<lparr>b_Spec := (b_Spec b1)\<lparr>spec_Mounts := ms\<rparr>\<rparr>)"
    using assms by (rule LoadForCreate_parts)
  have "\<exists>rt. spec_Root (b_Spec b0) = Some rt \<and> root_Path rt = ''rootfs''"
    using r by (auto simp: resolveRootfsPath_def Let_def split: option.splits)
  then show ?thesis using transformBinds_root [OF t] unfolding b by (simp add: AdaptForVM_def Let_def)
qed

lemma bundle_Files_good:
  assumes "goodFiles b" "bundle_Files marshal b = Inr rs"
  shows "distinct (map fst rs)" "f \<in> set (map fst rs) \<Longrightarrow> plainName f \<or> f = ''/''"
    "\<exists>bytes. marshal (b_Spec b) = Inr bytes \<and> map_of rs ''config.json'' = Some bytes"
proof -
  obtain bytes where m: "marshal (b_Spec b) = Inr bytes" and rs: "rs = AList.update ''config.json'' bytes (b_extraFiles b)"
    using assms(2) by (auto simp: bundle_Files_def split: sum.splits)
  show "distinct (map fst rs)"
    unfolding rs using assms(1) by (intro distinct_update) (simp add: goodFiles_def)
  have k: "set (map fst rs) = insert ''config.json'' (set (map fst (b_extraFiles b)))"
    unfolding rs update_keys by auto
  have c: "plainName ''config.json''" by (simp add: plainName_def)
  have g: "plainName f \<or> f = ''/''" if "f \<in> set (map fst (b_extraFiles b))" for f
    using that assms(1) unfolding goodFiles_def by blast
  show "plainName f \<or> f = ''/''" if "f \<in> set (map fst rs)"
  proof (cases "f = ''config.json''")
    case False
    then show ?thesis using that g unfolding k insert_iff by iprover
  qed (use c in \<open>simp only: simp_thms\<close>)
  show "\<exists>bytes. marshal (b_Spec b) = Inr bytes \<and> map_of rs ''config.json'' = Some bytes"
    using m unfolding rs by (simp add: update_Some_unfold)
qed


definition bindSpec :: Spec where
  "bindSpec = demoSpec\<lparr>spec_Mounts := [\<lparr>om_Destination = ''/etc/hosts'', om_Type = ''bind'', om_Source = ''/b/hosts'', om_Options = []\<rparr>]\<rparr>"

definition bindBundle :: Bundle where
  "bindBundle = AdaptForVM [''CAP_KILL'']
     \<lparr>b_Path = ''/b'',
      b_Spec = demoSpec\<lparr>spec_Mounts := [\<lparr>om_Destination = ''/etc/hosts'', om_Type = ''bind'', om_Source = ''hosts'', om_Options = []\<rparr>]\<rparr>,
      b_Rootfs = ''/b/rootfs'', b_extraFiles = [(''hosts'', ''/b/hosts'')]\<rparr>"

definition quietFs :: "unit guest_fs" where
  "quietFs = \<lparr>gf_mkdir = \<lambda>p w. (None, w), gf_writeFile = \<lambda>p c w. (None, w), gf_removeAll = \<lambda>p w. w\<rparr>"

lemma bind_paths:
  "pathBase ''/b/hosts'' = ''hosts''" "pathBase (pathDir ''/b/hosts'') = pathBase ''/b''" "pathClean ''hosts'' = ''hosts''"
  "pathBase ''hosts'' = ''hosts''" "pathJoin [''/b'', ''rootfs''] = ''/b/rootfs''" "isAbs ''rootfs'' = False"
  by code_simp+

lemma bind_loaded: "LoadForCreate Inr (\<lambda>_. Inr bindSpec) [''CAP_KILL''] ''/b'' = Inr bindBundle"
  by (simp add: LoadForCreate_def bundle_Load_def resolveRootfsPath_def TransformBindMounts_def AddExtraFile_def bindSpec_def demoSpec_def
      bindBundle_def bind_paths Let_def)


end
