(* ===== verification/Supervisor_Agent.thy ===== *)
theory Supervisor_Agent
  imports Oci_Bundle Qemu_Command
begin

text \<open>
  The supervisor agent on its way into the VM: its configuration from the annotations of the
  container (\<^verbatim>\<open>internal/shim/supervisor/supervisor.go\<close>), and the guest that reads it back from the kernel
  command line, looks for the binary and starts it (\<^verbatim>\<open>internal/guest/vminit/supervisor/supervisor.go\<close>, with
  the retry loop of \<^verbatim>\<open>cmd/vminitd/main.go\<close>).

  A missing annotation reads as the empty string, as for a Go map. The guest's system calls are
  functions of an environment record.
\<close>

section \<open>The configuration on the host\<close>

record SupervisorConfig =
  sc_Enabled :: bool
  sc_WorkspaceID :: string
  sc_Secret :: string
  sc_MetadataAddr :: string
  sc_ControlPlane :: string
  sc_BinaryPath :: string
  sc_BinaryContent :: string

definition AnnotationEnabled :: string where "AnnotationEnabled = ''io.spin.supervisor.enabled''"
definition AnnotationWorkspaceID :: string where "AnnotationWorkspaceID = ''io.spin.supervisor.workspace_id''"
definition AnnotationSecret :: string where "AnnotationSecret = ''io.spin.supervisor.secret''"
definition AnnotationMetadataAddr :: string where "AnnotationMetadataAddr = ''io.spin.supervisor.metadata_addr''"
definition AnnotationControlPlane :: string where "AnnotationControlPlane = ''io.spin.supervisor.control_plane''"
definition AnnotationBinaryPath :: string where "AnnotationBinaryPath = ''io.spin.supervisor.binary_path''"

definition DefaultMetadataAddr :: string where "DefaultMetadataAddr = ''169.254.169.254:80''"
definition DefaultBinaryPath :: string where "DefaultBinaryPath = ''/usr/local/bin/spin-supervisor''"
definition BundleFileName :: string where "BundleFileName = ''spin-supervisor''"

definition mapGet :: "(string \<rightharpoonup> string) \<Rightarrow> string \<Rightarrow> string" where
  "mapGet m k = (case m k of None \<Rightarrow> '''' | Some v \<Rightarrow> v)"

definition FromAnnotations :: "Spec \<Rightarrow> SupervisorConfig option" where
  "FromAnnotations spec =
     (let a = mapGet (spec_Annotations spec)
      in if a AnnotationEnabled \<noteq> ''true'' then None
         else Some
           \<lparr>sc_Enabled = True, sc_WorkspaceID = a AnnotationWorkspaceID, sc_Secret = a AnnotationSecret,
            sc_MetadataAddr = (if a AnnotationMetadataAddr = '''' then DefaultMetadataAddr else a AnnotationMetadataAddr),
            sc_ControlPlane = a AnnotationControlPlane,
            sc_BinaryPath = (if a AnnotationBinaryPath = '''' then DefaultBinaryPath else a AnnotationBinaryPath),
            sc_BinaryContent = ''''\<rparr>)"

definition sup_Validate :: "SupervisorConfig \<Rightarrow> goerr option" where
  "sup_Validate c =
     (if \<not> sc_Enabled c then None
      else if sc_WorkspaceID c = '''' then Some (Errorf (''supervisor: missing required annotation '' @ AnnotationWorkspaceID))
      else if sc_Secret c = '''' then Some (Errorf (''supervisor: missing required annotation '' @ AnnotationSecret))
      else if sc_ControlPlane c = '''' then Some (Errorf (''supervisor: missing required annotation '' @ AnnotationControlPlane))
      else None)"

definition LoadBinary :: "(string \<Rightarrow> goerr + string) \<Rightarrow> SupervisorConfig \<Rightarrow> goerr + SupervisorConfig" where
  "LoadBinary readFile c =
     (if \<not> sc_Enabled c then Inr c
      else
        (let cleanPath = pathClean (sc_BinaryPath c)
         in if \<not> isAbs cleanPath then Inl (Errorf (''supervisor: binary path must be absolute: '' @ sc_BinaryPath c))
            else
              (case readFile cleanPath of
                 Inl err \<Rightarrow> Inl (WrapErr (''supervisor: failed to read binary from '' @ cleanPath) err)
               | Inr data \<Rightarrow> Inr (c\<lparr>sc_BinaryContent := data\<rparr>))))"

definition sup_InitArgs :: "SupervisorConfig \<Rightarrow> string list" where
  "sup_InitArgs c =
     (if \<not> sc_Enabled c then []
      else
        [''spin.workspace_id='' @ sc_WorkspaceID c, ''spin.secret='' @ sc_Secret c,
         ''spin.metadata_addr='' @ sc_MetadataAddr c, ''spin.control_plane='' @ sc_ControlPlane c])"

section \<open>The configuration in the guest\<close>

record GuestSupervisor =
  gs_WorkspaceID :: string
  gs_Secret :: string
  gs_MetadataAddr :: string
  gs_ControlPlane :: string
  gs_BinaryPath :: string
  gs_ContainerID :: string
  gs_Namespace :: string

record 'w guest_os =
  go_cmdline :: "'w \<Rightarrow> goerr + string"
  go_readDir :: "string \<Rightarrow> 'w \<Rightarrow> goerr + (string \<times> bool) list"
  go_stat :: "string \<Rightarrow> 'w \<Rightarrow> goerr option"
  go_chmod :: "string \<Rightarrow> 'w \<Rightarrow> goerr option \<times> 'w"
  go_mkdirAll :: "string \<Rightarrow> 'w \<Rightarrow> goerr option \<times> 'w"
  go_openAppend :: "string \<Rightarrow> 'w \<Rightarrow> (goerr + nat) \<times> 'w"
  go_open :: "string \<Rightarrow> 'w \<Rightarrow> (goerr + nat) \<times> 'w"
  go_environ :: "'w \<Rightarrow> string list"
  go_startCmd :: "string \<Rightarrow> nat option \<Rightarrow> string list \<Rightarrow> 'w \<Rightarrow> (goerr + int) \<times> 'w"
  go_writeFile :: "string \<Rightarrow> string \<Rightarrow> 'w \<Rightarrow> goerr option \<times> 'w"
  go_release :: "int \<Rightarrow> 'w \<Rightarrow> goerr option \<times> 'w"
  go_close :: "nat option \<Rightarrow> 'w \<Rightarrow> 'w"
  go_sleep :: "duration \<Rightarrow> 'w \<Rightarrow> 'w"

definition ParamWorkspaceID :: string where "ParamWorkspaceID = ''spin.workspace_id''"
definition ParamSecret :: string where "ParamSecret = ''spin.secret''"
definition ParamMetadataAddr :: string where "ParamMetadataAddr = ''spin.metadata_addr''"
definition ParamControlPlane :: string where "ParamControlPlane = ''spin.control_plane''"
definition BundleBasePath :: string where "BundleBasePath = ''/run/spinbox''"
definition BinaryName :: string where "BinaryName = ''spin-supervisor''"
definition PidFile :: string where "PidFile = ''/run/spin-supervisor.pid''"
definition LogFile :: string where "LogFile = ''/var/log/spin-supervisor.log''"

text \<open>One parameter: the configuration so far and whether a parameter was found.\<close>

definition parseParam :: "string \<Rightarrow> GuestSupervisor \<times> bool \<Rightarrow> GuestSupervisor \<times> bool" where
  "parseParam param = (\<lambda>(cfg, found).
     case cutPrefix param (ParamWorkspaceID @ ''='') of
       Some v \<Rightarrow> (cfg\<lparr>gs_WorkspaceID := v\<rparr>, True)
     | None \<Rightarrow>
         (case cutPrefix param (ParamSecret @ ''='') of
            Some v \<Rightarrow> (cfg\<lparr>gs_Secret := v\<rparr>, True)
          | None \<Rightarrow>
              (case cutPrefix param (ParamMetadataAddr @ ''='') of
                 Some v \<Rightarrow> (cfg\<lparr>gs_MetadataAddr := v\<rparr>, True)
               | None \<Rightarrow>
                   (case cutPrefix param (ParamControlPlane @ ''='') of
                      Some v \<Rightarrow> (cfg\<lparr>gs_ControlPlane := v\<rparr>, True)
                    | None \<Rightarrow> (cfg, found)))))"

definition emptySupervisor :: GuestSupervisor where
  "emptySupervisor = \<lparr>gs_WorkspaceID = '''', gs_Secret = '''', gs_MetadataAddr = '''', gs_ControlPlane = '''',
     gs_BinaryPath = '''', gs_ContainerID = '''', gs_Namespace = ''''\<rparr>"

definition ParseFromCmdline :: "goerr + string \<Rightarrow> goerr + GuestSupervisor option" where
  "ParseFromCmdline cmdline =
     (case cmdline of
        Inl err \<Rightarrow> Inl (WrapErr ''failed to read /proc/cmdline'' err)
      | Inr line \<Rightarrow>
          (case fold parseParam (fieldsFrom [] line) (emptySupervisor, False) of
             (cfg, False) \<Rightarrow> Inr None
           | (cfg, True) \<Rightarrow>
               Inr (Some (if gs_MetadataAddr cfg = '''' then cfg\<lparr>gs_MetadataAddr := DefaultMetadataAddr\<rparr> else cfg))))"

definition gsup_Validate :: "GuestSupervisor \<Rightarrow> goerr option" where
  "gsup_Validate c =
     (if gs_WorkspaceID c = '''' then Some (Errorf (''missing '' @ ParamWorkspaceID @ '' in kernel cmdline''))
      else if gs_Secret c = '''' then Some (Errorf (''missing '' @ ParamSecret @ '' in kernel cmdline''))
      else if gs_ControlPlane c = '''' then Some (Errorf (''missing '' @ ParamControlPlane @ '' in kernel cmdline''))
      else None)"

section \<open>Finding and starting the binary\<close>

fun findInIds :: "'w guest_os \<Rightarrow> string \<Rightarrow> (string \<times> bool) list \<Rightarrow> 'w \<Rightarrow> (string \<times> string) option" where
  "findInIds os nsPath [] w = None"
| "findInIds os nsPath ((idName, isDir) # es) w =
     (if \<not> isDir then findInIds os nsPath es w
      else
        (let binaryPath = pathJoin [nsPath, idName, BinaryName]
         in case go_stat os binaryPath w of
              None \<Rightarrow> Some (binaryPath, idName)
            | Some err \<Rightarrow> findInIds os nsPath es w))"

fun findInNamespaces :: "'w guest_os \<Rightarrow> (string \<times> bool) list \<Rightarrow> 'w \<Rightarrow> (string \<times> string \<times> string) option" where
  "findInNamespaces os [] w = None"
| "findInNamespaces os ((nsName, isDir) # es) w =
     (if \<not> isDir then findInNamespaces os es w
      else
        (let nsPath = pathJoin [BundleBasePath, nsName]
         in case go_readDir os nsPath w of
              Inl err \<Rightarrow> findInNamespaces os es w
            | Inr idEntries \<Rightarrow>
                (case findInIds os nsPath idEntries w of
                   Some (binaryPath, idName) \<Rightarrow> Some (binaryPath, nsName, idName)
                 | None \<Rightarrow> findInNamespaces os es w)))"

definition FindBinary :: "'w guest_os \<Rightarrow> GuestSupervisor \<Rightarrow> 'w \<Rightarrow> goerr + GuestSupervisor" where
  "FindBinary os c w =
     (case go_readDir os BundleBasePath w of
        Inl err \<Rightarrow> Inl (WrapErr ''failed to read bundle base path'' err)
      | Inr entries \<Rightarrow>
          (case findInNamespaces os entries w of
             Some (p, ns, i) \<Rightarrow> Inr (c\<lparr>gs_BinaryPath := p, gs_Namespace := ns, gs_ContainerID := i\<rparr>)
           | None \<Rightarrow> Inl (Errorf (''supervisor binary not found in '' @ BundleBasePath))))"

definition supervisorEnv :: "GuestSupervisor \<Rightarrow> string list" where
  "supervisorEnv c =
     [''SPIN_WORKSPACE_ID='' @ gs_WorkspaceID c, ''SPIN_SECRET='' @ gs_Secret c,
      ''SPIN_METADATA_ADDR='' @ gs_MetadataAddr c, ''SPIN_CONTROL_PLANE='' @ gs_ControlPlane c]"

text \<open>The log file, or the null device; nil when neither opens.\<close>

definition openSupervisorLog :: "'w guest_os \<Rightarrow> 'w \<Rightarrow> nat option \<times> 'w" where
  "openSupervisorLog os w =
     (case go_openAppend os LogFile w of
        (Inr f, w1) \<Rightarrow> (Some f, w1)
      | (Inl err, w1) \<Rightarrow>
          (case go_open os ''/dev/null'' w1 of
             (Inr f, w2) \<Rightarrow> (Some f, w2)
           | (Inl err2, w2) \<Rightarrow> (None, w2)))"

definition gsup_Start :: "'w guest_os \<Rightarrow> GuestSupervisor \<Rightarrow> 'w \<Rightarrow> (goerr + int) \<times> 'w" where
  "gsup_Start os c w =
     (if gs_BinaryPath c = '''' then (Inl (Errorf ''supervisor binary path not set''), w)
      else
        (case go_chmod os (gs_BinaryPath c) w of
           (Some err, w1) \<Rightarrow> (Inl (WrapErr ''failed to make supervisor binary executable'' err), w1)
         | (None, w1) \<Rightarrow>
             (let (_, w2) = go_mkdirAll os (pathDir LogFile) w1;
                  (logFile, w3) = openSupervisorLog os w2
              in case go_startCmd os (gs_BinaryPath c) logFile (go_environ os w3 @ supervisorEnv c) w3 of
                   (Inl err, w4) \<Rightarrow> (Inl (WrapErr ''failed to start supervisor'' err), go_close os logFile w4)
                 | (Inr pid, w4) \<Rightarrow>
                     (let (_, w5) = go_writeFile os PidFile (itoa pid @ [CHR 0x0A]) w4;
                          (_, w6) = go_release os pid w5
                      in (Inr pid, go_close os logFile w6)))))"

definition StartSupervisor :: "'w guest_os \<Rightarrow> 'w \<Rightarrow> goerr option \<times> 'w" where
  "StartSupervisor os w =
     (case ParseFromCmdline (go_cmdline os w) of
        Inl err \<Rightarrow> (Some (WrapErr ''failed to parse supervisor config'' err), w)
      | Inr None \<Rightarrow> (None, w)
      | Inr (Some cfg) \<Rightarrow>
          (case gsup_Validate cfg of
             Some err \<Rightarrow> (Some (WrapErr ''invalid supervisor config'' err), w)
           | None \<Rightarrow>
               (case FindBinary os cfg w of
                  Inl err \<Rightarrow> (None, w)
                | Inr cfg1 \<Rightarrow>
                    (case gsup_Start os cfg1 w of
                       (Inl err, w1) \<Rightarrow> (Some (WrapErr ''failed to start supervisor'' err), w1)
                     | (Inr pid, w1) \<Rightarrow> (None, w1)))))"

text \<open>The goroutine of \<open>vminitd\<close> that starts the supervisor: \<open>n\<close> attempts are left, and this one is
  number \<open>10 - n\<close>.\<close>

fun superviseLoop :: "'w guest_os \<Rightarrow> nat \<Rightarrow> 'w \<Rightarrow> 'w" where
  "superviseLoop os 0 w = w"
| "superviseLoop os (Suc n) w =
     (case StartSupervisor os w of
        (Some err, w1) \<Rightarrow> superviseLoop os n (go_sleep os (int (10 - n) * Second) w1)
      | (None, w1) \<Rightarrow> w1)"

definition startSupervision :: "'w guest_os \<Rightarrow> 'w \<Rightarrow> 'w" where
  "startSupervision os w = superviseLoop os 10 (go_sleep os (2 * Second) w)"

section \<open>The configuration arrives\<close>

subsection \<open>Fields of a command line\<close>

text \<open>A word without white space; the bytes are ASCII, so that no other Unicode space is in it.\<close>

definition solid :: "string \<Rightarrow> bool" where
  "solid s \<longleftrightarrow> list_all (\<lambda>c. \<not> isSpace c \<and> of_char c < (128 :: nat)) s"

lemma solid_simps [simp]:
  "solid []" "solid (c # s) \<longleftrightarrow> \<not> isSpace c \<and> of_char c < (128 :: nat) \<and> solid s"
  "solid (s @ t) \<longleftrightarrow> solid s \<and> solid t"
  by (simp_all add: solid_def)

lemma fields_word: "solid s \<Longrightarrow> fieldsFrom acc (s @ t) = fieldsFrom (rev s @ acc) t"
  by (induction s arbitrary: acc) simp_all

lemma space_is_space: "isSpace (CHR '' '')"
  by code_simp

lemma fields_join:
  "list_all (\<lambda>s. solid s \<and> s \<noteq> []) ss \<Longrightarrow> fieldsFrom [] (joinWith '' '' ss) = ss"
proof (induction ss)
  case Nil
  show ?case by simp
next
  case (Cons s ss)
  then have s: "solid s" "s \<noteq> []" and IH: "fieldsFrom [] (joinWith '' '' ss) = ss" by simp_all
  show ?case
  proof (cases ss)
    case Nil
    then show ?thesis using fields_word [OF s(1), of "[]" "[]"] s by simp
  next
    case (Cons t ts)
    then have "joinWith '' '' (s # ss) = s @ CHR '' '' # joinWith '' '' ss" by simp
    then show ?thesis using fields_word [OF s(1)] s IH space_is_space by simp
  qed
qed

lemma isDigit_solid: "isDigit c \<Longrightarrow> \<not> isSpace c \<and> of_char c < (128 :: nat)"
  by (auto simp: isDigit_def isSpace_def)

lemma solid_natStr [simp]: "solid (natStr n)"
  using natStr_chars isDigit_solid by (auto simp: solid_def list_all_iff)

lemma solid_itoa [simp]: "solid (itoa n)"
proof -
  have "\<not> isSpace (CHR ''-'') \<and> of_char (CHR ''-'') < (128 :: nat)" by code_simp
  then show ?thesis using itoa_chars isDigit_solid by (metis (no_types, lifting) list_all_iff solid_def)
qed

lemma solid_unquoted: "solid s \<Longrightarrow> formatArg s = s"
proof -
  assume "solid s"
  moreover have "isSpace (CHR '' '')" "isSpace (CHR 0x09)" "isSpace (CHR 0x0A)" by code_simp+
  ultimately show ?thesis by (auto simp: formatArg_def needsQuoting_def solid_def list_all_iff list_ex_iff)
qed

lemma fixed_solid:
  "solid ''quiet''" "solid ''systemd.show_status=0''" "solid ''systemd.log_level=warning''" "solid ''panic=1''"
  "solid ''net.ifnames=0''" "solid ''biosdevname=0''" "solid ''systemd.unified_cgroup_hierarchy=1''"
  "solid ''cgroup_no_v1=all''" "solid ''nohz=off''" "solid ''console=''" "solid ''loglevel=''"
  "solid ''init=/sbin/vminitd''" "solid ''--''" "solid ''-vsock-rpc-port=''" "solid ''-vsock-stream-port=''" "solid ''-vsock-cid=''"
  "solid ''ttyS0''" "solid ''spin.workspace_id=''" "solid ''spin.secret=''" "solid ''spin.metadata_addr=''" "solid ''spin.control_plane=''"
  by code_simp+

text \<open>The kernel command line is a list of words when the network parameter and the arguments are.\<close>

definition bootWords :: "32 word \<Rightarrow> StartOpts \<Rightarrow> string list" where
  "bootWords cid opts =
     [''console=ttyS0'', ''quiet'', ''loglevel=3'', ''systemd.show_status=0'', ''systemd.log_level=warning'', ''panic=1'',
      ''net.ifnames=0'', ''biosdevname=0'', ''systemd.unified_cgroup_hierarchy=1'', ''cgroup_no_v1=all'', ''nohz=off'']
     @ filter (\<lambda>p. p \<noteq> '''') [buildNetworkParam (so_NetworkConfig opts)]
     @ [''init=/sbin/vminitd'', ''--'', ''-vsock-rpc-port=1025'', ''-vsock-stream-port=1026'', ''-vsock-cid='' @ uint32Str cid]"

lemma joinWith_snoc_join:
  "joinWith s (xs @ [joinWith s (y # ys)]) = joinWith s (xs @ y # ys)"
proof (induction xs)
  case Nil
  show ?case by simp
next
  case (Cons x xs)
  have "joinWith s (x # ws) = x @ s @ joinWith s ws" if "ws \<noteq> []" for ws using that by (cases ws) simp_all
  then show ?case using Cons by simp
qed

lemma cmdline_fields:
  assumes "solid (buildNetworkParam (so_NetworkConfig opts))" "list_all (\<lambda>s. solid s \<and> s \<noteq> []) (so_InitArgs opts)"
  shows "fieldsFrom [] (buildKernelCommandLine cid opts) = bootWords cid opts @ so_InitArgs opts"
proof -
  let ?cfg = "DefaultKernelCmdlineConfig
    \<lparr>VsockCID := cid, Network := so_NetworkConfig opts, InitArgs := so_InitArgs opts\<rparr>"
  have args: "map formatArg (buildInitArgs ?cfg) = buildInitArgs ?cfg"
    using assms(2) solid_unquoted fixed_solid by (auto simp: buildInitArgs_def uint32Str_def list_all_iff intro!: map_idI)
  obtain a as where b: "buildInitArgs ?cfg = a # as" by (simp add: buildInitArgs_def)
  have j: "''init=/sbin/vminitd -- '' @ formatInitArgs (buildInitArgs ?cfg)
      = joinWith '' '' (''init=/sbin/vminitd'' # ''--'' # buildInitArgs ?cfg)"
    unfolding formatInitArgs_def args unfolding b by simp
  have "buildKernelCommandLine cid opts
      = joinWith '' '' (cmdlineParts ?cfg @ ''init=/sbin/vminitd'' # ''--'' # buildInitArgs ?cfg)"
    unfolding buildKernelCommandLine_def BuildKernelCmdline_def j by (rule joinWith_snoc_join)
  also have "cmdlineParts ?cfg @ ''init=/sbin/vminitd'' # ''--'' # buildInitArgs ?cfg = bootWords cid opts @ so_InitArgs opts"
    by (simp add: cmdlineParts_def DefaultKernelCmdlineConfig_def bootWords_def buildInitArgs_def uint32Str_def
        DefaultRPCPort_def DefaultStreamPort_def itoa_def natStr_eval)
  finally have c: "buildKernelCommandLine cid opts = joinWith '' '' (bootWords cid opts @ so_InitArgs opts)" .
  have "solid ''console=ttyS0''" "solid ''loglevel=3''" "solid ''-vsock-rpc-port=1025''" "solid ''-vsock-stream-port=1026''"
    by code_simp+
  moreover have "solid (''-vsock-cid='' @ natStr (unat cid))"
    using fixed_solid(16) solid_natStr by (simp only: solid_simps(3))
  ultimately have "list_all (\<lambda>s. solid s \<and> s \<noteq> []) (bootWords cid opts @ so_InitArgs opts)"
    using assms fixed_solid unfolding bootWords_def uint32Str_def by (simp del: solid_simps(2))
  then show ?thesis unfolding c by (rule fields_join)
qed

subsection \<open>Parsing the fields\<close>

definition spinParam :: "string \<Rightarrow> bool" where
  "spinParam p \<longleftrightarrow> hasPrefix p ''spin.''"

lemma parseParam_other: "\<not> spinParam p \<Longrightarrow> parseParam p s = s"
proof -
  assume n: "\<not> spinParam p"
  have "\<not> hasPrefix p (''spin.'' @ q)" for q
  proof
    assume "hasPrefix p (''spin.'' @ q)"
    then have "spinParam p" unfolding spinParam_def hasPrefix_iff by auto
    with n show False ..
  qed
  from this [of "''workspace_id=''"] this [of "''secret=''"] this [of "''metadata_addr=''"] this [of "''control_plane=''"]
  show ?thesis
    by (cases s) (simp add: parseParam_def cutPrefix_def ParamWorkspaceID_def ParamSecret_def ParamMetadataAddr_def ParamControlPlane_def)
qed

lemma parse_others: "list_all (\<lambda>p. \<not> spinParam p) ps \<Longrightarrow> fold parseParam ps s = s"
  by (induction ps) (simp_all add: parseParam_other)

lemma parse_params:
  "parseParam (''spin.workspace_id='' @ v) (cfg, f) = (cfg\<lparr>gs_WorkspaceID := v\<rparr>, True)"
  "parseParam (''spin.secret='' @ v) (cfg, f) = (cfg\<lparr>gs_Secret := v\<rparr>, True)"
  "parseParam (''spin.metadata_addr='' @ v) (cfg, f) = (cfg\<lparr>gs_MetadataAddr := v\<rparr>, True)"
  "parseParam (''spin.control_plane='' @ v) (cfg, f) = (cfg\<lparr>gs_ControlPlane := v\<rparr>, True)"
  by (simp_all add: parseParam_def cutPrefix_def hasPrefix_def ParamWorkspaceID_def ParamSecret_def ParamMetadataAddr_def ParamControlPlane_def)

lemma bootWords_other: "list_all (\<lambda>p. \<not> spinParam p) (bootWords cid opts)"
proof -
  have "\<not> spinParam (buildNetworkParam n)" for n
    by (auto simp: buildNetworkParam_def spinParam_def hasPrefix_def split: option.splits)
  then show ?thesis by (simp add: bootWords_def spinParam_def hasPrefix_def)
qed

text \<open>C38. The supervisor's configuration reaches the guest: what the shim reads from valid annotations and
  passes as kernel arguments is, when no value has white space in it, exactly what the guest parses from its
  command line, defaults included, and the guest accepts it.\<close>

theorem supervisor_config_reaches_guest:
  assumes "FromAnnotations spec = Some c" "sup_Validate c = None" "so_InitArgs opts = sup_InitArgs c"
    "solid (sc_WorkspaceID c)" "solid (sc_Secret c)" "solid (sc_MetadataAddr c)" "solid (sc_ControlPlane c)"
    "solid (buildNetworkParam (so_NetworkConfig opts))"
  shows "\<exists>g. ParseFromCmdline (Inr (buildKernelCommandLine cid opts)) = Inr (Some g) \<and> gsup_Validate g = None
    \<and> gs_WorkspaceID g = sc_WorkspaceID c \<and> gs_Secret g = sc_Secret c
    \<and> gs_MetadataAddr g = sc_MetadataAddr c \<and> gs_ControlPlane g = sc_ControlPlane c"
proof -
  have en: "sc_Enabled c" "sc_MetadataAddr c \<noteq> ''''"
    using assms(1) by (auto simp: FromAnnotations_def Let_def DefaultMetadataAddr_def split: if_splits)
  have ne: "sc_WorkspaceID c \<noteq> ''''" "sc_Secret c \<noteq> ''''" "sc_ControlPlane c \<noteq> ''''"
    using assms(2) en(1) by (auto simp: sup_Validate_def split: if_splits)
  have "solid (''spin.workspace_id='' @ sc_WorkspaceID c)" "solid (''spin.secret='' @ sc_Secret c)"
    "solid (''spin.metadata_addr='' @ sc_MetadataAddr c)" "solid (''spin.control_plane='' @ sc_ControlPlane c)"
    by (simp_all only: solid_simps(3) fixed_solid assms(4-7) simp_thms)
  then have "list_all (\<lambda>s. solid s \<and> s \<noteq> []) (so_InitArgs opts)"
    using en(1) by (simp add: assms(3) sup_InitArgs_def del: solid_simps)
  then have "fieldsFrom [] (buildKernelCommandLine cid opts) = bootWords cid opts @ sup_InitArgs c"
    using cmdline_fields [OF assms(8)] assms(3) by simp
  then show ?thesis
    using en ne by (simp add: ParseFromCmdline_def parse_others [OF bootWords_other] sup_InitArgs_def parse_params
        gsup_Validate_def del: append_Cons)
qed

definition agentSpec :: Spec where
  "agentSpec = demoSpec\<lparr>spec_Annotations := map_of
     [(AnnotationEnabled, ''true''), (AnnotationWorkspaceID, ''w1''), (AnnotationSecret, ''ab''), (AnnotationControlPlane, ''cp:1'')]\<rparr>"

theorem supervisor_config_reaches_guest_witness:
  "\<exists>c g. FromAnnotations agentSpec = Some c \<and> gs_WorkspaceID g = ''w1'' \<and> gs_MetadataAddr g = ''169.254.169.254:80''
     \<and> ParseFromCmdline (Inr (buildKernelCommandLine 7
         \<lparr>so_InitArgs = sup_InitArgs c, so_NetworkConfig = None, so_NetworkNamespace = ''''\<rparr>)) = Inr (Some g)"
proof -
  let ?c = "\<lparr>sc_Enabled = True, sc_WorkspaceID = ''w1'', sc_Secret = ''ab'', sc_MetadataAddr = ''169.254.169.254:80'',
    sc_ControlPlane = ''cp:1'', sc_BinaryPath = DefaultBinaryPath, sc_BinaryContent = ''''\<rparr>"
  let ?o = "\<lparr>so_InitArgs = sup_InitArgs ?c, so_NetworkConfig = None, so_NetworkNamespace = ''''\<rparr>"
  have f: "FromAnnotations agentSpec = Some ?c"
    by (simp add: FromAnnotations_def agentSpec_def Let_def mapGet_def AnnotationEnabled_def AnnotationWorkspaceID_def
        AnnotationSecret_def AnnotationMetadataAddr_def AnnotationControlPlane_def AnnotationBinaryPath_def DefaultMetadataAddr_def)
  have v: "sup_Validate ?c = None" by (simp add: sup_Validate_def)
  have s: "solid ''w1''" "solid ''ab''" "solid ''169.254.169.254:80''" "solid ''cp:1''" by code_simp+
  have n: "solid (buildNetworkParam (so_NetworkConfig ?o))" by (simp add: buildNetworkParam_def)
  have "so_InitArgs ?o = sup_InitArgs ?c" by simp
  from supervisor_config_reaches_guest [OF f v this _ _ _ _ n, of 7] s f show ?thesis
    by (simp del: solid_simps) blast
qed

section \<open>The binary is not found\<close>

text \<open>The paths that exist after the given calls on the file system: those there before, and the
  created ones.\<close>

definition createdPaths :: "fsEvent list \<Rightarrow> string list" where
  "createdPaths l = concat (map (\<lambda>ev. case ev of FsMkdir p \<Rightarrow> [p] | FsWrite p c \<Rightarrow> [p] | FsRemove p \<Rightarrow> []) l)"

text \<open>The guest's directory listings give plain names, and a path exists only when it was there before or
  has been created.\<close>

definition guestFiles :: "string list \<Rightarrow> 'w guest_os \<Rightarrow> 'w \<Rightarrow> bool" where
  "guestFiles ps os w \<longleftrightarrow>
     (\<forall>d es e. go_readDir os d w = Inr es \<longrightarrow> e \<in> set es \<longrightarrow> plainName (fst e))
     \<and> (\<forall>p. go_stat os p w = None \<longrightarrow> p \<in> set ps)"

lemma confined_under_bundles:
  assumes "confined i rs ev" "p \<in> set (createdPaths [ev])"
  shows "hasPrefix p bundleRootDir"
proof -
  have d: "hasPrefix (bundleDir i @ s) bundleRootDir" for s
    by (simp add: bundleDir_def hasPrefix_def)
  have "p = bundleDir i \<or> p = bundleDir i @ ''/rootfs'' \<or> (\<exists>f. p = bundleDir i @ ''/'' @ f)"
    using assms by (cases ev) (auto simp: createdPaths_def confined_def list_ex_iff)
  then show ?thesis using d [of "''''"] d by auto
qed

lemma created_under_bundles:
  "list_all (confined i rs) l \<Longrightarrow> p \<in> set (createdPaths l) \<Longrightarrow> hasPrefix p bundleRootDir"
  using confined_under_bundles by (fastforce simp: createdPaths_def list_all_iff)

lemma binary_path:
  assumes "plainName n" "plainName i"
  shows "pathJoin [BundleBasePath, n] = absPath [''run'', ''spinbox'', n]"
    and "pathJoin [absPath [''run'', ''spinbox'', n], i, BinaryName] = absPath [''run'', ''spinbox'', n, i, ''spin-supervisor'']"
proof -
  have "plainName ''run''" "plainName ''spinbox''" "plainName ''spin-supervisor''" by (simp_all add: plainName_def)
  then show "pathJoin [BundleBasePath, n] = absPath [''run'', ''spinbox'', n]"
    "pathJoin [absPath [''run'', ''spinbox'', n], i, BinaryName] = absPath [''run'', ''spinbox'', n, i, ''spin-supervisor'']"
    using pathJoin_absPath [of "[''run'', ''spinbox'']" "[n]"] pathJoin_absPath [of "[''run'', ''spinbox'', n]" "[i, ''spin-supervisor'']"] assms
    by (simp_all add: BundleBasePath_def BinaryName_def absPath_def)
qed

lemma not_under_base:
  "hasPrefix p bundleRootDir \<Longrightarrow> \<not> hasPrefix p (absPath [''run'', ''spinbox'']  @ ''/'')"
  by (auto simp: hasPrefix_iff bundleRootDir_def absPath_def)

lemma findInIds_None:
  assumes "plainName n" "\<forall>e \<in> set es. plainName (fst e)"
    "\<And>i. plainName i \<Longrightarrow> go_stat os (absPath [''run'', ''spinbox'', n, i, ''spin-supervisor'']) w \<noteq> None"
  shows "findInIds os (absPath [''run'', ''spinbox'', n]) es w = None"
  using assms(2)
proof (induction es)
  case (Cons e es)
  obtain i dir where e: "e = (i, dir)" by (metis surj_pair)
  then have i: "plainName i" using Cons.prems by simp
  obtain err where "go_stat os (absPath [''run'', ''spinbox'', n, i, ''spin-supervisor'']) w = Some err"
    using assms(3) [OF i] by auto
  then show ?case using Cons e binary_path(2) [OF assms(1) i] by (simp add: Let_def)
qed simp

lemma findInNamespaces_None:
  assumes "\<forall>e \<in> set es. plainName (fst e)" "\<And>d es e. go_readDir os d w = Inr es \<Longrightarrow> e \<in> set es \<Longrightarrow> plainName (fst e)"
    "\<And>n i. plainName n \<Longrightarrow> plainName i \<Longrightarrow> go_stat os (absPath [''run'', ''spinbox'', n, i, ''spin-supervisor'']) w \<noteq> None"
  shows "findInNamespaces os es w = None"
  using assms(1)
proof (induction es)
  case (Cons e es)
  obtain n dir where e: "e = (n, dir)" by (metis surj_pair)
  then have n: "plainName n" using Cons.prems by simp
  have "findInIds os (absPath [''run'', ''spinbox'', n]) ids w = None" if "go_readDir os (absPath [''run'', ''spinbox'', n]) w = Inr ids" for ids
    using assms(2) [OF that] assms(3) [OF n] n by (intro findInIds_None) auto
  then show ?case using Cons e binary_path(1) [OF n n] by (simp add: Let_def split: sum.splits)
qed simp

lemma FindBinary_fails:
  assumes "guestFiles ps os w" "list_all (\<lambda>p. \<not> hasPrefix p (absPath [''run'', ''spinbox''] @ ''/'')) ps"
  shows "\<exists>err. FindBinary os c w = Inl err"
proof -
  have e: "plainName (fst e)" if "go_readDir os d w = Inr es" "e \<in> set es" for d es e
    using assms(1) that unfolding guestFiles_def by blast
  have s: "go_stat os (absPath [''run'', ''spinbox'', n, i, ''spin-supervisor'']) w \<noteq> None" for n i
  proof
    assume "go_stat os (absPath [''run'', ''spinbox'', n, i, ''spin-supervisor'']) w = None"
    then have "absPath [''run'', ''spinbox'', n, i, ''spin-supervisor''] \<in> set ps"
      using assms(1) unfolding guestFiles_def by blast
    then have "\<not> hasPrefix (absPath [''run'', ''spinbox'', n, i, ''spin-supervisor'']) (absPath [''run'', ''spinbox''] @ ''/'')"
      using assms(2) unfolding list_all_iff by blast
    then show False by (simp add: absPath_def hasPrefix_def)
  qed
  show ?thesis
  proof (cases "go_readDir os BundleBasePath w")
    case (Inr es)
    then have "findInNamespaces os es w = None" using e s by (intro findInNamespaces_None) blast+
    then show ?thesis using Inr by (simp add: FindBinary_def)
  qed (simp add: FindBinary_def)
qed

text \<open>C39. The supervisor is never started: the guest looks for its binary below \<^verbatim>\<open>/run/spinbox\<close>, but the bundle
  service puts every file below \<^verbatim>\<open>/run/bundles\<close>. Whatever the bundle holds, a guest that had nothing below
  \<^verbatim>\<open>/run/spinbox\<close> and a valid configuration takes the missing binary for success after the first attempt,
  starts nothing and does not try again.\<close>

theorem supervisor_never_started:
  assumes "bundle_Create (loggedFs fs) bundleRootDir i rs (v, []) = (r, v', l)"
    "list_all (\<lambda>p. \<not> hasPrefix p ''/run/spinbox/'') before"
    "guestFiles (before @ createdPaths l) os (go_sleep os (2 * Second) w)"
    "ParseFromCmdline (go_cmdline os (go_sleep os (2 * Second) w)) = Inr (Some g)" "gsup_Validate g = None"
  shows "StartSupervisor os (go_sleep os (2 * Second) w) = (None, go_sleep os (2 * Second) w)
    \<and> startSupervision os w = go_sleep os (2 * Second) w"
proof -
  let ?w = "go_sleep os (2 * Second) w"
  have c: "list_all (confined i rs) l" using confined_events [where fs = fs and i = i and rs = rs and w = v] assms(1) by simp
  have "\<not> hasPrefix p (absPath [''run'', ''spinbox''] @ ''/'')" if "p \<in> set (createdPaths l)" for p
    using created_under_bundles [OF c that] by (rule not_under_base)
  then have "list_all (\<lambda>p. \<not> hasPrefix p (absPath [''run'', ''spinbox''] @ ''/'')) (before @ createdPaths l)"
    using assms(2) by (auto simp: list_all_iff absPath_def)
  from FindBinary_fails [OF assms(3) this] obtain err where "FindBinary os g ?w = Inl err" by blast
  then have "StartSupervisor os ?w = (None, ?w)" using assms(4,5) by (simp add: StartSupervisor_def)
  then show ?thesis by (simp add: startSupervision_def numeral_eq_Suc)
qed


text \<open>A guest with the annotated container's command line and the bundle that holds the binary.\<close>

definition agentGuest :: "string list \<Rightarrow> string \<Rightarrow> int guest_os" where
  "agentGuest ps line =
     \<lparr>go_cmdline = \<lambda>w. Inr line, go_readDir = \<lambda>d w. Inr [],
      go_stat = \<lambda>p w. if p \<in> set ps then None else Some (Errno ''ENOENT''),
      go_chmod = \<lambda>p w. (None, w), go_mkdirAll = \<lambda>p w. (None, w), go_openAppend = \<lambda>p w. (Inr 3, w), go_open = \<lambda>p w. (Inr 3, w),
      go_environ = \<lambda>w. [], go_startCmd = \<lambda>p f e w. (Inr 100, w), go_writeFile = \<lambda>p c w. (None, w),
      go_release = \<lambda>p w. (None, w), go_close = \<lambda>f w. w, go_sleep = \<lambda>d w. w + d\<rparr>"

lemma agentGuest_files: "guestFiles ps (agentGuest ps line) w"
  by (simp add: guestFiles_def agentGuest_def)

theorem supervisor_never_started_witness:
  "\<exists>r v l. bundle_Create (loggedFs quietFs) bundleRootDir ''c1'' [(''spin-supervisor'', ''ELF''), (''config.json'', ''{}'')] ((), []) = (r, v, l)
     \<and> (let os = agentGuest (createdPaths l) ''spin.workspace_id=w1 spin.secret=ab spin.control_plane=cp:1''
        in StartSupervisor os (go_sleep os (2 * Second) 0) = (None, go_sleep os (2 * Second) 0)
          \<and> startSupervision os 0 = go_sleep os (2 * Second) 0)"
proof -
  let ?rs = "[(''spin-supervisor'', ''ELF''), (''config.json'', ''{}'')]"
  let ?line = "''spin.workspace_id=w1 spin.secret=ab spin.control_plane=cp:1''"
  obtain r v l where b: "bundle_Create (loggedFs quietFs) bundleRootDir ''c1'' ?rs ((), []) = (r, v, l)"
    by (metis prod_cases3)
  let ?os = "agentGuest (createdPaths l) ?line"
  obtain g where p: "ParseFromCmdline (Inr ?line) = Inr (Some g)" "gsup_Validate g = None"
  proof -
    have "fieldsFrom [] ?line = [''spin.workspace_id=w1'', ''spin.secret=ab'', ''spin.control_plane=cp:1'']" by code_simp
    then have "\<exists>g. ParseFromCmdline (Inr ?line) = Inr (Some g) \<and> gsup_Validate g = None"
      using parse_params(1) [of "''w1''"] parse_params(2) [of "''ab''"] parse_params(4) [of "''cp:1''"]
      by (simp add: ParseFromCmdline_def gsup_Validate_def emptySupervisor_def)
    then show thesis using that by blast
  qed
  have q: "ParseFromCmdline (go_cmdline ?os (go_sleep ?os (2 * Second) 0)) = Inr (Some g)"
    using p(1) by (simp add: agentGuest_def)
  have e: "list_all (\<lambda>p. \<not> hasPrefix p ''/run/spinbox/'') []" by simp
  have f: "guestFiles ([] @ createdPaths l) ?os (go_sleep ?os (2 * Second) 0)"
    using agentGuest_files by simp
  show ?thesis
    unfolding Let_def
    by (intro exI conjI) (rule b, use supervisor_never_started [OF b e f q p(2)] in \<open>simp_all only: simp_thms\<close>)
qed

end
