(* ===== verification/Shim_Task.thy ===== *)
theory Shim_Task
  imports Shim_Lifecycle Shim_Cleanup Qemu_Frame Rootfs_Mounts Supervisor_Agent Shim_Network
begin

text \<open>
  The task service of the shim (\<^verbatim>\<open>internal/shim/task/service.go\<close>, \<^verbatim>\<open>create.go\<close>): the requests of containerd, composed
  from the shim's state machine, the VM manager, the connection manager, the bundle, the root file system, the
  network and the cleanup orchestrator.

  A request runs as one step. What the service reaches through Go interfaces (the platform's mounts and network,
  the network manager, I/O forwarders, hotplug controllers, the guest's RPC services) are functions of an
  environment record; a forwarder or controller is named by a number. The conversion of errors to gRPC status
  values (\<open>errgrpc.ToGRPC\<close>) keeps the error. A goroutine that will end the shim is a flag of the service.
\<close>

section \<open>Data\<close>

record Stdio =
  sio_Stdin :: string
  sio_Stdout :: string
  sio_Stderr :: string
  sio_Terminal :: bool

record CreateTaskRequest =
  cr_ID :: string
  cr_Bundle :: string
  cr_Rootfs :: "Mount list"
  cr_Stdio :: Stdio
  cr_Options :: string
  cr_Checkpoint :: string
  cr_ParentCheckpoint :: string

record ExecRequest =
  er_ID :: string
  er_ExecID :: string
  er_Stdio :: Stdio
  er_Spec :: string

record DeleteResponse =
  dr_Pid :: "32 word"
  dr_ExitStatus :: "32 word"
  dr_ExitedAt :: int

datatype taskStatus = StatusCreated | StatusGuest nat

record StateResponse =
  st_Status :: taskStatus
  st_Pid :: "32 word"
  st_Stdio :: Stdio

record execIO =
  eio_stdin :: string
  eio_stdout :: string
  eio_stderr :: string

record processIOState =
  pio_host :: execIO
  pio_terminal :: bool
  pio_forwarder :: nat

record taskIO =
  tio_init :: processIOState
  tio_exec :: "(string \<times> processIOState) list"

record 'w container =
  c_pid :: "32 word"
  c_io :: taskIO
  c_mountCleanup :: "'w CleanupFunc option"

datatype shimEvent = TaskDelete string "32 word" "32 word" int | GuestEvent nat

record 'w service =
  ts_stateMachine :: StateMachine
  ts_vmLifecycle :: Manager
  ts_container :: "'w container option"
  ts_containerID :: string
  ts_cpuHotplug :: "(string \<times> nat) list"
  ts_memHotplug :: "(string \<times> nat) list"
  ts_events :: "shimEvent list"
  ts_eventsChan :: gochan
  ts_eventsClosed :: bool
  ts_eventsCloseOnce :: bool
  ts_inflight :: int
  ts_initStarted :: bool
  ts_connManager :: ConnectionManager
  ts_exitRequested :: bool

definition NewTaskService :: "'w service" where
  "NewTaskService =
     \<lparr>ts_stateMachine = NewStateMachine, ts_vmLifecycle = NewManager, ts_container = None, ts_containerID = '''',
      ts_cpuHotplug = [], ts_memHotplug = [], ts_events = [], ts_eventsChan = ChanOpen, ts_eventsClosed = False,
      ts_eventsCloseOnce = False, ts_inflight = 0, ts_initStarted = False, ts_connManager = NewConnectionManager,
      ts_exitRequested = False\<rparr>"

section \<open>The environment\<close>

record 'w guest_rpc =
  rp_bundleCreate :: "nat \<Rightarrow> string \<Rightarrow> files \<Rightarrow> 'w \<Rightarrow> (goerr + string) \<times> 'w"
  rp_Create :: "nat \<Rightarrow> CreateTaskRequest \<Rightarrow> 'w \<Rightarrow> (goerr + 32 word) \<times> 'w"
  rp_Start :: "nat \<Rightarrow> string \<Rightarrow> string \<Rightarrow> 'w \<Rightarrow> (goerr + 32 word) \<times> 'w"
  rp_Delete :: "nat \<Rightarrow> string \<Rightarrow> string \<Rightarrow> 'w \<Rightarrow> (goerr + DeleteResponse) \<times> 'w"
  rp_Exec :: "nat \<Rightarrow> ExecRequest \<Rightarrow> 'w \<Rightarrow> goerr option \<times> 'w"
  rp_State :: "nat \<Rightarrow> string \<Rightarrow> string \<Rightarrow> 'w \<Rightarrow> (goerr + StateResponse) \<times> 'w"
  rp_Connect :: "nat \<Rightarrow> string \<Rightarrow> 'w \<Rightarrow> (goerr + 32 word) \<times> 'w"
  rp_CloseIO :: "nat \<Rightarrow> string \<Rightarrow> string \<Rightarrow> bool \<Rightarrow> 'w \<Rightarrow> goerr option \<times> 'w"
  rp_ResizePty :: "nat \<Rightarrow> string \<Rightarrow> string \<Rightarrow> nat \<times> nat \<Rightarrow> 'w \<Rightarrow> goerr option \<times> 'w"
  rp_Kill :: "nat \<Rightarrow> string \<Rightarrow> string \<Rightarrow> nat \<times> bool \<Rightarrow> 'w \<Rightarrow> goerr option \<times> 'w"
  rp_Pids :: "nat \<Rightarrow> string \<Rightarrow> 'w \<Rightarrow> (goerr + (32 word) list) \<times> 'w"
  rp_Update :: "nat \<Rightarrow> string \<Rightarrow> string \<Rightarrow> 'w \<Rightarrow> goerr option \<times> 'w"
  rp_Wait :: "nat \<Rightarrow> string \<Rightarrow> string \<Rightarrow> 'w \<Rightarrow> (goerr + 32 word \<times> int) \<times> 'w"
  rp_Stats :: "nat \<Rightarrow> string \<Rightarrow> 'w \<Rightarrow> (goerr + string) \<times> 'w"
  rp_Stream :: "nat \<Rightarrow> 'w \<Rightarrow> (goerr + nat) \<times> 'w"

record 'w task_env =
  te_os :: "'w qemu_os"
  te_cid :: cid_env
  te_vmStateRoot :: string
  te_namespace :: "string option"
  te_kvm :: "'w \<Rightarrow> goerr option \<times> (goerr + int)"
  te_readFile :: "'w \<Rightarrow> string \<Rightarrow> goerr + string"
  te_unmarshal :: "string \<Rightarrow> goerr + Spec"
  te_marshal :: "Spec \<Rightarrow> goerr + string"
  te_caps :: "string list"
  te_hostCPUs :: int
  te_meminfo :: "'w \<Rightarrow> goerr + string list \<times> goerr option"
  te_nm :: "'w NetworkManager"
  te_mountsSetup :: "Instance \<Rightarrow> string \<Rightarrow> Mount list \<Rightarrow> 'w \<Rightarrow> (goerr + Mount list \<times> 'w CleanupFunc option) \<times> Instance \<times> 'w"
  te_networkSetup :: "Instance \<Rightarrow> string \<Rightarrow> string \<Rightarrow> 'w \<Rightarrow> ((goerr + NetworkConfig) \<times> Instance \<times> 'w) go"
  te_guest :: "'w guest_rpc"
  te_forwardIO :: "Instance \<Rightarrow> string \<Rightarrow> string \<Rightarrow> Stdio \<Rightarrow> 'w \<Rightarrow> (goerr + Stdio \<times> nat) \<times> Instance \<times> 'w"
  te_ioStart :: "nat \<Rightarrow> 'w \<Rightarrow> goerr option \<times> 'w"
  te_ioShutdown :: "nat \<Rightarrow> 'w \<Rightarrow> goerr option \<times> 'w"
  te_ioCloseStdin :: "nat \<Rightarrow> 'w \<Rightarrow> 'w"
  te_startCPU :: "string \<Rightarrow> Instance \<Rightarrow> VMResourceConfig \<Rightarrow> 'w \<Rightarrow> nat option \<times> 'w"
  te_startMem :: "string \<Rightarrow> Instance \<Rightarrow> VMResourceConfig \<Rightarrow> 'w \<Rightarrow> nat option \<times> 'w"
  te_stopCPU :: "nat \<Rightarrow> 'w \<Rightarrow> 'w"
  te_stopMem :: "nat \<Rightarrow> 'w \<Rightarrow> 'w"
  te_getpid :: "32 word"

abbreviation setInstance :: "Instance \<Rightarrow> 'w service \<Rightarrow> 'w service" where
  "setInstance q s \<equiv> s\<lparr>ts_vmLifecycle := (ts_vmLifecycle s)\<lparr>mg_instance := Iface q\<rparr>\<rparr>"

abbreviation setState' :: "StateMachine \<Rightarrow> 'w service \<Rightarrow> 'w service" where
  "setState' m s \<equiv> s\<lparr>ts_stateMachine := m\<rparr>"

section \<open>Creating the container\<close>

record 'w createState =
  cs_request :: CreateTaskRequest
  cs_bundle :: "Bundle option"
  cs_resourceCfg :: "VMResourceConfig option"
  cs_mountCleanup :: "'w CleanupFunc option"
  cs_mounts :: "Mount list"
  cs_netConfig :: "NetworkConfig option"
  cs_netnsPath :: string
  cs_ioForwarder :: "nat option"
  cs_containerIO :: Stdio
  cs_guestIO :: Stdio
  cs_cleanup :: "(string \<times> 'w CleanupFunc) list"
  cs_supervisorCfg :: "SupervisorConfig option"

definition emptyStdio :: Stdio where
  "emptyStdio = \<lparr>sio_Stdin = '''', sio_Stdout = '''', sio_Stderr = '''', sio_Terminal = False\<rparr>"

definition newCreateState :: "CreateTaskRequest \<Rightarrow> 'w createState" where
  "newCreateState r =
     \<lparr>cs_request = r, cs_bundle = None, cs_resourceCfg = None, cs_mountCleanup = None, cs_mounts = [],
      cs_netConfig = None, cs_netnsPath = '''', cs_ioForwarder = None, cs_containerIO = emptyStdio,
      cs_guestIO = emptyStdio, cs_cleanup = [], cs_supervisorCfg = None\<rparr>"

definition cleanup_add :: "string \<Rightarrow> 'w CleanupFunc \<Rightarrow> 'w createState \<Rightarrow> 'w createState" where
  "cleanup_add name fn cs = cs\<lparr>cs_cleanup := cs_cleanup cs @ [(name, fn)]\<rparr>"

fun runSteps :: "(string \<times> 'w CleanupFunc) list \<Rightarrow> 'w \<Rightarrow> 'w" where
  "runSteps [] w = w"
| "runSteps ((name, fn) # steps) w = runSteps steps (snd (fn w))"

definition rollback :: "'w createState \<Rightarrow> 'w \<Rightarrow> 'w" where
  "rollback cs w = runSteps (rev (cs_cleanup cs)) w"

definition validateCreateRequest :: "CreateTaskRequest \<Rightarrow> 'w service \<Rightarrow> goerr option \<times> 'w service" where
  "validateCreateRequest r s =
     (if cr_Checkpoint r \<noteq> '''' \<or> cr_ParentCheckpoint r \<noteq> ''''
      then (Some (WrapErr ''checkpoints not supported'' ErrNotImplemented), s)
      else
        (case TryStartCreating (ts_stateMachine s) of
           (False, m) \<Rightarrow>
             (let state = State m
              in if state = StateDeleting
                 then (Some (WrapErr ''shim is deleting container; requires fresh shim per container'' ErrAlreadyExists), setState' m s)
                 else if state = StateShuttingDown
                 then (Some (WrapErr ''shim is shutting down'' ErrFailedPrecondition), setState' m s)
                 else (Some (WrapErr ''container creation already in progress'' ErrAlreadyExists), setState' m s))
         | (True, m) \<Rightarrow>
             (let hasContainer = (ts_container s \<noteq> None)
              in if (case mgr_Instance (ts_vmLifecycle s) of Inl e \<Rightarrow> False | Inr q \<Rightarrow> True) \<or> hasContainer
                 then (Some (WrapErr ''shim already running a container; requires fresh shim per container'' ErrAlreadyExists),
                       setState' (snd (MarkCreationFailed m)) s)
                 else if CHR ''/'' \<in> set (cr_ID r) \<or> CHR 0x5C \<in> set (cr_ID r)
                 then (Some (WrapErr (''container ID contains invalid path separators: '' @ cr_ID r) ErrInvalidArgument),
                       setState' (snd (MarkCreationFailed m)) s)
                 else (None, setState' m s))))"

text \<open>The supervisor's configuration: validated, and dropped when its binary cannot be read.\<close>

definition supervisorSetup :: "'w task_env \<Rightarrow> Spec \<Rightarrow> 'w \<Rightarrow> goerr + SupervisorConfig option" where
  "supervisorSetup env spec w =
     (case FromAnnotations spec of
        None \<Rightarrow> Inr None
      | Some cfg \<Rightarrow>
          (case sup_Validate cfg of
             Some err \<Rightarrow> Inl err
           | None \<Rightarrow>
               (case LoadBinary (te_readFile env w) cfg of
                  Inl err \<Rightarrow> Inr None
                | Inr cfg1 \<Rightarrow> Inr (Some cfg1))))"

definition mountStep :: "'w createState \<Rightarrow> 'w CleanupFunc" where
  "mountStep cs w = (case cs_mountCleanup cs of None \<Rightarrow> (None, w) | Some fn \<Rightarrow> fn w)"

definition releaseNetwork :: "'w task_env \<Rightarrow> string \<Rightarrow> 'w CleanupFunc" where
  "releaseNetwork env i w =
     (let (err, _, w1) = nm_ReleaseNetworkResources (te_nm env) \<lparr>env_ID = i, env_NetworkInfo = None\<rparr> w in (err, w1))"

text \<open>Mounts and network of the new VM \<open>q\<close>; each success registers its cleanup.\<close>

definition setupMountsNetwork ::
  "'w task_env \<Rightarrow> 'w createState \<Rightarrow> Instance \<Rightarrow> 'w \<Rightarrow> (goerr option \<times> 'w createState \<times> Instance \<times> 'w) run" where
  "setupMountsNetwork env cs q w =
     (let r = cs_request cs
      in case te_mountsSetup env q (cr_ID r) (cr_Rootfs r) w of
           (Inl err, q1, w1) \<Rightarrow> returns (Some err, cs, q1, w1)
         | (Inr (mounts, cleanup), q1, w1) \<Rightarrow>
             (let cs1 = cs\<lparr>cs_mountCleanup := cleanup, cs_mounts := mounts\<rparr>;
                  cs2 = cleanup_add ''mounts'' (mountStep cs1) cs1;
                  cs3 = cs2\<lparr>cs_netnsPath := ''/var/run/netns/'' @ cr_ID r\<rparr>
              in bindRun (Some (te_networkSetup env q1 (cr_ID r) (cs_netnsPath cs3) w1)) (\<lambda>(res, q2, w2).
                   case res of
                     Inl err \<Rightarrow> returns (Some err, cs3, q2, w2)
                   | Inr netCfg \<Rightarrow>
                       returns (None, cleanup_add ''network'' (releaseNetwork env (cr_ID r)) (cs3\<lparr>cs_netConfig := Some netCfg\<rparr>), q2, w2))))"

definition setupVMInstance ::
  "'w task_env \<Rightarrow> 'w createState \<Rightarrow> 'w service \<Rightarrow> lockdir \<Rightarrow> 'w
     \<Rightarrow> (goerr option \<times> 'w createState \<times> 'w service \<times> lockdir \<times> 'w) run" where
  "setupVMInstance env cs s d w =
     (let r = cs_request cs; (openErr, version) = te_kvm env w
      in case CheckKVM openErr version of
           Some err \<Rightarrow> returns (Some err, cs, s, d, w)
         | None \<Rightarrow>
             (case LoadForCreate (te_readFile env w) (te_unmarshal env) (te_caps env) (cr_Bundle r) of
                Inl err \<Rightarrow> returns (Some err, cs, s, d, w)
              | Inr b \<Rightarrow>
                  bindRun (ComputeConfig (te_hostCPUs env) (te_meminfo env w) (b_Spec b)) (\<lambda>(resourceCfg, info).
                    let cs1 = cs\<lparr>cs_bundle := Some b, cs_resourceCfg := Some resourceCfg\<rparr>
                    in case supervisorSetup env (b_Spec b) w of
                         Inl err \<Rightarrow> returns (Some err, cs1, s, d, w)
                       | Inr supCfg \<Rightarrow>
                           (let cs2 = cs1\<lparr>cs_supervisorCfg := supCfg\<rparr>
                            in case CreateVM (te_os env) (te_cid env) (te_vmStateRoot env) (te_namespace env)
                                      (cr_ID r) (cr_Bundle r) (Some resourceCfg) (ts_vmLifecycle s) d w of
                                 None \<Rightarrow> None
                               | Some (Some err, m, d1, w1) \<Rightarrow> returns (Some err, cs2, s\<lparr>ts_vmLifecycle := m\<rparr>, d1, w1)
                               | Some (None, m, d1, w1) \<Rightarrow>
                                   (case mg_instance m of
                                      Iface q \<Rightarrow>
                                        bindRun (setupMountsNetwork env cs2 q w1) (\<lambda>(err, cs3, q1, w2).
                                          returns (err, cs3, setInstance q1 (s\<lparr>ts_vmLifecycle := m\<rparr>), d1, w2))
                                    | _ \<Rightarrow> Some nilDeref)))))"

text \<open>The VM is booted and its event stream opened; the goroutine that forwards the events is not part
  of the request.\<close>

definition startVM ::
  "'w task_env \<Rightarrow> 'w createState \<Rightarrow> 'w service \<Rightarrow> 'w \<Rightarrow> (goerr option \<times> 'w service \<times> 'w) run" where
  "startVM env cs s w =
     (case mg_instance (ts_vmLifecycle s) of
        Iface q \<Rightarrow>
          (let initArgs = (case cs_supervisorCfg cs of None \<Rightarrow> [] | Some c \<Rightarrow> sup_InitArgs c)
           in case Start (te_os env) \<lparr>so_InitArgs = initArgs, so_NetworkConfig = cs_netConfig cs,
                       so_NetworkNamespace = cs_netnsPath cs\<rparr> q w of
                None \<Rightarrow> None
              | Some (Some err, q1, w1) \<Rightarrow> returns (Some err, setInstance q1 s, w1)
              | Some (None, q1, w1) \<Rightarrow>
                  (let s1 = setInstance q1 s;
                       s2 = setState' (SetIntentionalShutdown False (ts_stateMachine s1)) s1
                   in case mgr_Client (ts_vmLifecycle s2) of
                        Panic m \<Rightarrow> Some (Panic m)
                      | Ret (Inl err) \<Rightarrow> returns (Some err, s2, w1)
                      | Ret (Inr None) \<Rightarrow> Some nilDeref
                      | Ret (Inr (Some vmc)) \<Rightarrow>
                          (case rp_Stream (te_guest env) vmc w1 of
                             (Inl err, w2) \<Rightarrow> returns (Some err, s2, w2)
                           | (Inr stream, w2) \<Rightarrow> returns (None, s2, w2))))
      | _ \<Rightarrow> Some nilDeref)"

definition addSupervisorBinary :: "'w createState \<Rightarrow> goerr + 'w createState" where
  "addSupervisorBinary cs =
     (case (cs_supervisorCfg cs, cs_bundle cs) of
        (Some c, Some b) \<Rightarrow>
          if length (sc_BinaryContent c) > 0 then
            (case AddExtraFile BundleFileName (sc_BinaryContent c) b of
               Inl err \<Rightarrow> Inl err
             | Inr b1 \<Rightarrow> Inr (cs\<lparr>cs_bundle := Some b1\<rparr>))
          else Inr cs
      | _ \<Rightarrow> Inr cs)"

text \<open>I/O and task, after the bundle has been created in the guest at \<open>guestBundle\<close>.\<close>

definition createGuestTask ::
  "'w task_env \<Rightarrow> 'w createState \<Rightarrow> nat \<Rightarrow> string \<Rightarrow> Instance \<Rightarrow> 'w
     \<Rightarrow> (goerr + 32 word) \<times> 'w createState \<times> Instance \<times> 'w" where
  "createGuestTask env cs rpcClient guestBundle q w =
     (let r = cs_request cs; cs1 = cs\<lparr>cs_containerIO := cr_Stdio r\<rparr>
      in case te_forwardIO env q (cr_ID r) '''' (cs_containerIO cs1) w of
           (Inl err, q1, w1) \<Rightarrow> (Inl err, cs1, q1, w1)
         | (Inr (cio, forwarder), q1, w1) \<Rightarrow>
             (let cs2 = cs1\<lparr>cs_guestIO := cio, cs_ioForwarder := Some forwarder\<rparr>;
                  vr = \<lparr>cr_ID = cr_ID r, cr_Bundle = guestBundle, cr_Rootfs = cs_mounts cs2, cr_Stdio = cio,
                        cr_Options = cr_Options r, cr_Checkpoint = '''', cr_ParentCheckpoint = ''''\<rparr>
              in case rp_Create (te_guest env) rpcClient vr w1 of
                   (Inl err, w2) \<Rightarrow> (let (_, w3) = te_ioShutdown env forwarder w2 in (Inl err, cs2, q1, w3))
                 | (Inr pid, w2) \<Rightarrow> (let (_, w3) = te_ioStart env forwarder w2 in (Inr pid, cs2, q1, w3))))"

definition createTaskInVM ::
  "'w task_env \<Rightarrow> 'w createState \<Rightarrow> 'w service \<Rightarrow> 'w \<Rightarrow> ((goerr + 32 word) \<times> 'w createState \<times> 'w service \<times> 'w) run" where
  "createTaskInVM env cs s w =
     (case addSupervisorBinary cs of
        Inl err \<Rightarrow> returns (Inl err, cs, s, w)
      | Inr cs1 \<Rightarrow>
          (case (mg_instance (ts_vmLifecycle s), cs_bundle cs1) of
             (Iface q, Some b) \<Rightarrow>
               bindRun (Some (mgr_DialClient (te_os env) (ts_vmLifecycle s) w)) (\<lambda>(res, w1).
                 case res of
                   Inl err \<Rightarrow> returns (Inl err, cs1, s, w1)
                 | Inr rpcClient \<Rightarrow>
                     (case bundle_Files (te_marshal env) b of
                        Inl err \<Rightarrow> returns (Inl err, cs1, s, w1)
                      | Inr bundleFiles \<Rightarrow>
                          (case rp_bundleCreate (te_guest env) rpcClient (cr_ID (cs_request cs1)) bundleFiles w1 of
                             (Inl err, w2) \<Rightarrow> returns (Inl err, cs1, s, w2)
                           | (Inr guestBundle, w2) \<Rightarrow>
                               (let (res2, cs2, q1, w3) = createGuestTask env cs1 rpcClient guestBundle q w2
                                in returns (res2, cs2, setInstance q1 s, w3)))))
           | _ \<Rightarrow> Some nilDeref))"

definition finalizeCreate ::
  "'w task_env \<Rightarrow> 'w createState \<Rightarrow> 32 word \<Rightarrow> 'w service \<Rightarrow> 'w \<Rightarrow> ('w service \<times> 'w) run" where
  "finalizeCreate env cs pid s w =
     (case (mg_instance (ts_vmLifecycle s), cs_resourceCfg cs, cs_ioForwarder cs) of
        (Iface q, Some cfg, Some forwarder) \<Rightarrow>
          (let i = cr_ID (cs_request cs); sio = cs_containerIO cs;
               c = \<lparr>c_pid = pid,
                    c_io = \<lparr>tio_init = \<lparr>pio_host = \<lparr>eio_stdin = sio_Stdin sio, eio_stdout = sio_Stdout sio, eio_stderr = sio_Stderr sio\<rparr>,
                                      pio_terminal = sio_Terminal sio, pio_forwarder = forwarder\<rparr>, tio_exec = []\<rparr>,
                    c_mountCleanup = cs_mountCleanup cs\<rparr>;
               s1 = s\<lparr>ts_container := Some c, ts_containerID := i\<rparr>;
               (cpuCtrl, w1) = te_startCPU env i q cfg w;
               s2 = (case cpuCtrl of None \<Rightarrow> s1 | Some h \<Rightarrow> s1\<lparr>ts_cpuHotplug := AList.update i h (ts_cpuHotplug s1)\<rparr>);
               (memCtrl, w2) = te_startMem env i q cfg w1;
               s3 = (case memCtrl of None \<Rightarrow> s2 | Some h \<Rightarrow> s2\<lparr>ts_memHotplug := AList.update i h (ts_memHotplug s2)\<rparr>)
           in returns (s3, w2))
      | _ \<Rightarrow> Some nilDeref)"

definition creationFailed :: "'w service \<Rightarrow> 'w service" where
  "creationFailed s = setState' (snd (MarkCreationFailed (ts_stateMachine s))) s"

definition task_Create ::
  "'w task_env \<Rightarrow> CreateTaskRequest \<Rightarrow> 'w service \<Rightarrow> lockdir \<Rightarrow> 'w \<Rightarrow> ((goerr + 32 word) \<times> 'w service \<times> lockdir \<times> 'w) run" where
  "task_Create env r s d w =
     (case validateCreateRequest r s of
        (Some err, s1) \<Rightarrow> returns (Inl err, s1, d, w)
      | (None, s1) \<Rightarrow>
          bindRun (setupVMInstance env (newCreateState r) s1 d w) (\<lambda>(err, cs1, s2, d1, w1).
            case err of
              Some e \<Rightarrow> returns (Inl e, creationFailed s2, d1, rollback cs1 w1)
            | None \<Rightarrow>
                bindRun (startVM env cs1 s2 w1) (\<lambda>(err2, s3, w2).
                  case err2 of
                    Some e \<Rightarrow> returns (Inl e, creationFailed s3, d1, rollback cs1 w2)
                  | None \<Rightarrow>
                      bindRun (createTaskInVM env cs1 s3 w2) (\<lambda>(res, cs2, s4, w3).
                        case res of
                          Inl e \<Rightarrow> returns (Inl e, creationFailed s4, d1, rollback cs2 w3)
                        | Inr pid \<Rightarrow>
                            bindRun (finalizeCreate env cs2 pid s4 w3) (\<lambda>(s5, w4).
                              returns (Inr pid, setState' (snd (MarkCreated (ts_stateMachine s5))) s5, d1, w4))))))"

section \<open>Cleaning up\<close>

text \<open>A cleanup function of the service, as the orchestrator sees it: a panic ends the run.\<close>

type_synonym 'w svc_world = "('w service \<times> 'w) go"

definition onService :: "('w service \<Rightarrow> 'w \<Rightarrow> (goerr option \<times> 'w service \<times> 'w) go) \<Rightarrow> 'w svc_world CleanupFunc" where
  "onService f x =
     (case x of
        Panic m \<Rightarrow> (None, Panic m)
      | Ret (s, w) \<Rightarrow> (case f s w of Panic m \<Rightarrow> (None, Panic m) | Ret (err, s1, w1) \<Rightarrow> (err, Ret (s1, w1))))"

definition stopAllHotplugControllers :: "'w task_env \<Rightarrow> 'w service \<Rightarrow> 'w \<Rightarrow> (goerr option \<times> 'w service \<times> 'w) go" where
  "stopAllHotplugControllers env s w =
     Ret (None, s\<lparr>ts_cpuHotplug := [], ts_memHotplug := []\<rparr>,
          fold (te_stopMem env) (map snd (ts_memHotplug s)) (fold (te_stopCPU env) (map snd (ts_cpuHotplug s)) w))"

definition joinErrs :: "goerr list \<Rightarrow> goerr option" where
  "joinErrs errs = (if errs = [] then None else Some (MultiErr (joinWith [CHR 0x0A] (map errMsg errs)) errs))"

fun shutdownForwarders :: "'w task_env \<Rightarrow> nat list \<Rightarrow> 'w \<Rightarrow> goerr list \<times> 'w" where
  "shutdownForwarders env [] w = ([], w)"
| "shutdownForwarders env (f # fs) w =
     (let (err, w1) = te_ioShutdown env f w; (errs, w2) = shutdownForwarders env fs w1
      in ((case err of None \<Rightarrow> errs | Some e \<Rightarrow> e # errs), w2))"

definition forwarders :: "'w container \<Rightarrow> nat list" where
  "forwarders c = pio_forwarder (tio_init (c_io c)) # map (pio_forwarder \<circ> snd) (tio_exec (c_io c))"

definition shutdownAllIO :: "'w task_env \<Rightarrow> 'w service \<Rightarrow> 'w \<Rightarrow> (goerr option \<times> 'w service \<times> 'w) go" where
  "shutdownAllIO env s w =
     (let (errs, w1) = shutdownForwarders env (case ts_container s of None \<Rightarrow> [] | Some c \<Rightarrow> forwarders c) w
      in Ret (joinErrs errs, s, w1))"

definition extractMountCleanup :: "'w service \<Rightarrow> 'w CleanupFunc option \<times> 'w service" where
  "extractMountCleanup s =
     (case ts_container s of
        None \<Rightarrow> (None, s)
      | Some c \<Rightarrow> (c_mountCleanup c, s\<lparr>ts_container := Some (c\<lparr>c_mountCleanup := None\<rparr>)\<rparr>))"

definition closeEvents :: "'w service \<Rightarrow> 'w \<Rightarrow> (goerr option \<times> 'w service \<times> 'w) go" where
  "closeEvents s w =
     (let s1 = s\<lparr>ts_eventsClosed := True\<rparr>
      in if ts_eventsCloseOnce s1 then Ret (None, s1, w)
         else bindGo (closeChan (ts_eventsChan s1)) (\<lambda>ch.
                Ret (None, s1\<lparr>ts_eventsChan := ch, ts_eventsCloseOnce := True\<rparr>, w)))"

definition connClose :: "'w task_env \<Rightarrow> 'w service \<Rightarrow> 'w \<Rightarrow> (goerr option \<times> 'w service \<times> 'w) go" where
  "connClose env s w =
     (let (m, w1) = cm_Close (closeH (te_os env)) (ts_connManager s) w in Ret (None, s\<lparr>ts_connManager := m\<rparr>, w1))"

definition vmShutdown :: "'w task_env \<Rightarrow> 'w service \<Rightarrow> 'w \<Rightarrow> (goerr option \<times> 'w service \<times> 'w) go" where
  "vmShutdown env s w =
     bindGo (mgr_Shutdown (te_os env) (ts_vmLifecycle s) w) (\<lambda>(err, m, w1). Ret (err, s\<lparr>ts_vmLifecycle := m\<rparr>, w1))"

definition networkCleanup :: "'w task_env \<Rightarrow> string \<Rightarrow> 'w service \<Rightarrow> 'w \<Rightarrow> (goerr option \<times> 'w service \<times> 'w) go" where
  "networkCleanup env containerID s w =
     (if containerID = '''' then Ret (None, s, w)
      else (let (err, w1) = releaseNetwork env containerID w in Ret (err, s, w1)))"

definition runMountCleanup :: "'w CleanupFunc option \<Rightarrow> 'w service \<Rightarrow> 'w \<Rightarrow> (goerr option \<times> 'w service \<times> 'w) go" where
  "runMountCleanup mountCleanup s w =
     (case mountCleanup of None \<Rightarrow> Ret (None, s, w) | Some fn \<Rightarrow> (let (err, w1) = fn w in Ret (err, s, w1)))"

definition buildCleanupPhases :: "'w task_env \<Rightarrow> string \<Rightarrow> 'w service \<Rightarrow> 'w svc_world CleanupPhases \<times> 'w service" where
  "buildCleanupPhases env containerID s =
     (let (mountCleanup, s1) = extractMountCleanup s
      in (\<lparr>ph_HotplugStop = Some (onService (stopAllHotplugControllers env)),
           ph_IOShutdown = Some (onService (shutdownAllIO env)),
           ph_ConnClose = Some (onService (connClose env)),
           ph_VMShutdown = Some (onService (vmShutdown env)),
           ph_NetworkCleanup = Some (onService (networkCleanup env containerID)),
           ph_MountCleanup = Some (onService (runMountCleanup mountCleanup)),
           ph_EventClose = Some (onService closeEvents)\<rparr>, s1))"

definition task_shutdown :: "'w task_env \<Rightarrow> 'w service \<Rightarrow> 'w \<Rightarrow> (ShutdownResult option \<times> 'w service \<times> 'w) go" where
  "task_shutdown env s w =
     (let s1 = setState' (snd (ForceTransition StateShuttingDown (ts_stateMachine s))) s;
          (phases, s2) = buildCleanupPhases env (ts_containerID s1) s1;
          (result, _, x) = Execute (NewCleanupOrchestrator phases) (Ret (s2, w))
      in bindGo x (\<lambda>(s3, w1).
           let (_, w2) = nm_Close (te_nm env) w1
           in Ret (AsError result, s3\<lparr>ts_initStarted := False\<rparr>, w2)))"

definition cleanupOnDeleteFailure :: "'w task_env \<Rightarrow> string \<Rightarrow> 'w service \<Rightarrow> 'w \<Rightarrow> ('w service \<times> 'w) go" where
  "cleanupOnDeleteFailure env i s w =
     (let s1 = setState' (SetIntentionalShutdown True (ts_stateMachine s)) s;
          (phases, s2) = buildCleanupPhases env i s1;
          (_, _, x) = ExecutePartial PhaseIOShutdown (NewCleanupOrchestrator phases) (Ret (s2, w))
      in x)"

section \<open>Events\<close>

text \<open>A send on the closed channel panics, and the panic is recovered: the event is dropped.\<close>

definition task_send :: "shimEvent \<Rightarrow> 'w service \<Rightarrow> 'w service" where
  "task_send ev s =
     (if ts_eventsClosed s then s
      else if ts_eventsChan s = ChanOpen then s\<lparr>ts_events := ts_events s @ [ev]\<rparr>
      else s)"

section \<open>Requests\<close>

definition getTaskClient :: "'w task_env \<Rightarrow> 'w service \<Rightarrow> 'w \<Rightarrow> ((goerr + nat) \<times> 'w service \<times> 'w) run" where
  "getTaskClient env s w =
     bindRun (GetClient (DialClientWithRetry (te_os env) (ts_vmLifecycle s)) (ts_connManager s) w) (\<lambda>(res, m, w1).
       returns (res, s\<lparr>ts_connManager := m\<rparr>, w1))"

text \<open>A request the shim passes to the guest.\<close>

definition callGuest ::
  "'w task_env \<Rightarrow> (nat \<Rightarrow> 'w \<Rightarrow> (goerr + 'r) \<times> 'w) \<Rightarrow> 'w service \<Rightarrow> 'w \<Rightarrow> ((goerr + 'r) \<times> 'w service \<times> 'w) run" where
  "callGuest env call s w =
     bindRun (getTaskClient env s w) (\<lambda>(res, s1, w1).
       case res of
         Inl err \<Rightarrow> returns (Inl err, s1, w1)
       | Inr vmc \<Rightarrow> (let (r, w2) = call vmc w1 in returns (r, s1, w2)))"

definition unitResult :: "goerr option \<times> 'w \<Rightarrow> (goerr + unit) \<times> 'w" where
  "unitResult x = (case x of (None, w) \<Rightarrow> (Inr (), w) | (Some e, w) \<Rightarrow> (Inl e, w))"

definition task_Start :: "'w task_env \<Rightarrow> string \<Rightarrow> string \<Rightarrow> 'w service \<Rightarrow> 'w \<Rightarrow> ((goerr + 32 word) \<times> 'w service \<times> 'w) run" where
  "task_Start env i execID s w =
     bindRun (callGuest env (\<lambda>vmc. rp_Start (te_guest env) vmc i execID) s w) (\<lambda>(res, s1, w1).
       case res of
         Inl err \<Rightarrow> returns (Inl err, s1, w1)
       | Inr pid \<Rightarrow> returns (Inr pid, if execID = '''' then s1\<lparr>ts_initStarted := True\<rparr> else s1, w1))"

definition task_ResizePty where
  "task_ResizePty env i execID dims s w = callGuest env (\<lambda>vmc w. unitResult (rp_ResizePty (te_guest env) vmc i execID dims w)) s w"

definition task_Kill where
  "task_Kill env i execID sig s w = callGuest env (\<lambda>vmc w. unitResult (rp_Kill (te_guest env) vmc i execID sig w)) s w"

definition task_Pids where
  "task_Pids env i s w = callGuest env (\<lambda>vmc. rp_Pids (te_guest env) vmc i) s w"

definition task_Update where
  "task_Update env i res s w = callGuest env (\<lambda>vmc w. unitResult (rp_Update (te_guest env) vmc i res w)) s w"

definition task_Wait where
  "task_Wait env i execID s w = callGuest env (\<lambda>vmc. rp_Wait (te_guest env) vmc i execID) s w"

definition task_Stats where
  "task_Stats env i s w = callGuest env (\<lambda>vmc. rp_Stats (te_guest env) vmc i) s w"

definition task_Pause :: "goerr" where
  "task_Pause = WrapErr ''pause is not supported: VM-based runtime cannot checkpoint CPU/memory state'' ErrNotImplemented"

definition task_Resume :: "goerr" where
  "task_Resume = WrapErr ''resume is not supported: VM-based runtime cannot restore CPU/memory state'' ErrNotImplemented"

definition task_Checkpoint :: "goerr" where
  "task_Checkpoint = WrapErr ''checkpoint is not supported: VM-based runtime cannot snapshot process state'' ErrNotImplemented"

definition withHostIO :: "execIO \<Rightarrow> Stdio \<Rightarrow> Stdio" where
  "withHostIO h sio = sio\<lparr>sio_Stdin := eio_stdin h, sio_Stdout := eio_stdout h, sio_Stderr := eio_stderr h\<rparr>"

definition task_State :: "'w task_env \<Rightarrow> string \<Rightarrow> string \<Rightarrow> 'w service \<Rightarrow> 'w \<Rightarrow> ((goerr + StateResponse) \<times> 'w service \<times> 'w) run" where
  "task_State env i execID s w =
     (case (if execID = '''' \<and> \<not> ts_initStarted s then ts_container s else None) of
        Some c \<Rightarrow>
          (let ini = tio_init (c_io c)
           in returns (Inr \<lparr>st_Status = StatusCreated, st_Pid = c_pid c,
                            st_Stdio = withHostIO (pio_host ini) (emptyStdio\<lparr>sio_Terminal := pio_terminal ini\<rparr>)\<rparr>, s, w))
      | None \<Rightarrow>
          bindRun (callGuest env (\<lambda>vmc. rp_State (te_guest env) vmc i execID) s w) (\<lambda>(res, s1, w1).
            case res of
              Inl err \<Rightarrow> returns (Inl err, s1, w1)
            | Inr st \<Rightarrow>
                (case ts_container s1 of
                   None \<Rightarrow> returns (Inr st, s1, w1)
                 | Some c \<Rightarrow>
                     if execID = '''' then
                       (let ini = tio_init (c_io c)
                        in returns (Inr (st\<lparr>st_Stdio := (withHostIO (pio_host ini) (st_Stdio st))\<lparr>sio_Terminal := pio_terminal ini\<rparr>\<rparr>), s1, w1))
                     else
                       (case map_of (tio_exec (c_io c)) execID of
                          None \<Rightarrow> returns (Inr st, s1, w1)
                        | Some pio \<Rightarrow> returns (Inr (st\<lparr>st_Stdio := withHostIO (pio_host pio) (st_Stdio st)\<rparr>), s1, w1)))))"

definition getIOForwarder :: "string \<Rightarrow> string \<Rightarrow> 'w service \<Rightarrow> nat option" where
  "getIOForwarder containerID execID s =
     (case ts_container s of
        None \<Rightarrow> None
      | Some c \<Rightarrow>
          if ts_containerID s \<noteq> containerID then None
          else if execID = '''' then Some (pio_forwarder (tio_init (c_io c)))
          else map_option pio_forwarder (map_of (tio_exec (c_io c)) execID))"

definition task_CloseIO :: "'w task_env \<Rightarrow> string \<Rightarrow> string \<Rightarrow> bool \<Rightarrow> 'w service \<Rightarrow> 'w \<Rightarrow> ((goerr + unit) \<times> 'w service \<times> 'w) run" where
  "task_CloseIO env i execID stdin s w =
     (let w1 = (if stdin then
                  (case getIOForwarder i execID s of None \<Rightarrow> w | Some f \<Rightarrow> te_ioCloseStdin env f w)
                else w)
      in callGuest env (\<lambda>vmc w. unitResult (rp_CloseIO (te_guest env) vmc i execID stdin w)) s w1)"

definition task_Connect ::
  "'w task_env \<Rightarrow> string \<Rightarrow> 'w service \<Rightarrow> 'w \<Rightarrow> ((goerr + 32 word \<times> 32 word) \<times> 'w service \<times> 'w) run" where
  "task_Connect env i s w =
     (case (if ts_containerID s = i then ts_container s else None) of
        Some c \<Rightarrow>
          if c_pid c \<noteq> 0 then returns (Inr (te_getpid env, c_pid c), s, w)
          else bindRun (callGuest env (\<lambda>vmc. rp_Connect (te_guest env) vmc i) s w) (\<lambda>(res, s1, w1).
                 returns (map_sum (\<lambda>e. e) (\<lambda>pid. (te_getpid env, pid)) res, s1, w1))
      | None \<Rightarrow>
          bindRun (callGuest env (\<lambda>vmc. rp_Connect (te_guest env) vmc i) s w) (\<lambda>(res, s1, w1).
            returns (map_sum (\<lambda>e. e) (\<lambda>pid. (te_getpid env, pid)) res, s1, w1)))"

definition updExec :: "((string \<times> processIOState) list \<Rightarrow> (string \<times> processIOState) list) \<Rightarrow> 'w container \<Rightarrow> 'w container" where
  "updExec f c = c\<lparr>c_io := (c_io c)\<lparr>tio_exec := f (tio_exec (c_io c))\<rparr>\<rparr>"

text \<open>After the guest refused the exec: its forwarder is shut down and its entry removed.\<close>

definition dropExec :: "'w task_env \<Rightarrow> string \<Rightarrow> string \<Rightarrow> 'w service \<Rightarrow> 'w \<Rightarrow> 'w service \<times> 'w" where
  "dropExec env i execID s w =
     (case (if ts_containerID s = i then ts_container s else None) of
        None \<Rightarrow> (s, w)
      | Some c \<Rightarrow>
          (case map_of (tio_exec (c_io c)) execID of
             None \<Rightarrow> (s, w)
           | Some pio \<Rightarrow>
               (let (_, w1) = te_ioShutdown env (pio_forwarder pio) w
                in (s\<lparr>ts_container := Some (updExec (AList.delete execID) c)\<rparr>, w1))))"

definition task_Exec :: "'w task_env \<Rightarrow> ExecRequest \<Rightarrow> 'w service \<Rightarrow> 'w \<Rightarrow> ((goerr + unit) \<times> 'w service \<times> 'w) run" where
  "task_Exec env r s w =
     bindRun (getTaskClient env s w) (\<lambda>(res, s1, w1).
       case res of
         Inl err \<Rightarrow> returns (Inl err, s1, w1)
       | Inr vmc \<Rightarrow>
           (case mg_instance (ts_vmLifecycle s1) of
              NilIface \<Rightarrow> returns (Inl ErrVMNotCreated, s1, w1)
            | TypedNil \<Rightarrow> Some nilDeref
            | Iface q \<Rightarrow>
                (let rio = er_Stdio r; i = er_ID r; x = er_ExecID r
                 in case te_forwardIO env q i x rio w1 of
                      (Inl err, q1, w2) \<Rightarrow> returns (Inl err, setInstance q1 s1, w2)
                    | (Inr (cio, forwarder), q1, w2) \<Rightarrow>
                        (let s2 = setInstance q1 s1
                         in case (if ts_containerID s2 = i then ts_container s2 else None) of
                              None \<Rightarrow>
                                (let (_, w3) = te_ioShutdown env forwarder w2
                                 in returns (Inl (WrapErr (''container '' @ i @ '' not found'') ErrNotFound), s2, w3))
                            | Some c \<Rightarrow>
                                (let pio = \<lparr>pio_host = \<lparr>eio_stdin = sio_Stdin rio, eio_stdout = sio_Stdout rio, eio_stderr = sio_Stderr rio\<rparr>,
                                            pio_terminal = False, pio_forwarder = forwarder\<rparr>;
                                     s3 = s2\<lparr>ts_container := Some (updExec (AList.update x pio) c)\<rparr>
                                 in case rp_Exec (te_guest env) vmc (r\<lparr>er_Stdio := cio\<rparr>) w2 of
                                      (Some err, w3) \<Rightarrow> (let (s4, w4) = dropExec env i x s3 w3 in returns (Inl err, s4, w4))
                                    | (None, w3) \<Rightarrow> (let (_, w4) = te_ioStart env forwarder w3 in returns (Inr (), s3, w4)))))))"

text \<open>The shim has a shutdown service, so \<open>Shutdown\<close> starts the goroutine that ends the shim.\<close>

definition task_Shutdown :: "'w service \<Rightarrow> 'w service" where
  "task_Shutdown s =
     (setState' (SetIntentionalShutdown True (ts_stateMachine s)) s)\<lparr>ts_exitRequested := True\<rparr>"

section \<open>Deleting\<close>

record 'w deleteCleanup =
  dc_ioForwarders :: "nat list"
  dc_cpuController :: "nat option"
  dc_memController :: "nat option"
  dc_mountCleanup :: "'w CleanupFunc option"
  dc_needNetworkClean :: bool
  dc_needVMShutdown :: bool

definition noCleanup :: "'w deleteCleanup" where
  "noCleanup = \<lparr>dc_ioForwarders = [], dc_cpuController = None, dc_memController = None, dc_mountCleanup = None,
     dc_needNetworkClean = False, dc_needVMShutdown = False\<rparr>"

definition collectDeleteCleanup :: "string \<Rightarrow> string \<Rightarrow> 'w service \<Rightarrow> 'w deleteCleanup \<times> 'w service" where
  "collectDeleteCleanup i execID s =
     (let (dc, s1) =
        (case (if ts_containerID s = i then ts_container s else None) of
           None \<Rightarrow> (noCleanup, s)
         | Some c \<Rightarrow>
             if execID \<noteq> '''' then
               (case map_of (tio_exec (c_io c)) execID of
                  None \<Rightarrow> (noCleanup, s)
                | Some pio \<Rightarrow>
                    (noCleanup\<lparr>dc_ioForwarders := [pio_forwarder pio]\<rparr>,
                     s\<lparr>ts_container := Some (updExec (AList.delete execID) c)\<rparr>))
             else
               (noCleanup\<lparr>dc_ioForwarders := forwarders c, dc_mountCleanup := c_mountCleanup c,
                          dc_needNetworkClean := True, dc_needVMShutdown := True\<rparr>,
                s\<lparr>ts_container := None, ts_containerID := ''''\<rparr>))
      in if execID = '''' then
           (dc\<lparr>dc_cpuController := map_of (ts_cpuHotplug s1) i, dc_memController := map_of (ts_memHotplug s1) i\<rparr>,
            s1\<lparr>ts_cpuHotplug := AList.delete i (ts_cpuHotplug s1), ts_memHotplug := AList.delete i (ts_memHotplug s1)\<rparr>)
         else (dc, s1))"

definition deletePhases :: "'w task_env \<Rightarrow> string \<Rightarrow> 'w deleteCleanup \<Rightarrow> 'w svc_world CleanupPhases" where
  "deletePhases env i dc =
     \<lparr>ph_HotplugStop = None, ph_IOShutdown = None, ph_ConnClose = None,
      ph_VMShutdown = Some (onService (vmShutdown env)),
      ph_NetworkCleanup = Some (onService (\<lambda>s w.
        if \<not> dc_needNetworkClean dc then Ret (None, s, w)
        else (let (err, w1) = releaseNetwork env i w in Ret (err, s, w1)))),
      ph_MountCleanup = Some (onService (runMountCleanup (dc_mountCleanup dc))),
      ph_EventClose = None\<rparr>"

definition runDeleteCleanup :: "'w task_env \<Rightarrow> string \<Rightarrow> 'w deleteCleanup \<Rightarrow> 'w service \<Rightarrow> 'w \<Rightarrow> ('w service \<times> 'w) go" where
  "runDeleteCleanup env i dc s w =
     (let (_, w1) = shutdownForwarders env (dc_ioForwarders dc) w;
          w2 = (case dc_cpuController dc of None \<Rightarrow> w1 | Some h \<Rightarrow> te_stopCPU env h w1);
          w3 = (case dc_memController dc of None \<Rightarrow> w2 | Some h \<Rightarrow> te_stopMem env h w2)
      in if \<not> dc_needVMShutdown dc then Ret (s, w3)
         else
           (let s1 = setState' (SetIntentionalShutdown True (ts_stateMachine s)) s;
                (_, _, x) = ExecutePartial PhaseVMShutdown (NewCleanupOrchestrator (deletePhases env i dc)) (Ret (s1, w3))
            in bindGo x (\<lambda>(s2, w4). Ret (s2\<lparr>ts_exitRequested := True\<rparr>, w4))))"

definition enter :: "'w service \<Rightarrow> 'w service" where
  "enter s = s\<lparr>ts_inflight := ts_inflight s + 1\<rparr>"

definition leave :: "'w service \<Rightarrow> 'w service" where
  "leave s = s\<lparr>ts_inflight := ts_inflight s - 1\<rparr>"

definition startDeleting :: "string \<Rightarrow> 'w service \<Rightarrow> goerr option \<times> 'w service" where
  "startDeleting execID s =
     (if execID \<noteq> '''' then (None, s)
      else
        (case TryStartDeleting (ts_stateMachine s) of
           (True, m) \<Rightarrow> (None, setState' m s)
         | (False, m) \<Rightarrow>
             (let state = State m
              in (if state = StateCreating
                  then Some (WrapErr ''cannot delete while container creation is in progress'' ErrFailedPrecondition)
                  else if state = StateShuttingDown then Some (WrapErr ''shim is shutting down'' ErrFailedPrecondition)
                  else if state = StateDeleting then Some (WrapErr ''delete already in progress'' ErrAlreadyExists)
                  else Some (WrapErr (''cannot delete in state: '' @ ShimState_String state) ErrFailedPrecondition),
                  setState' m s))))"

definition task_Delete ::
  "'w task_env \<Rightarrow> string \<Rightarrow> string \<Rightarrow> 'w service \<Rightarrow> 'w \<Rightarrow> ((goerr + DeleteResponse) \<times> 'w service \<times> 'w) run" where
  "task_Delete env i execID s w =
     (case startDeleting execID (enter s) of
        (Some err, s1) \<Rightarrow> returns (Inl err, leave s1, w)
      | (None, s1) \<Rightarrow>
          bindRun (getTaskClient env s1 w) (\<lambda>(res, s2, w1).
            case res of
              Inl err \<Rightarrow> returns (Inl err, leave s2, w1)
            | Inr vmc \<Rightarrow>
                (case rp_Delete (te_guest env) vmc i execID w1 of
                   (Inl err, w2) \<Rightarrow>
                     if execID = '''' then
                       bindRun (Some (cleanupOnDeleteFailure env i s2 w2)) (\<lambda>(s3, w3). returns (Inl err, leave s3, w3))
                     else returns (Inl err, leave s2, w2)
                 | (Inr resp, w2) \<Rightarrow>
                     (let s3 = (if execID = '''' then task_send (TaskDelete i (dr_Pid resp) (dr_ExitStatus resp) (dr_ExitedAt resp)) s2 else s2);
                          (dc, s4) = collectDeleteCleanup i execID s3
                      in bindRun (Some (runDeleteCleanup env i dc s4 w2)) (\<lambda>(s5, w3). returns (Inr resp, leave s5, w3))))))"

end
