(* ===== verification/Task_Create.thy ===== *)
theory Task_Create
  imports Shim_Task
begin

text \<open>
  What a \<open>Create\<close> request does to the resources of the container. The environment \<open>loggedEnv\<close> behaves like a given
  one and records in which order the platform's mounts, the network, I/O forwarders and hotplug controllers are set
  up and taken down.
\<close>

section \<open>A record of the resources\<close>

datatype resource = ResMounts | ResNetwork string | ResIO nat | ResCPU nat | ResMem nat

datatype svcEvent = Up resource | Down resource

fun undo :: "svcEvent \<Rightarrow> svcEvent" where
  "undo (Up r) = Down r"
| "undo (Down r) = Up r"

fun isUp :: "svcEvent \<Rightarrow> bool" where
  "isUp (Up r) = True"
| "isUp (Down r) = False"

definition logP :: "svcEvent list \<Rightarrow> ('w \<Rightarrow> 'r \<times> 'w) \<Rightarrow> 'w \<times> svcEvent list \<Rightarrow> 'r \<times> 'w \<times> svcEvent list" where
  "logP evs f x = (let (r, w) = f (fst x) in (r, w, snd x @ evs))"

definition loggedNM :: "'w NetworkManager \<Rightarrow> ('w \<times> svcEvent list) NetworkManager" where
  "loggedNM nm =
     \<lparr>nm_EnsureNetworkResources = \<lambda>e x. (let (r, e', w) = nm_EnsureNetworkResources nm e (fst x) in (r, e', w, snd x)),
      nm_ReleaseNetworkResources = \<lambda>e x. (let (r, e', w) = nm_ReleaseNetworkResources nm e (fst x)
                                         in (r, e', w, snd x @ [Down (ResNetwork (env_ID e))])),
      nm_Close = pairP (nm_Close nm)\<rparr>"

definition pairGuest :: "'w guest_rpc \<Rightarrow> ('w \<times> 'l) guest_rpc" where
  "pairGuest g =
     \<lparr>rp_bundleCreate = \<lambda>c i fs. pairP (rp_bundleCreate g c i fs), rp_Create = \<lambda>c r. pairP (rp_Create g c r),
      rp_Start = \<lambda>c i x. pairP (rp_Start g c i x), rp_Delete = \<lambda>c i x. pairP (rp_Delete g c i x),
      rp_Exec = \<lambda>c r. pairP (rp_Exec g c r), rp_State = \<lambda>c i x. pairP (rp_State g c i x),
      rp_Connect = \<lambda>c i. pairP (rp_Connect g c i), rp_CloseIO = \<lambda>c i x b. pairP (rp_CloseIO g c i x b),
      rp_ResizePty = \<lambda>c i x d. pairP (rp_ResizePty g c i x d), rp_Kill = \<lambda>c i x k. pairP (rp_Kill g c i x k),
      rp_Pids = \<lambda>c i. pairP (rp_Pids g c i), rp_Update = \<lambda>c i u. pairP (rp_Update g c i u),
      rp_Wait = \<lambda>c i x. pairP (rp_Wait g c i x), rp_Stats = \<lambda>c i. pairP (rp_Stats g c i),
      rp_Stream = \<lambda>c. pairP (rp_Stream g c)\<rparr>"

definition loggedMountsSetup ::
  "(Instance \<Rightarrow> string \<Rightarrow> Mount list \<Rightarrow> 'w \<Rightarrow> (goerr + Mount list \<times> 'w CleanupFunc option) \<times> Instance \<times> 'w)
     \<Rightarrow> Instance \<Rightarrow> string \<Rightarrow> Mount list \<Rightarrow> 'w \<times> svcEvent list
     \<Rightarrow> (goerr + Mount list \<times> ('w \<times> svcEvent list) CleanupFunc option) \<times> Instance \<times> 'w \<times> svcEvent list" where
  "loggedMountsSetup f q i ms x =
     (case f q i ms (fst x) of
        (Inl e, q', w) \<Rightarrow> (Inl e, q', w, snd x)
      | (Inr (mounts, None), q', w) \<Rightarrow> (Inr (mounts, None), q', w, snd x)
      | (Inr (mounts, Some fn), q', w) \<Rightarrow> (Inr (mounts, Some (logP [Down ResMounts] fn)), q', w, snd x @ [Up ResMounts]))"

definition loggedNetworkSetup ::
  "(Instance \<Rightarrow> string \<Rightarrow> string \<Rightarrow> 'w \<Rightarrow> ((goerr + NetworkConfig) \<times> Instance \<times> 'w) go)
     \<Rightarrow> Instance \<Rightarrow> string \<Rightarrow> string \<Rightarrow> 'w \<times> svcEvent list \<Rightarrow> ((goerr + NetworkConfig) \<times> Instance \<times> 'w \<times> svcEvent list) go" where
  "loggedNetworkSetup f q i ns x =
     bindGo (f q i ns (fst x)) (\<lambda>(r, q', w).
       Ret (r, q', w, snd x @ (case r of Inl e \<Rightarrow> [] | Inr c \<Rightarrow> [Up (ResNetwork i)])))"

definition loggedForwardIO ::
  "(Instance \<Rightarrow> string \<Rightarrow> string \<Rightarrow> Stdio \<Rightarrow> 'w \<Rightarrow> (goerr + Stdio \<times> nat) \<times> Instance \<times> 'w)
     \<Rightarrow> Instance \<Rightarrow> string \<Rightarrow> string \<Rightarrow> Stdio \<Rightarrow> 'w \<times> svcEvent list \<Rightarrow> (goerr + Stdio \<times> nat) \<times> Instance \<times> 'w \<times> svcEvent list" where
  "loggedForwardIO f q i x sio y =
     (let (r, q', w) = f q i x sio (fst y)
      in (r, q', w, snd y @ (case r of Inl e \<Rightarrow> [] | Inr (cio, h) \<Rightarrow> [Up (ResIO h)])))"

definition logStart :: "(nat \<Rightarrow> resource) \<Rightarrow> ('w \<Rightarrow> nat option \<times> 'w) \<Rightarrow> 'w \<times> svcEvent list \<Rightarrow> nat option \<times> 'w \<times> svcEvent list" where
  "logStart res f x =
     (let (r, w) = f (fst x) in (r, w, snd x @ (case r of None \<Rightarrow> [] | Some h \<Rightarrow> [Up (res h)])))"

definition loggedEnv :: "'w task_env \<Rightarrow> ('w \<times> svcEvent list) task_env" where
  "loggedEnv env =
     \<lparr>te_os = pairOs (te_os env), te_cid = te_cid env, te_vmStateRoot = te_vmStateRoot env, te_namespace = te_namespace env,
      te_kvm = \<lambda>x. te_kvm env (fst x), te_readFile = \<lambda>x. te_readFile env (fst x), te_unmarshal = te_unmarshal env,
      te_marshal = te_marshal env, te_caps = te_caps env, te_hostCPUs = te_hostCPUs env, te_meminfo = \<lambda>x. te_meminfo env (fst x),
      te_nm = loggedNM (te_nm env), te_mountsSetup = loggedMountsSetup (te_mountsSetup env),
      te_networkSetup = loggedNetworkSetup (te_networkSetup env), te_guest = pairGuest (te_guest env),
      te_forwardIO = loggedForwardIO (te_forwardIO env), te_ioStart = \<lambda>h. pairP (te_ioStart env h),
      te_ioShutdown = \<lambda>h. logP [Down (ResIO h)] (te_ioShutdown env h), te_ioCloseStdin = \<lambda>h. pairW (te_ioCloseStdin env h),
      te_startCPU = \<lambda>i q cfg. logStart ResCPU (te_startCPU env i q cfg),
      te_startMem = \<lambda>i q cfg. logStart ResMem (te_startMem env i q cfg),
      te_stopCPU = \<lambda>h x. (te_stopCPU env h (fst x), snd x @ [Down (ResCPU h)]),
      te_stopMem = \<lambda>h x. (te_stopMem env h (fst x), snd x @ [Down (ResMem h)]),
      te_getpid = te_getpid env\<rparr>"

lemma logged_simps [simp]:
  "te_os (loggedEnv env) = pairOs (te_os env)" "te_cid (loggedEnv env) = te_cid env"
  "te_vmStateRoot (loggedEnv env) = te_vmStateRoot env" "te_namespace (loggedEnv env) = te_namespace env"
  "te_kvm (loggedEnv env) x = te_kvm env (fst x)" "te_readFile (loggedEnv env) x = te_readFile env (fst x)"
  "te_unmarshal (loggedEnv env) = te_unmarshal env" "te_marshal (loggedEnv env) = te_marshal env"
  "te_caps (loggedEnv env) = te_caps env" "te_hostCPUs (loggedEnv env) = te_hostCPUs env"
  "te_meminfo (loggedEnv env) x = te_meminfo env (fst x)" "te_nm (loggedEnv env) = loggedNM (te_nm env)"
  "te_mountsSetup (loggedEnv env) = loggedMountsSetup (te_mountsSetup env)"
  "te_networkSetup (loggedEnv env) = loggedNetworkSetup (te_networkSetup env)" "te_guest (loggedEnv env) = pairGuest (te_guest env)"
  "te_forwardIO (loggedEnv env) = loggedForwardIO (te_forwardIO env)" "te_ioStart (loggedEnv env) h = pairP (te_ioStart env h)"
  "te_ioShutdown (loggedEnv env) h = logP [Down (ResIO h)] (te_ioShutdown env h)"
  "te_startCPU (loggedEnv env) i q cfg = logStart ResCPU (te_startCPU env i q cfg)"
  "te_startMem (loggedEnv env) i q cfg = logStart ResMem (te_startMem env i q cfg)"
  "te_stopCPU (loggedEnv env) h = (\<lambda>x. (te_stopCPU env h (fst x), snd x @ [Down (ResCPU h)]))"
  "te_stopMem (loggedEnv env) h = (\<lambda>x. (te_stopMem env h (fst x), snd x @ [Down (ResMem h)]))"
  by (simp_all add: loggedEnv_def)

section \<open>The stages of Create\<close>

text \<open>Rolling back the registered steps takes down what has been set up, last first.\<close>

definition tracks :: "('w \<times> svcEvent list) createState \<Rightarrow> svcEvent list \<Rightarrow> bool" where
  "tracks cs ups \<longleftrightarrow> list_all isUp ups \<and> (\<forall>x. snd (rollback cs x) = snd x @ map undo (rev ups))"

lemma tracks_empty: "cs_cleanup cs = [] \<Longrightarrow> tracks cs []"
  by (simp add: tracks_def rollback_def)

lemma rollback_add:
  "rollback (cleanup_add name fn cs) x = rollback cs (snd (fn x))"
  by (simp add: rollback_def cleanup_add_def)

lemma tracks_cong: "cs_cleanup cs' = cs_cleanup cs \<Longrightarrow> tracks cs' ups = tracks cs ups"
  by (simp add: tracks_def rollback_def)

lemma tracks_add:
  assumes "tracks cs ups" "\<And>x. snd (snd (fn x)) = snd x @ map undo vs" "list_all isUp vs" "length vs \<le> 1"
  shows "tracks (cleanup_add name fn cs) (ups @ vs)"
proof -
  have "snd (rollback (cleanup_add name fn cs) x) = snd x @ map undo (rev (ups @ vs))" for x
  proof -
    have "snd (rollback (cleanup_add name fn cs) x) = snd (snd (fn x)) @ map undo (rev ups)"
      using assms(1) unfolding rollback_add tracks_def by blast
    moreover have "rev vs = vs" using assms(4) by (cases vs) simp_all
    ultimately show ?thesis using assms(2) by simp
  qed
  then show ?thesis using assms(1,3) unfolding tracks_def by simp
qed

lemma release_log: "snd (snd (releaseNetwork (loggedEnv env) i x)) = snd x @ [Down (ResNetwork i)]"
  by (simp add: releaseNetwork_def loggedNM_def case_prod_unfold Let_def)

lemma network_log:
  assumes "loggedNetworkSetup f q i ns x = Ret (r, q', y)"
  shows "snd y = snd x @ (case r of Inl e \<Rightarrow> [] | Inr c \<Rightarrow> [Up (ResNetwork i)])"
  using assms by (auto simp: loggedNetworkSetup_def bindGo_Ret_iff)

lemma mounts_log:
  assumes "loggedMountsSetup f q i ms x = (r, q', y)"
  shows "case r of
      Inl e \<Rightarrow> snd y = snd x
    | Inr (mounts, cl) \<Rightarrow>
        \<exists>ups. snd y = snd x @ ups \<and> list_all isUp ups \<and> length ups \<le> 1
          \<and> (\<forall>x. snd (snd (case cl of None \<Rightarrow> (None, x) | Some fn \<Rightarrow> fn x)) = snd x @ map undo ups)"
proof -
  obtain r0 q0 w0 where f: "f q i ms (fst x) = (r0, q0, w0)" by (metis prod_cases3)
  show ?thesis
  proof (cases r0)
    case (Inl e)
    then show ?thesis using assms f by (auto simp: loggedMountsSetup_def)
  next
    case (Inr mc)
    obtain mounts cl where mc: "mc = (mounts, cl)" by (metis surj_pair)
    show ?thesis
    proof (cases cl)
      case None
      then have "r = Inr (mounts, None)" "snd y = snd x" using assms f Inr mc by (auto simp: loggedMountsSetup_def)
      then show ?thesis by (auto intro!: exI [of _ "[]"])
    next
      case (Some fn)
      then have "r = Inr (mounts, Some (logP [Down ResMounts] fn))" "snd y = snd x @ [Up ResMounts]"
        using assms f Inr mc by (auto simp: loggedMountsSetup_def)
      then show ?thesis by (auto simp: logP_def case_prod_unfold Let_def intro!: exI [of _ "[Up ResMounts]"])
    qed
  qed
qed

lemma setupMountsNetwork_log:
  assumes "setupMountsNetwork (loggedEnv env) cs q x = returns (err, cs', q', y)" "cs_cleanup cs = []"
  shows "\<exists>ups. tracks cs' ups \<and> snd y = snd x @ ups \<and> cs_request cs' = cs_request cs
    \<and> (err = None \<longrightarrow> Up (ResNetwork (cr_ID (cs_request cs))) \<in> set ups \<and> cs_bundle cs' = cs_bundle cs \<and> cs_resourceCfg cs' = cs_resourceCfg cs)"
proof -
  let ?r = "cs_request cs"
  obtain r1 q1 x1 where m: "loggedMountsSetup (te_mountsSetup env) q (cr_ID ?r) (cr_Rootfs ?r) x = (r1, q1, x1)"
    by (metis prod_cases3)
  show ?thesis
  proof (cases r1)
    case (Inl e)
    then show ?thesis using assms m mounts_log [OF m] tracks_empty [OF assms(2)]
      by (auto simp: setupMountsNetwork_def Let_def intro!: exI [of _ "[]"])
  next
    case (Inr mc)
    obtain mounts cl where mc: "mc = (mounts, cl)" by (metis surj_pair)
    from mounts_log [OF m] Inr mc obtain ups where u: "snd x1 = snd x @ ups" "list_all isUp ups" "length ups \<le> 1"
      "\<And>x. snd (snd (case cl of None \<Rightarrow> (None, x) | Some fn \<Rightarrow> fn x)) = snd x @ map undo ups" by auto
    define cs1 where "cs1 = cs\<lparr>cs_mountCleanup := cl, cs_mounts := mounts\<rparr>"
    define cs3 where "cs3 = (cleanup_add ''mounts'' (mountStep cs1) cs1)\<lparr>cs_netnsPath := ''/var/run/netns/'' @ cr_ID ?r\<rparr>"
    have "tracks (cleanup_add ''mounts'' (mountStep cs1) cs1) ([] @ ups)"
      using u assms(2) by (intro tracks_add tracks_empty) (simp_all add: cs1_def mountStep_def)
    then have t3: "tracks cs3 ups" using tracks_cong [of cs3] by (simp add: cs3_def)
    obtain r2 q2 x2 where n: "loggedNetworkSetup (te_networkSetup env) q1 (cr_ID ?r) (cs_netnsPath cs3) x1 = Ret (r2, q2, x2)"
      using assms(1) m Inr mc by (auto simp: setupMountsNetwork_def Let_def bindRun_returns_iff cs1_def cs3_def)
    have eq: "setupMountsNetwork (loggedEnv env) cs q x = (case r2 of
        Inl e \<Rightarrow> returns (Some e, cs3, q2, x2)
      | Inr netCfg \<Rightarrow> returns (None, cleanup_add ''network'' (releaseNetwork (loggedEnv env) (cr_ID ?r)) (cs3\<lparr>cs_netConfig := Some netCfg\<rparr>), q2, x2))"
      using m Inr mc n by (cases r2) (simp_all add: setupMountsNetwork_def Let_def cs1_def cs3_def)
    have req: "cs_request cs3 = cs_request cs" "cs_bundle cs3 = cs_bundle cs" "cs_resourceCfg cs3 = cs_resourceCfg cs"
      by (simp_all add: cs3_def cs1_def cleanup_add_def)
    show ?thesis
    proof (cases r2)
      case (Inl e)
      then show ?thesis using assms(1) eq t3 u(1) network_log [OF n] req by (intro exI [of _ ups]) auto
    next
      case (Inr netCfg)
      have "tracks (cleanup_add ''network'' (releaseNetwork (loggedEnv env) (cr_ID ?r)) (cs3\<lparr>cs_netConfig := Some netCfg\<rparr>)) (ups @ [Up (ResNetwork (cr_ID ?r))])"
        using t3 tracks_cong [of "cs3\<lparr>cs_netConfig := Some netCfg\<rparr>" cs3] by (intro tracks_add) (simp_all add: release_log)
      then show ?thesis using assms(1) eq Inr u(1) network_log [OF n] req
        by (intro exI [of _ "ups @ [Up (ResNetwork (cr_ID ?r))]"]) (auto simp: cleanup_add_def)
    qed
  qed
qed

lemma CreateVM_returns: "\<exists>e m' d' w'. CreateVM os env rt ns i b cfg m d w = Some (e, m', d', w')"
proof -
  have "Allocate env (guestAllocator p) d \<noteq> None" for p d
    using allocLoop_spec [OF guest_max(1) [of p], of env "al_minCID (guestAllocator p)" d]
    by (auto simp: Allocate_def split: option.splits)
  then have n: "(Allocate env (guestAllocator p) d = None) = False" for p d by blast
  have "CreateVM os env rt ns i b cfg m d w \<noteq> None"
    by (auto simp: n CreateVM_def NewInstance_def newInstance_def Let_def split: option.splits prod.splits sum.splits)
  then show ?thesis by (metis option.exhaust prod_cases4)
qed

text \<open>What \<open>Create\<close> needs to return: the clock goes on, setting up the network does not panic, and
  the resources of the loaded specification are computed (a range of CPUs up to the largest integer is not).\<close>

definition createReturns :: "'w task_env \<Rightarrow> CreateTaskRequest \<Rightarrow> bool" where
  "createReturns env r \<longleftrightarrow> osClockOk (te_os env)
     \<and> (\<forall>q i ns w. \<exists>x. te_networkSetup env q i ns w = Ret x)
     \<and> (\<forall>w b. LoadForCreate (te_readFile env w) (te_unmarshal env) (te_caps env) (cr_Bundle r) = Inr b
          \<longrightarrow> (\<exists>c. ComputeConfig (te_hostCPUs env) (te_meminfo env w) (b_Spec b) = returns c))"

lemma setupMountsNetwork_returns:
  assumes "createReturns env r"
  shows "\<exists>err cs' q' y. setupMountsNetwork (loggedEnv env) cs q x = returns (err, cs', q', y)"
proof -
  have n: "\<exists>r q' y. loggedNetworkSetup (te_networkSetup env) q i ns x = Ret (r, q', y)" for q i ns x
  proof -
    obtain v where "te_networkSetup env q i ns (fst x) = Ret v" using assms unfolding createReturns_def by blast
    then show ?thesis by (cases v) (simp add: loggedNetworkSetup_def)
  qed
  obtain r1 q1 x1 where m: "loggedMountsSetup (te_mountsSetup env) q (cr_ID (cs_request cs)) (cr_Rootfs (cs_request cs)) x = (r1, q1, x1)"
    by (metis prod_cases3)
  show ?thesis
  proof (cases r1)
    case (Inr mc)
    obtain r2 q2 y where "loggedNetworkSetup (te_networkSetup env) q1 (cr_ID (cs_request cs)) (''/var/run/netns/'' @ cr_ID (cs_request cs)) x1 = Ret (r2, q2, y)"
      using n by blast
    then show ?thesis using m Inr by (cases mc; cases r2) (simp_all add: setupMountsNetwork_def Let_def)
  qed (use m in \<open>simp add: setupMountsNetwork_def Let_def\<close>)
qed

text \<open>The state after the VM, its mounts and its network have been set up, or one of them has failed.\<close>

definition setupDone :: "CreateTaskRequest \<Rightarrow> 'w service \<Rightarrow> goerr option \<Rightarrow> 'w createState \<Rightarrow> 'w service \<Rightarrow> bool" where
  "setupDone r s err cs' s' \<longleftrightarrow> cs_request cs' = r \<and> (\<exists>m. s' = s\<lparr>ts_vmLifecycle := m\<rparr>)
     \<and> (err = None \<longrightarrow> cs_bundle cs' \<noteq> None \<and> cs_resourceCfg cs' \<noteq> None \<and> (\<exists>q. mg_instance (ts_vmLifecycle s') = Iface q))"

lemma setupVMInstance_log:
  fixes env :: "'w task_env"
  assumes ok: "createReturns env r" and new: "mg_instance (ts_vmLifecycle s) = NilIface"
  shows "\<exists>err cs' s' d' y ups. setupVMInstance (loggedEnv env) (newCreateState r) s d x = returns (err, cs', s', d', y)
    \<and> tracks cs' ups \<and> snd y = snd x @ ups \<and> setupDone r s err cs' s'
    \<and> (err = None \<longrightarrow> Up (ResNetwork (cr_ID r)) \<in> set ups)"
proof -
  let ?env = "loggedEnv env" and ?cs = "newCreateState r :: ('w \<times> svcEvent list) createState"
  have same: "s = s\<lparr>ts_vmLifecycle := ts_vmLifecycle s\<rparr>" by simp
  have early: ?thesis
    if "setupVMInstance ?env ?cs s d x = returns (Some e, cs1, s\<lparr>ts_vmLifecycle := m\<rparr>, d1, y)" "cs_cleanup cs1 = []" "cs_request cs1 = r" "snd y = snd x"
    for e cs1 m d1 y
  proof -
    have "setupDone r s (Some e) cs1 (s\<lparr>ts_vmLifecycle := m\<rparr>)" using that by (auto simp: setupDone_def)
    then show ?thesis using that tracks_empty [OF that(2)] by (intro exI conjI) (assumption | simp)+
  qed
  obtain oe ver where kvm: "te_kvm env (fst x) = (oe, ver)" by (metis surj_pair)
  show ?thesis
  proof (cases "CheckKVM oe ver")
    case (Some e)
    then show ?thesis using kvm same by (intro early [of e ?cs "ts_vmLifecycle s" d x]) (simp_all add: setupVMInstance_def newCreateState_def)
  next
    case k: None
    show ?thesis
    proof (cases "LoadForCreate (te_readFile env (fst x)) (te_unmarshal env) (te_caps env) (cr_Bundle r)")
      case (Inl e)
      then show ?thesis using kvm k same by (intro early [of e ?cs "ts_vmLifecycle s" d x]) (simp_all add: setupVMInstance_def newCreateState_def)
    next
      case b: (Inr b)
      then obtain cfg info where c: "ComputeConfig (te_hostCPUs env) (te_meminfo env (fst x)) (b_Spec b) = returns (cfg, info)"
        using ok unfolding createReturns_def by (metis surj_pair)
      define cs1 where "cs1 = ?cs\<lparr>cs_bundle := Some b, cs_resourceCfg := Some cfg\<rparr>"
      have c1: "cs_cleanup cs1 = []" "cs_request cs1 = r" by (simp_all add: cs1_def newCreateState_def)
      show ?thesis
      proof (cases "supervisorSetup ?env (b_Spec b) x")
        case (Inl e)
        then show ?thesis using kvm k b c same c1
          by (intro early [of e cs1 "ts_vmLifecycle s" d x]) (simp_all add: setupVMInstance_def newCreateState_def cs1_def)
      next
        case sup: (Inr supCfg)
        define cs2 where "cs2 = cs1\<lparr>cs_supervisorCfg := supCfg\<rparr>"
        have c2: "cs_cleanup cs2 = []" "cs_request cs2 = r" "cs_bundle cs2 = Some b" "cs_resourceCfg cs2 = Some cfg"
          by (simp_all add: cs2_def cs1_def newCreateState_def)
        obtain e m d1 x1 where v: "CreateVM (pairOs (te_os env)) (te_cid env) (te_vmStateRoot env) (te_namespace env) (cr_ID r) (cr_Bundle r)
            (Some cfg) (ts_vmLifecycle s) d x = Some (e, m, d1, x1)"
          using CreateVM_returns [of "pairOs (te_os env)" "te_cid env" "te_vmStateRoot env" "te_namespace env" "cr_ID r" "cr_Bundle r"
            "Some cfg" "ts_vmLifecycle s" d x] by blast
        have x1: "snd x1 = snd x" by (rule paired.CreateVM_frame [OF v])
        have eq: "setupVMInstance ?env ?cs s d x = (case e of
            Some e' \<Rightarrow> returns (Some e', cs2, s\<lparr>ts_vmLifecycle := m\<rparr>, d1, x1)
          | None \<Rightarrow> (case mg_instance m of
              Iface q \<Rightarrow> bindRun (setupMountsNetwork ?env cs2 q x1) (\<lambda>(err, cs3, q1, w2).
                returns (err, cs3, setInstance q1 (s\<lparr>ts_vmLifecycle := m\<rparr>), d1, w2))
            | _ \<Rightarrow> Some nilDeref))"
          using kvm k b c sup v
          by (cases e) (simp_all add: setupVMInstance_def newCreateState_def cs1_def cs2_def split: iface.split)
        show ?thesis
        proof (cases e)
          case (Some e')
          then show ?thesis using eq c2 x1 by (intro early [of e' cs2 m d1 x1]) simp_all
        next
          case None
          then obtain q where q: "mg_instance m = Iface q" using CreateVM_result [OF v new] by auto
          obtain err cs3 q1 y where sm: "setupMountsNetwork ?env cs2 q x1 = returns (err, cs3, q1, y)"
            using setupMountsNetwork_returns [OF ok] by blast
          from setupMountsNetwork_log [OF sm c2(1)] obtain ups where u: "tracks cs3 ups" "snd y = snd x1 @ ups" "cs_request cs3 = r"
            "err = None \<Longrightarrow> Up (ResNetwork (cr_ID r)) \<in> set ups \<and> cs_bundle cs3 = Some b \<and> cs_resourceCfg cs3 = Some cfg"
            using c2 by auto
          let ?s' = "setInstance q1 (s\<lparr>ts_vmLifecycle := m\<rparr>)"
          have "setupDone r s err cs3 ?s'" using u(3,4) by (auto simp: setupDone_def)
          then show ?thesis using eq None q sm u x1
            by (intro exI [of _ err] exI [of _ cs3] exI [of _ ?s'] exI [of _ d1] exI [of _ y] exI [of _ ups]) simp
        qed
      qed
    qed
  qed
qed

lemma startVM_log:
  assumes ok: "createReturns env r" and q: "mg_instance (ts_vmLifecycle s) = Iface q"
  shows "\<exists>err s' y q'. startVM (loggedEnv env) cs s x = returns (err, s', y) \<and> snd y = snd x
    \<and> ts_container s' = ts_container s \<and> State (ts_stateMachine s') = State (ts_stateMachine s)
    \<and> mg_instance (ts_vmLifecycle s') = Iface q'"
proof -
  have clk: "clockOk (qo_net (pairOs (te_os env)))" using ok osClockOk_pair by (auto simp: createReturns_def osClockOk_def)
  let ?so = "\<lparr>so_InitArgs = (case cs_supervisorCfg cs of None \<Rightarrow> [] | Some c \<Rightarrow> sup_InitArgs c),
    so_NetworkConfig = cs_netConfig cs, so_NetworkNamespace = cs_netnsPath cs\<rparr>"
  obtain err q1 x1 where st: "Start (pairOs (te_os env)) ?so q x = Some (err, q1, x1)"
    using Start_returns [OF clk, of ?so q x] by blast
  have x1: "snd x1 = snd x" by (rule paired.Start_frame [OF st])
  show ?thesis
  proof (cases err)
    case (Some e)
    then show ?thesis using st x1 q by (simp add: startVM_def)
  next
    case None
    have "q_vmState q = vmStateNew" using st None Start_not_new [of q "pairOs (te_os env)" ?so x] by (cases "q_vmState q = vmStateNew") auto
    from Start_shape [OF st this] None have "q_vmState q1 = vmStateRunning" "allConnected q1" by simp_all
    then obtain c where c: "Client q1 = Inr (Some c)" by (auto simp: Client_def getState_def allConnected_def)
    obtain res y where "rp_Stream (pairGuest (te_guest env)) c x1 = (res, y)" by (metis surj_pair)
    moreover from this have "snd y = snd x1" by (auto simp: pairGuest_def dest: pairP_snd)
    ultimately show ?thesis using st x1 q None c
      by (cases res) (simp_all add: startVM_def mgr_Client_def SetIntentionalShutdown_def State_def)
  qed
qed

lemma createGuestTask_log:
  assumes "createGuestTask (loggedEnv env) cs c gb q x = (res, cs', q', y)"
  shows "cs_cleanup cs' = cs_cleanup cs \<and> cs_request cs' = cs_request cs \<and> cs_resourceCfg cs' = cs_resourceCfg cs
    \<and> (case res of
         Inl e \<Rightarrow> snd y = snd x \<or> (\<exists>h. snd y = snd x @ [Up (ResIO h), Down (ResIO h)])
       | Inr pid \<Rightarrow> \<exists>h. cs_ioForwarder cs' = Some h \<and> snd y = snd x @ [Up (ResIO h)])"
proof -
  let ?r = "cs_request cs"
  obtain r1 q1 w1 where f: "te_forwardIO env q (cr_ID ?r) '''' (cr_Stdio ?r) (fst x) = (r1, q1, w1)" by (metis prod_cases3)
  show ?thesis
  proof (cases r1)
    case (Inl e)
    then show ?thesis using assms f by (auto simp: createGuestTask_def loggedForwardIO_def Let_def)
  next
    case (Inr ch)
    obtain cio h where ch: "ch = (cio, h)" by (metis surj_pair)
    let ?vr = "\<lparr>cr_ID = cr_ID ?r, cr_Bundle = gb, cr_Rootfs = cs_mounts cs, cr_Stdio = cio, cr_Options = cr_Options ?r,
      cr_Checkpoint = '''', cr_ParentCheckpoint = ''''\<rparr>"
    obtain r2 w2 where g: "rp_Create (te_guest env) c ?vr w1 = (r2, w2)" by (metis surj_pair)
    show ?thesis
      using assms f Inr ch g
      by (cases r2) (auto simp: createGuestTask_def loggedForwardIO_def Let_def pairGuest_def pairP_def logP_def case_prod_unfold)
  qed
qed

lemma createTaskInVM_log:
  assumes "mg_instance (ts_vmLifecycle s) = Iface q" "cs_bundle cs \<noteq> None"
  shows "\<exists>res cs' s' y. createTaskInVM (loggedEnv env) cs s x = returns (res, cs', s', y)
    \<and> cs_cleanup cs' = cs_cleanup cs \<and> cs_request cs' = cs_request cs \<and> cs_resourceCfg cs' = cs_resourceCfg cs
    \<and> (\<exists>q'. s' = setInstance q' s)
    \<and> (case res of
         Inl e \<Rightarrow> snd y = snd x \<or> (\<exists>h. snd y = snd x @ [Up (ResIO h), Down (ResIO h)])
       | Inr pid \<Rightarrow> \<exists>h. cs_ioForwarder cs' = Some h \<and> snd y = snd x @ [Up (ResIO h)])"
proof -
  have s: "s = setInstance q s" using assms(1) by simp
  have early: ?thesis
    if "createTaskInVM (loggedEnv env) cs s x = returns (Inl e, cs1, s, y)" "snd y = snd x" "cs_cleanup cs1 = cs_cleanup cs"
      "cs_request cs1 = cs_request cs" "cs_resourceCfg cs1 = cs_resourceCfg cs" for e cs1 y
    using that s by (intro exI [of _ "Inl e"] exI [of _ cs1] exI [of _ s] exI [of _ y]) auto
  show ?thesis
  proof (cases "addSupervisorBinary cs")
    case (Inl e)
    then show ?thesis by (intro early [of e cs x]) (simp_all add: createTaskInVM_def)
  next
    case (Inr cs1)
    then have c1: "cs_cleanup cs1 = cs_cleanup cs" "cs_request cs1 = cs_request cs" "cs_resourceCfg cs1 = cs_resourceCfg cs"
      "cs_bundle cs1 \<noteq> None"
      using assms(2) by (auto simp: addSupervisorBinary_def split: option.splits if_splits sum.splits)
    then obtain b where b: "cs_bundle cs1 = Some b" by blast
    obtain r1 x1 where d: "DialClient (pairOs (te_os env)) q x = (r1, x1)" by (metis surj_pair)
    have x1: "snd x1 = snd x" by (rule paired.DialClient_frame [OF d])
    have md: "mgr_DialClient (pairOs (te_os env)) (ts_vmLifecycle s) x = Ret (r1, x1)"
      using d assms(1) by (simp add: mgr_DialClient_def)
    show ?thesis
    proof (cases r1)
      case (Inl e)
      then show ?thesis using Inr md x1 c1 assms(1) b by (intro early [of e cs1 x1]) (simp_all add: createTaskInVM_def)
    next
      case c: (Inr c)
      show ?thesis
      proof (cases "bundle_Files (te_marshal env) b")
        case (Inl e)
        then show ?thesis using Inr md x1 c1 assms(1) b c by (intro early [of e cs1 x1]) (simp_all add: createTaskInVM_def)
      next
        case fs: (Inr fs)
        obtain r2 x2 where g: "rp_bundleCreate (pairGuest (te_guest env)) c (cr_ID (cs_request cs1)) fs x1 = (r2, x2)" by (metis surj_pair)
        then have x2: "snd x2 = snd x" using x1 by (auto simp: pairGuest_def dest: pairP_snd)
        show ?thesis
        proof (cases r2)
          case (Inl e)
          then show ?thesis using Inr md x2 c1 assms(1) b c fs g by (intro early [of e cs1 x2]) (simp_all add: createTaskInVM_def)
        next
          case gb: (Inr gb)
          obtain res cs2 q1 y where t: "createGuestTask (loggedEnv env) cs1 c gb q x2 = (res, cs2, q1, y)" by (metis prod_cases4)
          have "createTaskInVM (loggedEnv env) cs s x = returns (res, cs2, setInstance q1 s, y)"
            using Inr md assms(1) b c fs g gb t by (simp add: createTaskInVM_def)
          then show ?thesis using createGuestTask_log [OF t] c1 x2
            by (intro exI [of _ res] exI [of _ cs2] exI [of _ "setInstance q1 s"] exI [of _ y]) (cases res; auto)
        qed
      qed
    qed
  qed
qed

lemma finalizeCreate_log:
  assumes "mg_instance (ts_vmLifecycle s) = Iface q" "cs_resourceCfg cs = Some cfg" "cs_ioForwarder cs = Some h"
  shows "\<exists>s' y vs c. finalizeCreate (loggedEnv env) cs pid s x = returns (s', y)
    \<and> ts_container s' = Some c \<and> c_pid c = pid \<and> ts_containerID s' = cr_ID (cs_request cs) \<and> ts_stateMachine s' = ts_stateMachine s
    \<and> snd y = snd x @ vs \<and> list_all isUp vs"
proof -
  let ?i = "cr_ID (cs_request cs)"
  obtain a w1 where c: "te_startCPU env ?i q cfg (fst x) = (a, w1)" by (metis surj_pair)
  obtain b w2 where m: "te_startMem env ?i q cfg w1 = (b, w2)" by (metis surj_pair)
  show ?thesis
    using assms c m
    by (cases a; cases b) (simp_all add: finalizeCreate_def Let_def logStart_def)
qed

lemmas state_defs = TryStartCreating_def MarkCreationFailed_def MarkCreated_def TryStartDeleting_def ForceTransition_def
  SetIntentionalShutdown_def sm_cas_def sm_store_def State_def

lemma creationFailed_simps:
  "State (ts_stateMachine s) = StateCreating \<Longrightarrow> State (ts_stateMachine (creationFailed s)) = StateIdle"
  "ts_container (creationFailed s) = ts_container s"
  by (simp_all add: creationFailed_def state_defs)

text \<open>How a request ends, with what it recorded.\<close>

definition createOutcome :: "string \<Rightarrow> goerr + 32 word \<Rightarrow> 'w service \<Rightarrow> svcEvent list \<Rightarrow> bool" where
  "createOutcome i res s' l \<longleftrightarrow>
     (case res of
        Inl e \<Rightarrow> State (ts_stateMachine s') = StateIdle \<and> ts_container s' = None
          \<and> (\<exists>ups. list_all isUp ups \<and> l = ups @ map undo (rev ups))
      | Inr pid \<Rightarrow> State (ts_stateMachine s') = StateRunning
          \<and> (\<exists>c. ts_container s' = Some c \<and> c_pid c = pid) \<and> ts_containerID s' = i
          \<and> list_all isUp l \<and> Up (ResNetwork i) \<in> set l)"

lemma rolled_back:
  assumes "tracks cs ups" "State (ts_stateMachine s) = StateCreating" "ts_container s = None"
    "snd x = ups @ vs @ map undo (rev vs)" "list_all isUp vs"
  shows "createOutcome i (Inl e) (creationFailed s) (snd (rollback cs x))"
proof -
  have "snd (rollback cs x) = (ups @ vs) @ map undo (rev (ups @ vs))"
    using assms(1,4) unfolding tracks_def by (cases x) simp
  moreover have "list_all isUp (ups @ vs)" using assms(1,5) by (simp add: tracks_def)
  ultimately have "\<exists>us. list_all isUp us \<and> snd (rollback cs x) = us @ map undo (rev us)" by blast
  then show ?thesis using assms(2,3) by (simp add: createOutcome_def creationFailed_simps)
qed

lemma create_run:
  assumes ok: "createReturns env r" and v: "validateCreateRequest r s = (None, s1)"
    and s1: "State (ts_stateMachine s1) = StateCreating" "ts_container s1 = None" "mg_instance (ts_vmLifecycle s1) = NilIface"
  shows "\<exists>res s' d' y. task_Create (loggedEnv env) r s d (w, []) = returns (res, s', d', y) \<and> createOutcome (cr_ID r) res s' (snd y)"
proof -
  from setupVMInstance_log [OF ok s1(3), of d "(w, [])"] obtain e1 cs1 s2 d1 x1 ups where
    st1: "setupVMInstance (loggedEnv env) (newCreateState r) s1 d (w, []) = returns (e1, cs1, s2, d1, x1)"
    and t: "tracks cs1 ups" and "snd x1 = snd (w, []) @ ups" and done1: "setupDone r s1 e1 cs1 s2"
    and net: "e1 = None \<longrightarrow> Up (ResNetwork (cr_ID r)) \<in> set ups" by blast
  then have l1: "snd x1 = ups" by simp
  have s2: "State (ts_stateMachine s2) = StateCreating" "ts_container s2 = None" using done1 s1 by (auto simp: setupDone_def)
  show ?thesis
  proof (cases e1)
    case (Some e)
    then have "task_Create (loggedEnv env) r s d (w, []) = returns (Inl e, creationFailed s2, d1, rollback cs1 x1)"
      using v st1 by (simp add: task_Create_def)
    with rolled_back [OF t s2, of x1 "[]"] l1 show ?thesis by simp
  next
    case None
    then obtain q b cfg where q: "mg_instance (ts_vmLifecycle s2) = Iface q" "cs_bundle cs1 = Some b" "cs_resourceCfg cs1 = Some cfg"
      "cs_request cs1 = r" using done1 by (auto simp: setupDone_def)
    from startVM_log [OF ok q(1), of cs1 x1] obtain e2 s3 x2 q3 where
      st2: "startVM (loggedEnv env) cs1 s2 x1 = returns (e2, s3, x2)" and l2: "snd x2 = ups"
      and s3: "State (ts_stateMachine s3) = StateCreating" "ts_container s3 = None" and q3: "mg_instance (ts_vmLifecycle s3) = Iface q3"
      using s2 l1 by auto
    show ?thesis
    proof (cases e2)
      case (Some e)
      then have "task_Create (loggedEnv env) r s d (w, []) = returns (Inl e, creationFailed s3, d1, rollback cs1 x2)"
        using v st1 None st2 by (simp add: task_Create_def)
      with rolled_back [OF t s3, of x2 "[]"] l2 show ?thesis by simp
    next
      case e2: None
      have "cs_bundle cs1 \<noteq> None" using q by simp
      from createTaskInVM_log [OF q3 this, of env x2] obtain res cs2 s4 x3 q4 where
        st3: "createTaskInVM (loggedEnv env) cs1 s3 x2 = returns (res, cs2, s4, x3)"
        and c2: "cs_cleanup cs2 = cs_cleanup cs1" "cs_request cs2 = r" "cs_resourceCfg cs2 = Some cfg" and s4: "s4 = setInstance q4 s3"
        and l3: "case res of Inl e \<Rightarrow> snd x3 = snd x2 \<or> (\<exists>h. snd x3 = snd x2 @ [Up (ResIO h), Down (ResIO h)])
          | Inr pid \<Rightarrow> \<exists>h. cs_ioForwarder cs2 = Some h \<and> snd x3 = snd x2 @ [Up (ResIO h)]" using q by auto
      have t2: "tracks cs2 ups" using t tracks_cong [OF c2(1)] by simp
      have s4': "State (ts_stateMachine s4) = StateCreating" "ts_container s4 = None" using s3 s4 by simp_all
      show ?thesis
      proof (cases res)
        case (Inl e)
        then obtain vs where "snd x3 = ups @ vs @ map undo (rev vs)" "list_all isUp vs"
          using l3 l2 by (auto intro: that [of "[]"] that [of "[Up (ResIO _)]"])
        moreover have "task_Create (loggedEnv env) r s d (w, []) = returns (Inl e, creationFailed s4, d1, rollback cs2 x3)"
          using v st1 None st2 e2 st3 Inl by (simp add: task_Create_def)
        ultimately show ?thesis using rolled_back [OF t2 s4'] by simp
      next
        case (Inr pid)
        then obtain h where h: "cs_ioForwarder cs2 = Some h" "snd x3 = ups @ [Up (ResIO h)]" using l3 l2 by auto
        from finalizeCreate_log [OF _ c2(3) h(1), of s4 q4 env pid x3] s4 obtain s5 y vs c where
          st4: "finalizeCreate (loggedEnv env) cs2 pid s4 x3 = returns (s5, y)"
          and s5: "ts_container s5 = Some c" "c_pid c = pid" "ts_containerID s5 = cr_ID r" "ts_stateMachine s5 = ts_stateMachine s4"
          and l4: "snd y = snd x3 @ vs" "list_all isUp vs" using c2 by auto
        have "createOutcome (cr_ID r) (Inr pid) (setState' (snd (MarkCreated (ts_stateMachine s5))) s5) (snd y)"
          using s5 s4' h l4 t net None by (simp add: createOutcome_def state_defs tracks_def)
        moreover have "task_Create (loggedEnv env) r s d (w, [])
            = returns (Inr pid, setState' (snd (MarkCreated (ts_stateMachine s5))) s5, d1, y)"
          using v st1 None st2 e2 st3 Inr st4 by (simp add: task_Create_def)
        ultimately show ?thesis by simp
      qed
    qed
  qed
qed


definition demoNM :: "int NetworkManager" where
  "demoNM =
     \<lparr>nm_EnsureNetworkResources = \<lambda>e w. (None, e\<lparr>env_NetworkInfo := Some \<lparr>ni_TapName = ''tap0'', ni_MAC = ''02:00:00:00:00:01'',
        ni_IP = ''10.0.0.2'', ni_Netmask = ''255.255.255.0'', ni_Gateway = ''10.0.0.1''\<rparr>\<rparr>, w),
      nm_ReleaseNetworkResources = \<lambda>e w. (None, e, w), nm_Close = \<lambda>w. (None, w)\<rparr>"

definition demoGuest :: "int guest_rpc" where
  "demoGuest =
     \<lparr>rp_bundleCreate = \<lambda>c i fs w. (Inr i, w), rp_Create = \<lambda>c r w. (Inr 17, w), rp_Start = \<lambda>c i x w. (Inr 17, w),
      rp_Delete = \<lambda>c i x w. (Inl (Errorf ''not found''), w), rp_Exec = \<lambda>c r w. (None, w),
      rp_State = \<lambda>c i x w. (Inl (Errorf ''not found''), w), rp_Connect = \<lambda>c i w. (Inr 17, w),
      rp_CloseIO = \<lambda>c i x b w. (None, w), rp_ResizePty = \<lambda>c i x d w. (None, w), rp_Kill = \<lambda>c i x k w. (None, w),
      rp_Pids = \<lambda>c i w. (Inr [17], w), rp_Update = \<lambda>c i u w. (None, w), rp_Wait = \<lambda>c i x w. (Inr (0, 0), w),
      rp_Stats = \<lambda>c i w. (Inr '''', w), rp_Stream = \<lambda>c w. (Inr 1, w)\<rparr>"

definition demoEnv :: "int task_env" where
  "demoEnv =
     \<lparr>te_os = silentOs, te_cid = quiet_cid_env, te_vmStateRoot = ''/run'', te_namespace = Some ''default'',
      te_kvm = \<lambda>w. (None, Inr 12), te_readFile = \<lambda>w. Inr, te_unmarshal = \<lambda>b. Inr bindSpec, te_marshal = \<lambda>s. Inr ''{}'',
      te_caps = [''CAP_KILL''], te_hostCPUs = 8, te_meminfo = \<lambda>w. demoMeminfo, te_nm = demoNM,
      te_mountsSetup = \<lambda>q i ms w. (Inr (ms, None), q, w), te_networkSetup = \<lambda>q i ns w. network_Setup demoNM [] i q w,
      te_guest = demoGuest, te_forwardIO = \<lambda>q i x sio w. (Inr (sio, 1), q, w), te_ioStart = \<lambda>h w. (None, w),
      te_ioShutdown = \<lambda>h w. (None, w), te_ioCloseStdin = \<lambda>h w. w, te_startCPU = \<lambda>i q c w. (Some 1, w),
      te_startMem = \<lambda>i q c w. (None, w), te_stopCPU = \<lambda>h w. w, te_stopMem = \<lambda>h w. w, te_getpid = 4242\<rparr>"

definition demoRequest :: CreateTaskRequest where
  "demoRequest = \<lparr>cr_ID = ''c1'', cr_Bundle = ''/b'', cr_Rootfs = [],
     cr_Stdio = \<lparr>sio_Stdin = '''', sio_Stdout = ''/f'', sio_Stderr = '''', sio_Terminal = False\<rparr>,
     cr_Options = '''', cr_Checkpoint = '''', cr_ParentCheckpoint = ''''\<rparr>"

lemma demo_config: "\<exists>c. ComputeConfig 8 demoMeminfo (b_Spec bindBundle) = returns c"
proof -
  have eq: "extractCPURequest (Some (b_Spec bindBundle)) = extractCPURequest (Some demoSpec)"
      "extractMemoryRequest (Some (b_Spec bindBundle)) = extractMemoryRequest (Some demoSpec)"
    by (simp_all add: bindBundle_def AdaptForVM_def demoSpec_def Let_def extractCPURequest_def extractMemoryRequest_def
        specCPU_def specMemory_def)
  then have m: "extractMemoryRequest (Some (b_Spec bindBundle)) < 2 ^ 61" by (simp add: demo_spec_requests)
  show ?thesis
    by (rule compute_config_shape [OF demo_meminfo_total _ _ m eq(1) [unfolded demo_spec_requests], of 8]) (simp, simp, blast)
qed

lemma demo_returns: "createReturns demoEnv demoRequest"
proof -
  have "nmProvides demoNM" by (simp add: nmProvides_def demoNM_def)
  then have "\<exists>x. te_networkSetup demoEnv q i ns w = Ret x" for q i ns w
    using network_Setup_returns by (simp add: demoEnv_def)
  then show ?thesis
    using silentOs_clock demo_config by (simp add: createReturns_def demoEnv_def demoRequest_def bind_loaded)
qed


end
