(* ===== verification/Refinement.thy ===== *)
theory Refinement
  imports Go_Prelude
begin

text \<open>
  Refinement of an abstract specification by a component that serves requests. A request may not terminate
  (\<open>None\<close>), panic, or return a response and a new state. The specification says for an abstract state, a request
  and its response what the abstract state is afterwards, or that this response is not allowed.
\<close>

fun runOps :: "('op \<Rightarrow> 's \<Rightarrow> ('r \<times> 's) run) \<Rightarrow> 'op list \<Rightarrow> 's \<Rightarrow> ('r list \<times> 's go) option" where
  "runOps step [] s = Some ([], Ret s)"
| "runOps step (x # xs) s =
     (case step x s of
        None \<Rightarrow> None
      | Some (Panic m) \<Rightarrow> Some ([], Panic m)
      | Some (Ret (r, s')) \<Rightarrow> map_option (\<lambda>(rs, t). (r # rs, t)) (runOps step xs s'))"

fun specRun :: "('a \<Rightarrow> 'op \<Rightarrow> 'r \<Rightarrow> 'a option) \<Rightarrow> 'a \<Rightarrow> ('op \<times> 'r) list \<Rightarrow> 'a option" where
  "specRun spec a [] = Some a"
| "specRun spec a ((x, r) # xs) = (case spec a x r of None \<Rightarrow> None | Some b \<Rightarrow> specRun spec b xs)"

text \<open>A call that ends, with a result or a panic.\<close>

definition ends :: "'a option \<Rightarrow> bool" where
  "ends x \<longleftrightarrow> x \<noteq> None"

lemma ends_simps [simp]: "ends (Some y)" "\<not> ends None"
  by (simp_all add: ends_def)

lemma ends_bind: "ends (bindRun x f) \<longleftrightarrow> ends x \<and> (\<forall>a. x = returns a \<longrightarrow> ends (f a))"
  by (cases "(x, f)" rule: bindRun.cases) auto

locale refinement =
  fixes step :: "'op \<Rightarrow> 's \<Rightarrow> ('r \<times> 's) run"
    and spec :: "'a \<Rightarrow> 'op \<Rightarrow> 'r \<Rightarrow> 'a option"
    and view :: "'s \<Rightarrow> 'a"
    and inv :: "'s \<Rightarrow> bool"
  assumes terminates: "inv s \<Longrightarrow> ends (step x s)"
    and inv_step: "inv s \<Longrightarrow> step x s = returns (r, s') \<Longrightarrow> inv s'"
    and simulates: "inv s \<Longrightarrow> step x s = returns (r, s') \<Longrightarrow> spec (view s) x r = Some (view s')"
begin

lemma trace:
  assumes "inv s"
  shows "\<exists>rs t. runOps step xs s = Some (rs, t)
    \<and> (case t of
         Ret s' \<Rightarrow> length rs = length xs \<and> inv s' \<and> specRun spec (view s) (zip xs rs) = Some (view s')
       | Panic m \<Rightarrow> length rs < length xs \<and> specRun spec (view s) (zip xs rs) \<noteq> None)"
  using assms
proof (induction xs arbitrary: s)
  case Nil
  then show ?case by simp
next
  case (Cons x xs)
  obtain y where y: "step x s = Some y" using terminates [OF Cons.prems] by (auto simp: ends_def)
  show ?case
  proof (cases y)
    case (Ret p)
    obtain r s1 where p: "p = (r, s1)" by (metis surj_pair)
    have st: "step x s = returns (r, s1)" using y Ret p by simp
    from Cons.IH [OF inv_step [OF Cons.prems st]] obtain rs t where t: "runOps step xs s1 = Some (rs, t)"
      "case t of Ret s' \<Rightarrow> length rs = length xs \<and> inv s' \<and> specRun spec (view s1) (zip xs rs) = Some (view s')
       | Panic m \<Rightarrow> length rs < length xs \<and> specRun spec (view s1) (zip xs rs) \<noteq> None" by blast
    then show ?thesis using st simulates [OF Cons.prems st]
      by (intro exI [of _ "r # rs"] exI [of _ t]) (cases t; simp)
  qed (use y in simp)
qed

lemma answers:
  assumes "inv s"
  obtains rs t where "runOps step xs s = Some (rs, t)" "\<And>m. t = Panic m \<Longrightarrow> length rs < length xs"
proof -
  obtain rs t where *: "runOps step xs s = Some (rs, t)" "case t of
      Ret s' \<Rightarrow> length rs = length xs \<and> inv s' \<and> specRun spec (view s) (zip xs rs) = Some (view s')
    | Panic m \<Rightarrow> length rs < length xs \<and> specRun spec (view s) (zip xs rs) \<noteq> None"
    using trace [OF assms, of xs] by blast
  show thesis by (rule that [OF *(1)]) (use *(2) in simp)
qed

end

end
