(* ===== verification/Task_Refinement.thy ===== *)
theory Task_Refinement
  imports Task_Create Refinement
begin

text \<open>
  The shim as containerd sees it: a service that runs at most one task, once. Every sequence of requests the model of
  the task service serves is one of this specification.
\<close>

section \<open>Requests\<close>

datatype request =
    ReqCreate CreateTaskRequest
  | ReqStart string string
  | ReqDelete string string
  | ReqExec ExecRequest
  | ReqResizePty string string "nat \<times> nat"
  | ReqState string string
  | ReqPause string
  | ReqResume string
  | ReqKill string string "nat \<times> bool"
  | ReqPids string
  | ReqCloseIO string string bool
  | ReqCheckpoint string
  | ReqUpdate string string
  | ReqWait string string
  | ReqConnect string
  | ReqStats string
  | ReqShutdown
  | ShutdownCallback

datatype response =
    RespErr goerr
  | RespPid "32 word"
  | RespConnect "32 word" "32 word"
  | RespDelete DeleteResponse
  | RespOther

definition respond :: "('r \<Rightarrow> response) \<Rightarrow> goerr + 'r \<Rightarrow> response" where
  "respond f res = (case res of Inl e \<Rightarrow> RespErr e | Inr r \<Rightarrow> f r)"

type_synonym 'w shim = "'w service \<times> lockdir \<times> 'w"

definition onShim ::
  "('r \<Rightarrow> response) \<Rightarrow> ('w service \<Rightarrow> 'w \<Rightarrow> ((goerr + 'r) \<times> 'w service \<times> 'w) run) \<Rightarrow> 'w shim \<Rightarrow> (response \<times> 'w shim) run" where
  "onShim f op x =
     (case x of (s, d, w) \<Rightarrow> bindRun (op s w) (\<lambda>(res, s1, w1). returns (respond f res, s1, d, w1)))"

fun serve :: "'w task_env \<Rightarrow> request \<Rightarrow> 'w shim \<Rightarrow> (response \<times> 'w shim) run" where
  "serve env (ReqCreate r) (s, d, w) =
     bindRun (task_Create env r s d w) (\<lambda>(res, x). returns (respond RespPid res, x))"
| "serve env (ReqStart i e) x = onShim RespPid (task_Start env i e) x"
| "serve env (ReqDelete i e) x = onShim RespDelete (task_Delete env i e) x"
| "serve env (ReqExec r) x = onShim (\<lambda>_. RespOther) (task_Exec env r) x"
| "serve env (ReqResizePty i e dims) x = onShim (\<lambda>_. RespOther) (task_ResizePty env i e dims) x"
| "serve env (ReqState i e) x = onShim (\<lambda>_. RespOther) (task_State env i e) x"
| "serve env (ReqPause i) x = returns (RespErr task_Pause, x)"
| "serve env (ReqResume i) x = returns (RespErr task_Resume, x)"
| "serve env (ReqKill i e sig) x = onShim (\<lambda>_. RespOther) (task_Kill env i e sig) x"
| "serve env (ReqPids i) x = onShim (\<lambda>_. RespOther) (task_Pids env i) x"
| "serve env (ReqCloseIO i e b) x = onShim (\<lambda>_. RespOther) (task_CloseIO env i e b) x"
| "serve env (ReqCheckpoint i) x = returns (RespErr task_Checkpoint, x)"
| "serve env (ReqUpdate i u) x = onShim (\<lambda>_. RespOther) (task_Update env i u) x"
| "serve env (ReqWait i e) x = onShim (\<lambda>_. RespOther) (task_Wait env i e) x"
| "serve env (ReqConnect i) x = onShim (\<lambda>(shim, task). RespConnect shim task) (task_Connect env i) x"
| "serve env (ReqStats i) x = onShim (\<lambda>_. RespOther) (task_Stats env i) x"
| "serve env ReqShutdown (s, d, w) = returns (RespOther, task_Shutdown s, d, w)"
| "serve env ShutdownCallback (s, d, w) =
     bindRun (Some (task_shutdown env s w)) (\<lambda>(err, s1, w1). returns (RespOther, s1, d, w1))"

section \<open>The specification\<close>

datatype taskView = NoTask | Task string "32 word" | Ended

fun taskSpec :: "taskView \<Rightarrow> request \<Rightarrow> response \<Rightarrow> taskView option" where
  "taskSpec a (ReqCreate r) resp =
     (case resp of
        RespPid pid \<Rightarrow> if a = NoTask then Some (Task (cr_ID r) pid) else None
      | RespErr e \<Rightarrow> Some a
      | _ \<Rightarrow> None)"
| "taskSpec a (ReqDelete i e) resp =
     (if e \<noteq> '''' then Some a
      else case a of
             Task j pid \<Rightarrow> Some Ended
           | _ \<Rightarrow> (case resp of RespErr e \<Rightarrow> Some a | _ \<Rightarrow> None))"
| "taskSpec a (ReqConnect i) resp =
     (case a of
        Task j pid \<Rightarrow>
          if j = i \<and> pid \<noteq> 0 then (case resp of RespConnect shim p \<Rightarrow> if p = pid then Some a else None | _ \<Rightarrow> None)
          else Some a
      | _ \<Rightarrow> Some a)"
| "taskSpec a (ReqPause i) resp = (case resp of RespErr e \<Rightarrow> if errIs e ErrNotImplemented then Some a else None | _ \<Rightarrow> None)"
| "taskSpec a (ReqResume i) resp = (case resp of RespErr e \<Rightarrow> if errIs e ErrNotImplemented then Some a else None | _ \<Rightarrow> None)"
| "taskSpec a (ReqCheckpoint i) resp = (case resp of RespErr e \<Rightarrow> if errIs e ErrNotImplemented then Some a else None | _ \<Rightarrow> None)"
| "taskSpec a ShutdownCallback resp = Some Ended"
| "taskSpec a req resp = Some a"

definition viewOf :: "'w service \<Rightarrow> taskView" where
  "viewOf s =
     (case State (ts_stateMachine s) of
        StateIdle \<Rightarrow> NoTask
      | StateRunning \<Rightarrow> (case ts_container s of None \<Rightarrow> Ended | Some c \<Rightarrow> Task (ts_containerID s) (c_pid c))
      | _ \<Rightarrow> Ended)"

definition shimInv :: "'w service \<Rightarrow> bool" where
  "shimInv s \<longleftrightarrow> State (ts_stateMachine s) \<noteq> StateCreating
     \<and> (State (ts_stateMachine s) = StateIdle \<longrightarrow> ts_container s = None)
     \<and> (State (ts_stateMachine s) = StateRunning \<longrightarrow> ts_container s \<noteq> None)"

text \<open>What is left as it was by everything but \<open>Create\<close>, \<open>Delete\<close> and the shutdown.\<close>

definition sameTask :: "'w service \<Rightarrow> 'w service \<Rightarrow> bool" where
  "sameTask s s' \<longleftrightarrow> State (ts_stateMachine s') = State (ts_stateMachine s) \<and> ts_containerID s' = ts_containerID s
     \<and> map_option c_pid (ts_container s') = map_option c_pid (ts_container s)"

lemma sameTask_refl [simp]: "sameTask s s"
  by (simp add: sameTask_def)

lemma sameTask_trans: "sameTask s t \<Longrightarrow> sameTask t u \<Longrightarrow> sameTask s u"
  by (simp add: sameTask_def)

lemma sameTask_view:
  assumes "sameTask s s'"
  shows "viewOf s' = viewOf s" "shimInv s' = shimInv s"
  using assms
  by (cases "ts_container s"; cases "ts_container s'"; cases "State (ts_stateMachine s)"; simp add: viewOf_def shimInv_def sameTask_def)+

section \<open>The requests keep the task\<close>

lemma getTaskClient_same:
  "getTaskClient env s w = returns (res, s', w') \<Longrightarrow> \<exists>m. s' = s\<lparr>ts_connManager := m\<rparr>"
  by (auto simp: getTaskClient_def bindRun_returns_iff)

lemma callGuest_same:
  "callGuest env call s w = returns (res, s', w') \<Longrightarrow> \<exists>m. s' = s\<lparr>ts_connManager := m\<rparr>"
  by (clarsimp simp: callGuest_def bindRun_returns_iff)
    (auto dest!: getTaskClient_same split: sum.splits prod.splits)

lemma sameTask_conn [simp]: "sameTask s (s\<lparr>ts_connManager := m\<rparr>)"
  by (simp add: sameTask_def)

lemma task_Start_same: "task_Start env i e s w = returns (res, s', w') \<Longrightarrow> sameTask s s'"
  by (clarsimp simp: task_Start_def bindRun_returns_iff)
    (auto simp: sameTask_def dest!: callGuest_same split: sum.splits if_splits)

lemma task_State_same: "task_State env i e s w = returns (res, s', w') \<Longrightarrow> sameTask s s'"
  by (cases "if e = '''' \<and> \<not> ts_initStarted s then ts_container s else None"; clarsimp simp: task_State_def bindRun_returns_iff Let_def)
    (auto simp: Let_def dest!: callGuest_same split: sum.splits if_splits option.splits)

lemma task_Connect_same: "task_Connect env i s w = returns (res, s', w') \<Longrightarrow> sameTask s s'"
  by (cases "if ts_containerID s = i then ts_container s else None"; clarsimp simp: task_Connect_def bindRun_returns_iff split: if_splits)
    (auto dest!: callGuest_same)

lemma updExec_pid [simp]: "c_pid (updExec f c) = c_pid c"
  by (simp add: updExec_def)

lemma dropExec_same: "dropExec env i e s w = (s', w') \<Longrightarrow> sameTask s s'"
  by (auto simp: dropExec_def sameTask_def Let_def split: option.splits if_splits prod.splits)

lemma task_Exec_same: "task_Exec env r s w = returns (res, s', w') \<Longrightarrow> sameTask s s'"
  by (clarsimp simp: task_Exec_def bindRun_returns_iff Let_def)
    (auto simp: sameTask_def Let_def dest!: getTaskClient_same dropExec_same
      split: sum.splits if_splits option.splits prod.splits iface.splits)

section \<open>Cleaning up keeps the state machine\<close>

lemma executeLoop_keeps:
  assumes "\<And>p fn x. p \<in> set ps \<Longrightarrow> cp_fn p = Some fn \<Longrightarrow> I x \<Longrightarrow> I (snd (fn x))" "I w"
  shows "I (snd (snd (executeLoop ps r w)))"
  using assms
proof (induction ps r w rule: executeLoop.induct)
  case (2 p ps r w)
  show ?case
  proof (cases "cp_fn p = None \<or> cp_done p")
    case True
    then have "snd (snd (executeLoop (p # ps) r w)) = snd (snd (executeLoop ps r w))"
      by (auto simp: case_prod_unfold Let_def split: option.split)
    moreover have "I (snd (snd (executeLoop ps r w)))"
      using True "2.IH"(1,2) "2.prems" by (metis list.set_intros(2) option.exhaust)
    ultimately show ?thesis by simp
  next
    case False
    then obtain fn where fn: "cp_fn p = Some fn" "\<not> cp_done p" by auto
    obtain err w1 where w1: "fn w = (err, w1)" by (metis surj_pair)
    have "I w1" using "2.prems"(1) [of p fn w] fn "2.prems"(2) w1 by simp
    then have "I (snd (snd (executeLoop ps (ShutdownResult_Add (cp_name p) err r) w1)))"
      using "2.IH"(3) [OF fn] "2.prems"(1) w1 by (metis list.set_intros(2) fst_conv snd_conv)
    then show ?thesis using fn w1 by (simp add: case_prod_unfold Let_def)
  qed
qed simp

definition atState :: "StateMachine \<Rightarrow> 'w svc_world \<Rightarrow> bool" where
  "atState m x \<longleftrightarrow> (case x of Ret (s, w) \<Rightarrow> ts_stateMachine s = m | Panic e \<Rightarrow> True)"

lemma onService_keeps:
  assumes "\<And>s w err s' w'. f s w = Ret (err, s', w') \<Longrightarrow> ts_stateMachine s' = ts_stateMachine s" "atState m x"
  shows "atState m (snd (onService f x))"
proof (cases x)
  case (Ret p)
  obtain s w where p: "p = (s, w)" by (metis surj_pair)
  show ?thesis
  proof (cases "f s w")
    case (Ret q)
    obtain err s1 w1 where "q = (err, s1, w1)" by (metis prod_cases3)
    then show ?thesis using Ret p \<open>x = Ret p\<close> assms(1) [of s w err s1 w1] assms(2) by (simp add: onService_def atState_def)
  qed (use Ret p in \<open>simp add: onService_def atState_def\<close>)
qed (use assms(2) in \<open>simp add: onService_def\<close>)

lemmas cleanup_defs = stopAllHotplugControllers_def shutdownAllIO_def connClose_def vmShutdown_def networkCleanup_def
  runMountCleanup_def closeEvents_def

lemma cleanup_keeps:
  "stopAllHotplugControllers env s w = Ret (err, s', w') \<Longrightarrow> ts_stateMachine s' = ts_stateMachine s"
  "shutdownAllIO env s w = Ret (err, s', w') \<Longrightarrow> ts_stateMachine s' = ts_stateMachine s"
  "connClose env s w = Ret (err, s', w') \<Longrightarrow> ts_stateMachine s' = ts_stateMachine s"
  "vmShutdown env s w = Ret (err, s', w') \<Longrightarrow> ts_stateMachine s' = ts_stateMachine s"
  "networkCleanup env i s w = Ret (err, s', w') \<Longrightarrow> ts_stateMachine s' = ts_stateMachine s"
  "runMountCleanup mc s w = Ret (err, s', w') \<Longrightarrow> ts_stateMachine s' = ts_stateMachine s"
  "closeEvents s w = Ret (err, s', w') \<Longrightarrow> ts_stateMachine s' = ts_stateMachine s"
  by (auto simp: cleanup_defs Let_def bindGo_Ret_iff split: prod.splits if_splits option.splits)

lemma service_keeps:
  assumes "atState m x"
  shows "atState m (snd (onService (stopAllHotplugControllers env) x))" "atState m (snd (onService (shutdownAllIO env) x))"
    "atState m (snd (onService (connClose env) x))" "atState m (snd (onService (vmShutdown env) x))"
    "atState m (snd (onService (networkCleanup env i) x))" "atState m (snd (onService (runMountCleanup mc) x))"
    "atState m (snd (onService closeEvents x))"
    "atState m (snd (onService (\<lambda>s w. if \<not> b then Ret (None, s, w)
        else (let (err, w1) = releaseNetwork env i w in Ret (err, s, w1))) x))"
  by (rule onService_keeps [OF _ assms], erule cleanup_keeps)+
    (rule onService_keeps [OF _ assms], auto split: if_splits prod.splits)

lemma phases_keep:
  assumes "buildCleanupPhases env i s = (ph, s1)" "p \<in> set (NewCleanupOrchestrator ph)" "cp_fn p = Some fn" "atState m x"
  shows "atState m (snd (fn x))"
proof -
  obtain mc s2 where "extractMountCleanup s = (mc, s2)" by (metis surj_pair)
  then show ?thesis
    using assms service_keeps [OF assms(4)] by (auto simp: buildCleanupPhases_def NewCleanupOrchestrator_def new_phase_def)
qed

lemma buildCleanupPhases_same: "buildCleanupPhases env i s = (ph, s1) \<Longrightarrow> sameTask s s1"
  by (auto simp: buildCleanupPhases_def extractMountCleanup_def sameTask_def split: prod.splits option.splits)

lemma executeFrom_keeps:
  assumes "\<And>p fn x. p \<in> set c \<Longrightarrow> cp_fn p = Some fn \<Longrightarrow> I x \<Longrightarrow> I (snd (fn x))" "I w"
    and "executeFrom n c w = (r, c', w')"
  shows "I w'"
proof -
  have "I (snd (snd (executeLoop (drop n c) [] w)))"
  proof (rule executeLoop_keeps)
    fix p fn x assume "p \<in> set (drop n c)" "cp_fn p = Some fn" "I x"
    then show "I (snd (fn x))" using in_set_dropD [of p n c] by (intro assms(1)) simp_all
  qed (rule assms(2))
  then show ?thesis using assms(3) by (auto simp: executeFrom_def split: prod.splits)
qed

lemma task_shutdown_state:
  assumes "task_shutdown env s w = Ret (err, s', w')"
  shows "State (ts_stateMachine s') = StateShuttingDown"
proof -
  let ?m = "snd (ForceTransition StateShuttingDown (ts_stateMachine s))"
  obtain ph s2 where b: "buildCleanupPhases env (ts_containerID s) (setState' ?m s) = (ph, s2)" by (metis surj_pair)
  obtain res c x where e: "Execute (NewCleanupOrchestrator ph) (Ret (s2, w)) = (res, c, x)" by (metis prod_cases3)
  have "ts_stateMachine s2 = ?m" using b
    by (auto simp: buildCleanupPhases_def extractMountCleanup_def split: prod.splits option.splits)
  then have "atState ?m (Ret (s2, w))" by (simp add: atState_def)
  then have "atState ?m x" using phases_keep [OF b]
    by (rule executeFrom_keeps [where I = "atState ?m", rotated, OF _ e [unfolded Execute_def]])
  then show ?thesis using assms b e
    by (cases x) (auto simp: task_shutdown_def atState_def ForceTransition_def Let_def split: prod.splits)
qed

lemma cleanupOnDeleteFailure_state:
  assumes "cleanupOnDeleteFailure env i s w = Ret (s', w')"
  shows "State (ts_stateMachine s') = State (ts_stateMachine s)"
proof -
  let ?m = "SetIntentionalShutdown True (ts_stateMachine s)"
  obtain ph s2 where b: "buildCleanupPhases env i (setState' ?m s) = (ph, s2)" by (metis surj_pair)
  obtain res c x where e: "ExecutePartial PhaseIOShutdown (NewCleanupOrchestrator ph) (Ret (s2, w)) = (res, c, x)" by (metis prod_cases3)
  have "ts_stateMachine s2 = ?m" using b
    by (auto simp: buildCleanupPhases_def extractMountCleanup_def split: prod.splits option.splits)
  then have "atState ?m (Ret (s2, w))" by (simp add: atState_def)
  then have "atState ?m x" using phases_keep [OF b]
    by (rule executeFrom_keeps [where I = "atState ?m", rotated, OF _ e [unfolded ExecutePartial_def]])
  then show ?thesis using assms b e by (simp add: cleanupOnDeleteFailure_def atState_def Let_def)
qed

lemma runDeleteCleanup_state:
  assumes "runDeleteCleanup env i dc s w = Ret (s', w')"
  shows "State (ts_stateMachine s') = State (ts_stateMachine s)" "\<not> dc_needVMShutdown dc \<Longrightarrow> s' = s"
proof -
  let ?m = "SetIntentionalShutdown True (ts_stateMachine s)" and ?c = "NewCleanupOrchestrator (deletePhases env i dc)"
  have keep: "atState m (snd (fn x))" if "p \<in> set ?c" "cp_fn p = Some fn" "atState m x" for p fn x m
    using that service_keeps [OF that(3)] by (auto simp: deletePhases_def NewCleanupOrchestrator_def new_phase_def simp del: not_not)
  have "State (ts_stateMachine s') = State (ts_stateMachine s) \<and> (\<not> dc_needVMShutdown dc \<longrightarrow> s' = s)"
  proof (cases "dc_needVMShutdown dc")
    case True
    from assms True obtain w3 where w3: "bindGo (snd (snd (ExecutePartial PhaseVMShutdown ?c (Ret (setState' ?m s, w3)))))
        (\<lambda>(s2, w4). Ret (s2\<lparr>ts_exitRequested := True\<rparr>, w4)) = Ret (s', w')"
      by (auto simp: runDeleteCleanup_def Let_def case_prod_unfold)
    obtain res c x where e: "ExecutePartial PhaseVMShutdown ?c (Ret (setState' ?m s, w3)) = (res, c, x)" by (metis prod_cases3)
    have "atState ?m (Ret (setState' ?m s, w3))" by (simp add: atState_def)
    then have "atState ?m x" using keep
      by (rule executeFrom_keeps [where I = "atState ?m", rotated, OF _ e [unfolded ExecutePartial_def]])
    then show ?thesis using w3 e True by (cases x) (auto simp: atState_def)
  qed (use assms in \<open>auto simp: runDeleteCleanup_def Let_def split: prod.splits\<close>)
  then show "State (ts_stateMachine s') = State (ts_stateMachine s)" "\<not> dc_needVMShutdown dc \<Longrightarrow> s' = s" by simp_all
qed

section \<open>Delete and Create\<close>

lemma collectDeleteCleanup_exec:
  "collectDeleteCleanup i e s = (dc, s') \<Longrightarrow> e \<noteq> '''' \<Longrightarrow> sameTask s s' \<and> \<not> dc_needVMShutdown dc"
  by (auto simp: collectDeleteCleanup_def noCleanup_def sameTask_def split: option.splits if_splits)

lemma collectDeleteCleanup_state:
  "collectDeleteCleanup i e s = (dc, s') \<Longrightarrow> ts_stateMachine s' = ts_stateMachine s"
  by (auto simp: collectDeleteCleanup_def Let_def split: option.splits if_splits prod.splits)

lemma sameTask_small [simp]:
  "sameTask s (leave t) = sameTask s t" "sameTask (enter s) t = sameTask s t" "ts_stateMachine (leave s) = ts_stateMachine s"
  "ts_stateMachine (enter s) = ts_stateMachine s" "ts_stateMachine (task_send ev s) = ts_stateMachine s"
  by (simp_all add: sameTask_def leave_def enter_def task_send_def)

lemma task_Delete_exec:
  assumes "task_Delete env i e s w = returns (res, s', w')" "e \<noteq> ''''"
  shows "sameTask s s'"
proof -
  from assms obtain r1 s2 w1 where g: "getTaskClient env (enter s) w = returns (r1, s2, w1)"
    and k: "(case r1 of Inl err \<Rightarrow> returns (Inl err, leave s2, w1)
      | Inr vmc \<Rightarrow> (case rp_Delete (te_guest env) vmc i e w1 of
          (Inl err, w2) \<Rightarrow> returns (Inl err, leave s2, w2)
        | (Inr resp, w2) \<Rightarrow> (let (dc, s4) = collectDeleteCleanup i e s2
            in bindRun (Some (runDeleteCleanup env i dc s4 w2)) (\<lambda>(s5, w3). returns (Inr resp, leave s5, w3))))) = returns (res, s', w')"
    by (clarsimp simp: task_Delete_def startDeleting_def bindRun_returns_iff cong: sum.case_cong)
  have "sameTask s s2" using getTaskClient_same [OF g] by (metis sameTask_conn sameTask_small(2))
  then show ?thesis
    using k by (auto simp: bindRun_returns_iff split: sum.splits prod.splits
        dest!: collectDeleteCleanup_exec [OF _ assms(2)] runDeleteCleanup_state(2) intro: sameTask_trans)
qed

lemma startDeleting_refused:
  "State (ts_stateMachine s) \<noteq> StateRunning \<Longrightarrow> \<exists>err. startDeleting '''' s = (Some err, s)"
  by (auto simp: startDeleting_def state_defs Let_def)

lemma startDeleting_done:
  "State (ts_stateMachine s) = StateRunning \<Longrightarrow> \<exists>m. startDeleting '''' s = (None, setState' m s) \<and> State m = StateDeleting"
  by (auto simp: startDeleting_def state_defs)

lemma task_Delete_task:
  assumes "task_Delete env i '''' s w = returns (res, s', w')"
  shows "if State (ts_stateMachine s) = StateRunning then State (ts_stateMachine s') = StateDeleting
    else (\<exists>e. res = Inl e) \<and> sameTask s s'"
proof (cases "State (ts_stateMachine s) = StateRunning")
  case False
  then show ?thesis using assms startDeleting_refused [of "enter s"]
    by (auto simp: task_Delete_def) (metis sameTask_refl sameTask_small(2))
next
  case True
  then obtain m where m: "startDeleting '''' (enter s) = (None, setState' m (enter s))" "State m = StateDeleting"
    using startDeleting_done [of "enter s"] by auto
  from assms m(1) obtain r1 s2 w1 where g: "getTaskClient env (setState' m (enter s)) w = returns (r1, s2, w1)"
    and k: "(case r1 of Inl err \<Rightarrow> returns (Inl err, leave s2, w1)
      | Inr vmc \<Rightarrow> (case rp_Delete (te_guest env) vmc i '''' w1 of
          (Inl err, w2) \<Rightarrow> bindRun (Some (cleanupOnDeleteFailure env i s2 w2)) (\<lambda>(s3, w3). returns (Inl err, leave s3, w3))
        | (Inr resp, w2) \<Rightarrow> (let s3 = task_send (TaskDelete i (dr_Pid resp) (dr_ExitStatus resp) (dr_ExitedAt resp)) s2;
              (dc, s4) = collectDeleteCleanup i '''' s3
            in bindRun (Some (runDeleteCleanup env i dc s4 w2)) (\<lambda>(s5, w3). returns (Inr resp, leave s5, w3))))) = returns (res, s', w')"
    by (clarsimp simp: task_Delete_def bindRun_returns_iff cong: sum.case_cong)
  have "State (ts_stateMachine s2) = StateDeleting" using getTaskClient_same [OF g] m(2) by auto
  then have "State (ts_stateMachine s') = StateDeleting"
    using k by (auto simp: bindRun_returns_iff Let_def split: sum.splits prod.splits
        dest!: collectDeleteCleanup_state runDeleteCleanup_state(1) cleanupOnDeleteFailure_state)
  then show ?thesis using True by simp
qed

lemma validate_refused:
  "validateCreateRequest r s = (Some e, s') \<Longrightarrow> sameTask s s'"
  by (auto simp: validateCreateRequest_def state_defs Let_def sameTask_def split: if_splits)

lemma validate_accepted:
  "validateCreateRequest r s = (None, s') \<Longrightarrow> State (ts_stateMachine s) = StateIdle
     \<and> (\<exists>m. s' = setState' m s \<and> State m = StateCreating) \<and> mg_instance (ts_vmLifecycle s) = NilIface"
  by (auto simp: validateCreateRequest_def state_defs Let_def mgr_Instance_def split: if_splits)

lemma setupMountsNetwork_request:
  "setupMountsNetwork env cs q w = returns (err, cs', q', w') \<Longrightarrow> cs_request cs' = cs_request cs"
  by (clarsimp simp: setupMountsNetwork_def Let_def split: sum.splits prod.splits, clarsimp simp: bindRun_returns_iff)
    (auto simp: cleanup_add_def split: sum.splits)

lemma setupVMInstance_same:
  assumes "setupVMInstance env cs s d w = returns (err, cs', s', d', w')"
  shows "sameTask s s' \<and> cs_request cs' = cs_request cs"
proof -
  obtain oe ver where kvm: "te_kvm env w = (oe, ver)" by (metis surj_pair)
  note split = option.splits sum.splits prod.splits iface.splits
  show ?thesis
    using assms kvm
    apply (clarsimp simp: setupVMInstance_def Let_def split: split)
    apply (clarsimp simp: bindRun_returns_iff)
    apply (clarsimp simp: bindRun_returns_iff sameTask_def Let_def split: split)
    apply (auto simp: bindRun_returns_iff dest!: setupMountsNetwork_request)
    done
qed

lemma startVM_same:
  assumes "startVM env cs s w = returns (err, s', w')"
  shows "sameTask s s'"
  using assms by (auto simp: startVM_def Let_def sameTask_def SetIntentionalShutdown_def State_def
      split: option.splits sum.splits prod.splits iface.splits go.splits)

lemma createGuestTask_request:
  "createGuestTask env cs c gb q w = (res, cs', q', w') \<Longrightarrow> cs_request cs' = cs_request cs"
  by (auto simp: createGuestTask_def Let_def split: sum.splits prod.splits)

lemma createTaskInVM_same:
  assumes "createTaskInVM env cs s w = returns (res, cs', s', w')"
  shows "sameTask s s' \<and> cs_request cs' = cs_request cs"
proof (cases "addSupervisorBinary cs")
  case (Inr cs1)
  then have r: "cs_request cs1 = cs_request cs" by (auto simp: addSupervisorBinary_def split: option.splits if_splits sum.splits)
  note split = option.splits sum.splits prod.splits iface.splits
  show ?thesis
    using assms Inr r
    apply (clarsimp simp: createTaskInVM_def split: option.splits iface.splits)
    apply (clarsimp simp: bindRun_returns_iff)
    apply (auto simp: sameTask_def split: split dest!: createGuestTask_request)
    done
qed (use assms in \<open>auto simp: createTaskInVM_def\<close>)

lemma finalizeCreate_task:
  assumes "finalizeCreate env cs pid s w = returns (s', w')"
  shows "ts_stateMachine s' = ts_stateMachine s \<and> ts_containerID s' = cr_ID (cs_request cs)
    \<and> (\<exists>c. ts_container s' = Some c \<and> c_pid c = pid)"
  using assms by (auto simp: finalizeCreate_def Let_def split: iface.splits option.splits prod.splits)

lemma task_Create_step:
  assumes "task_Create env r s d w = returns (res, s', d', w')" "shimInv s"
  shows "case res of
      Inl e \<Rightarrow> sameTask s s'
    | Inr pid \<Rightarrow> viewOf s = NoTask \<and> viewOf s' = Task (cr_ID r) pid \<and> shimInv s'"
proof (cases "validateCreateRequest r s")
  case (Pair err s1)
  show ?thesis
  proof (cases err)
    case (Some e)
    then show ?thesis using assms(1) Pair validate_refused by (auto simp: task_Create_def)
  next
    case None
    with Pair have v: "validateCreateRequest r s = (None, s1)" by simp
    then have idle: "State (ts_stateMachine s) = StateIdle" and s1: "State (ts_stateMachine s1) = StateCreating"
      "ts_container s1 = ts_container s" "ts_containerID s1 = ts_containerID s" using validate_accepted [OF v] by auto
    have failed: "sameTask s (creationFailed t)" if "sameTask s1 t" for t
      using that s1 idle by (auto simp: sameTask_def creationFailed_simps) (simp add: creationFailed_def)
    from assms(1) v obtain e1 cs1 s2 d1 w1 where st1: "setupVMInstance env (newCreateState r) s1 d w = returns (e1, cs1, s2, d1, w1)"
      by (auto simp: task_Create_def bindRun_returns_iff)
    have c1: "sameTask s1 s2" "cs_request cs1 = r" using setupVMInstance_same [OF st1] by (simp_all add: newCreateState_def)
    show ?thesis
    proof (cases e1)
      case (Some e)
      then show ?thesis using assms(1) v st1 failed [OF c1(1)] by (auto simp: task_Create_def)
    next
      case e1: None
      from assms(1) v st1 e1 obtain e2 s3 w2 where st2: "startVM env cs1 s2 w1 = returns (e2, s3, w2)"
        by (auto simp: task_Create_def bindRun_returns_iff)
      have c2: "sameTask s1 s3" using c1(1) startVM_same [OF st2] sameTask_trans by blast
      show ?thesis
      proof (cases e2)
        case (Some e)
        then show ?thesis using assms(1) v st1 e1 st2 failed [OF c2] by (auto simp: task_Create_def)
      next
        case e2: None
        from assms(1) v st1 e1 st2 e2 obtain r3 cs2 s4 w3 where st3: "createTaskInVM env cs1 s3 w2 = returns (r3, cs2, s4, w3)"
          by (auto simp: task_Create_def bindRun_returns_iff)
        have c3: "sameTask s1 s4" "cs_request cs2 = r"
          using c2 c1(2) createTaskInVM_same [OF st3] sameTask_trans by (blast, simp)
        show ?thesis
        proof (cases r3)
          case (Inl e)
          then show ?thesis using assms(1) v st1 e1 st2 e2 st3 failed [OF c3(1)] by (auto simp: task_Create_def)
        next
          case (Inr pid)
          with assms(1) v st1 e1 st2 e2 st3 obtain s5 where st4: "finalizeCreate env cs2 pid s4 w3 = returns (s5, w')"
            and s': "s' = setState' (snd (MarkCreated (ts_stateMachine s5))) s5" "res = Inr pid"
            by (auto simp: task_Create_def bindRun_returns_iff)
          have "State (ts_stateMachine s4) = StateCreating" using c3(1) s1 by (simp add: sameTask_def)
          then show ?thesis using finalizeCreate_task [OF st4] s' c3(2) idle
            by (auto simp: viewOf_def shimInv_def state_defs)
        qed
      qed
    qed
  qed
qed

section \<open>Every request ends\<close>

text \<open>The clock goes on, and the resources of a specification are computed (possibly with a panic).\<close>

definition envEnds :: "'w task_env \<Rightarrow> bool" where
  "envEnds env \<longleftrightarrow> osClockOk (te_os env)
     \<and> (\<forall>w p b. LoadForCreate (te_readFile env w) (te_unmarshal env) (te_caps env) p = Inr b
          \<longrightarrow> ComputeConfig (te_hostCPUs env) (te_meminfo env w) (b_Spec b) \<noteq> None)"

lemma retry_ends:
  assumes "osClockOk os"
  shows "ends (DialClientWithRetry os m maxWait w)"
proof (cases "mg_instance m = TypedNil")
  case True
  then show ?thesis
    by (simp add: DialClientWithRetry_def retryBody_def mgr_DialClient_def forLoop.simps)
next
  case False
  then have "retryInv os m (vsockRetryInitialBackoff, w)"
    using assms by (simp add: retryInv_def vsockRetryInitialBackoff_def vsockRetryMaxBackoff_def)
  then show ?thesis using retrying.returns unfolding DialClientWithRetry_def ends_def by fastforce
qed

lemma getTaskClient_ends:
  assumes "osClockOk (te_os env)"
  shows "ends (getTaskClient env s w)"
proof -
  have n: "(DialClientWithRetry (te_os env) m t w = None) = False" for m t w
    using retry_ends [OF assms, of m t w] by (auto simp: ends_def)
  show ?thesis
    by (auto simp: n getTaskClient_def ends_bind GetClient_def getOrCreateClient_def split: option.splits go.splits sum.splits)
qed

lemma callGuest_ends: "osClockOk (te_os env) \<Longrightarrow> ends (callGuest env call s w)"
  using getTaskClient_ends [of env s w]
  by (auto simp: callGuest_def ends_bind split: sum.splits prod.splits)

lemma setupVMInstance_ends:
  assumes "envEnds env"
  shows "ends (setupVMInstance env cs s d w)"
proof -
  have c: "ends (ComputeConfig (te_hostCPUs env) (te_meminfo env w) (b_Spec b))"
    if "LoadForCreate (te_readFile env w) (te_unmarshal env) (te_caps env) p = Inr b" for p b
    using assms that unfolding envEnds_def ends_def by blast
  have v: "(CreateVM (te_os env) a rt ns i p cfg m d w = None) = False" for a rt ns i p cfg m d w
    using CreateVM_returns [of "te_os env" a rt ns i p cfg m d w] by auto
  have n: "ends (setupMountsNetwork env cs q w)" for cs q w
    by (auto simp: setupMountsNetwork_def ends_bind Let_def split: sum.splits prod.splits)
  show ?thesis
    by (auto simp: c v n setupVMInstance_def ends_bind Let_def split: option.splits sum.splits prod.splits iface.splits)
qed

lemma startVM_ends:
  assumes "osClockOk (te_os env)"
  shows "ends (startVM env cs s w)"
proof -
  have n: "(Start (te_os env) so q w = None) = False" for so q w
    using Start_returns [of "te_os env" so q w] assms by (auto simp: osClockOk_def)
  show ?thesis
    by (auto simp: n startVM_def Let_def split: option.splits sum.splits prod.splits iface.splits go.splits)
qed

lemma createTaskInVM_ends: "ends (createTaskInVM env cs s w)"
  by (auto simp: createTaskInVM_def ends_bind Let_def split: option.splits sum.splits prod.splits iface.splits)

lemma finalizeCreate_ends: "ends (finalizeCreate env cs pid s w)"
  by (auto simp: finalizeCreate_def Let_def split: option.splits prod.splits iface.splits)

lemma task_Create_ends:
  assumes "envEnds env"
  shows "ends (task_Create env r s d w)"
proof -
  have "osClockOk (te_os env)" using assms by (simp add: envEnds_def)
  then show ?thesis
    using setupVMInstance_ends [OF assms] startVM_ends [of env] createTaskInVM_ends [of env] finalizeCreate_ends [of env]
    by (auto simp: task_Create_def ends_bind split: option.splits sum.splits prod.splits)
qed

lemma task_Delete_ends: "osClockOk (te_os env) \<Longrightarrow> ends (task_Delete env i e s w)"
  using getTaskClient_ends [of env]
  by (auto simp: task_Delete_def ends_bind Let_def split: option.splits sum.splits prod.splits)

lemma task_Exec_ends: "osClockOk (te_os env) \<Longrightarrow> ends (task_Exec env r s w)"
  using getTaskClient_ends [of env s w]
  by (auto simp: task_Exec_def ends_bind Let_def split: option.splits sum.splits prod.splits iface.splits)

lemma task_State_ends: "osClockOk (te_os env) \<Longrightarrow> ends (task_State env i e s w)"
  using callGuest_ends [of env]
  by (auto simp: task_State_def ends_bind Let_def split: option.splits sum.splits)

lemma task_Start_ends: "osClockOk (te_os env) \<Longrightarrow> ends (task_Start env i e s w)"
  using callGuest_ends [of env] by (auto simp: task_Start_def ends_bind split: sum.splits)

lemma task_Connect_ends: "osClockOk (te_os env) \<Longrightarrow> ends (task_Connect env i s w)"
  using callGuest_ends [of env] by (auto simp: task_Connect_def ends_bind split: option.splits)

section \<open>The refinement\<close>

definition taskInv :: "'w task_env \<Rightarrow> 'w shim \<Rightarrow> bool" where
  "taskInv env x \<longleftrightarrow> envEnds env \<and> shimInv (fst x)"

lemma onShim_same:
  assumes "onShim f op x = returns (resp, x')" and "\<And>res s' w'. op (fst x) (snd (snd x)) = returns (res, s', w') \<Longrightarrow> sameTask (fst x) s'"
  shows "viewOf (fst x') = viewOf (fst x)" "shimInv (fst x') = shimInv (fst x)"
proof -
  from assms have "sameTask (fst x) (fst x')"
    by (cases x) (auto simp: onShim_def bindRun_returns_iff)
  then show "viewOf (fst x') = viewOf (fst x)" "shimInv (fst x') = shimInv (fst x)" by (rule sameTask_view)+
qed

lemma onShim_ends: "(\<And>s w. ends (op s w)) \<Longrightarrow> ends (onShim f op x)"
  by (cases x) (simp add: onShim_def ends_bind split: prod.split)

lemmas guest_calls = task_ResizePty_def task_Kill_def task_Pids_def task_Update_def task_Wait_def task_Stats_def task_CloseIO_def Let_def

lemma serve_ends:
  assumes "taskInv env x"
  shows "ends (serve env req x)"
proof -
  have ok: "envEnds env" "osClockOk (te_os env)" using assms by (auto simp: taskInv_def envEnds_def)
  note ends = task_Create_ends [OF ok(1)] task_Delete_ends [OF ok(2)] task_Exec_ends [OF ok(2)] task_State_ends [OF ok(2)]
    task_Start_ends [OF ok(2)] task_Connect_ends [OF ok(2)] callGuest_ends [OF ok(2)]
  show ?thesis
    by (cases x; cases req) (simp_all add: guest_calls ends ends_bind onShim_ends split: prod.split)
qed

lemma guest_call_same: "callGuest env call s w = returns (res, s', w') \<Longrightarrow> sameTask s s'"
  using callGuest_same by fastforce

lemma serve_create:
  assumes "taskInv env x" "serve env (ReqCreate r) x = returns (resp, x')"
  shows "shimInv (fst x') \<and> taskSpec (viewOf (fst x)) (ReqCreate r) resp = Some (viewOf (fst x'))"
proof -
  obtain s d w where x: "x = (s, d, w)" by (metis prod_cases3)
  from assms(2) obtain res s' d' w' where c: "task_Create env r s d w = returns (res, s', d', w')" and r: "resp = respond RespPid res" "x' = (s', d', w')"
    by (auto simp: x bindRun_returns_iff)
  have "shimInv s" using assms(1) x by (simp add: taskInv_def)
  with task_Create_step [OF c this] sameTask_view r x show ?thesis
    by (cases res) (auto simp: respond_def)
qed

lemma serve_delete:
  assumes "taskInv env x" "serve env (ReqDelete i e) x = returns (resp, x')"
  shows "shimInv (fst x') \<and> taskSpec (viewOf (fst x)) (ReqDelete i e) resp = Some (viewOf (fst x'))"
proof -
  obtain s d w where x: "x = (s, d, w)" by (metis prod_cases3)
  from assms(2) obtain res s' w' where c: "task_Delete env i e s w = returns (res, s', w')" and r: "resp = respond RespDelete res" "x' = (s', d, w')"
    by (auto simp: x onShim_def bindRun_returns_iff)
  have inv: "shimInv s" using assms(1) x by (simp add: taskInv_def)
  show ?thesis
  proof (cases "e = ''''")
    case False
    with task_Delete_exec [OF c] have same: "sameTask s s'" by simp
    then show ?thesis using sameTask_view [OF same] inv r x False by simp
  next
    case True
    note step = task_Delete_task [OF c [unfolded True]]
    show ?thesis
    proof (cases "State (ts_stateMachine s) = StateRunning")
      case run: True
      then obtain c where "ts_container s = Some c" using inv by (auto simp: shimInv_def)
      then show ?thesis using step run r x True by (simp add: viewOf_def shimInv_def)
    next
      case idle: False
      then have same: "sameTask s s'" and "\<exists>e. res = Inl e" using step by simp_all
      moreover have "viewOf s = NoTask \<or> viewOf s = Ended" using idle by (auto simp: viewOf_def split: ShimState.splits)
      ultimately show ?thesis using sameTask_view [OF same] inv r x True by (auto simp: respond_def)
    qed
  qed
qed

lemma serve_connect:
  assumes "taskInv env x" "serve env (ReqConnect i) x = returns (resp, x')"
  shows "shimInv (fst x') \<and> taskSpec (viewOf (fst x)) (ReqConnect i) resp = Some (viewOf (fst x'))"
proof -
  obtain s d w where x: "x = (s, d, w)" by (metis prod_cases3)
  from assms(2) obtain res s' w' where c: "task_Connect env i s w = returns (res, s', w')"
    and r: "resp = respond (\<lambda>(shim, task). RespConnect shim task) res" "x' = (s', d, w')"
    by (auto simp: x onShim_def bindRun_returns_iff)
  note same = sameTask_view [OF task_Connect_same [OF c]]
  have inv: "shimInv s" using assms(1) x by (simp add: taskInv_def)
  show ?thesis
  proof (cases "viewOf s")
    case (Task j pid)
    then obtain k where "ts_container s = Some k" "c_pid k = pid" "ts_containerID s = j"
      by (auto simp: viewOf_def split: ShimState.splits option.splits)
    then show ?thesis using same inv r x c Task by (auto simp: task_Connect_def respond_def)
  qed (use same inv r x in simp_all)
qed

lemma serve_shutdown:
  assumes "taskInv env x" "serve env ShutdownCallback x = returns (resp, x')"
  shows "shimInv (fst x') \<and> taskSpec (viewOf (fst x)) ShutdownCallback resp = Some (viewOf (fst x'))"
  using assms by (cases x) (auto simp: bindRun_returns_iff viewOf_def shimInv_def dest!: task_shutdown_state)

lemma serve_step:
  assumes "taskInv env x" "serve env req x = returns (resp, x')"
  shows "taskInv env x' \<and> taskSpec (viewOf (fst x)) req resp = Some (viewOf (fst x'))"
proof -
  have env: "envEnds env" "shimInv (fst x)" using assms(1) by (simp_all add: taskInv_def)
  have "shimInv (fst x') \<and> taskSpec (viewOf (fst x)) req resp = Some (viewOf (fst x'))"
  proof (cases req)
    case (ReqCreate r)
    then show ?thesis using serve_create assms by blast
  next
    case (ReqDelete i e)
    then show ?thesis using serve_delete assms by blast
  next
    case (ReqConnect i)
    then show ?thesis using serve_connect assms by blast
  next
    case ShutdownCallback
    then show ?thesis using serve_shutdown assms by blast
  next
    case ReqShutdown
    have "sameTask s (task_Shutdown s)" for s :: "'a service" by (simp add: sameTask_def task_Shutdown_def)
    from sameTask_view [OF this] show ?thesis using ReqShutdown assms(2) env(2) by (cases x) auto
  next
    case (ReqExec r)
    then show ?thesis using onShim_same [OF assms(2) [unfolded ReqExec serve.simps]] task_Exec_same env(2) by fastforce
  next
    case (ReqState i e)
    then show ?thesis using onShim_same [OF assms(2) [unfolded ReqState serve.simps]] task_State_same env(2) by fastforce
  next
    case (ReqStart i e)
    then show ?thesis using onShim_same [OF assms(2) [unfolded ReqStart serve.simps]] task_Start_same env(2) by fastforce
  qed (use assms(2) env(2) in \<open>auto simp: guest_calls task_Pause_def task_Resume_def task_Checkpoint_def
      dest: onShim_same(1) [OF _ guest_call_same] onShim_same(2) [OF _ guest_call_same]\<close>)
  then show ?thesis using env by (simp add: taskInv_def)
qed

interpretation shim_task: refinement "serve env" taskSpec "viewOf \<circ> fst" "taskInv env"
  by unfold_locales (auto simp: serve_ends dest: serve_step)


text \<open>The changes made to a bundle leave the resources of its specification alone.\<close>

lemma LoadForCreate_resources:
  assumes "LoadForCreate rd um caps path = Inr b"
  obtains raw spec where "um raw = Inr spec" "specCPU (b_Spec b) = specCPU spec" "specMemory (b_Spec b) = specMemory spec"
proof -
  from assms obtain raw spec b0 ms b1 where p: "um raw = Inr spec"
    "resolveRootfsPath \<lparr>b_Path = path, b_Spec = spec, b_Rootfs = '''', b_extraFiles = []\<rparr> = Inr b0"
    "transformBinds rd [] (spec_Mounts (b_Spec b0)) b0 = Inr (ms, b1)"
    "b = AdaptForVM caps (b1\<lparr>b_Spec := (b_Spec b1)\<lparr>spec_Mounts := ms\<rparr>\<rparr>)"
    by (auto simp: LoadForCreate_def bundle_Load_def TransformBindMounts_def split: if_splits sum.splits)
  have "spec_Linux (b_Spec b1) = spec_Linux spec"
    using p(2) transformBinds_root [OF p(3)] by (auto simp: resolveRootfsPath_def Let_def split: option.splits)
  then have "specCPU (b_Spec b) = specCPU spec" "specMemory (b_Spec b) = specMemory spec"
    using p(4) by (cases "spec_Linux spec"; simp add: AdaptForVM_def Let_def specCPU_def specMemory_def)+
  with p(1) show ?thesis by (rule that)
qed

lemma demo_ends: "envEnds demoEnv"
proof -
  have "ComputeConfig (te_hostCPUs demoEnv) (te_meminfo demoEnv w) (b_Spec b) \<noteq> None"
    if "LoadForCreate (te_readFile demoEnv w) (te_unmarshal demoEnv) (te_caps demoEnv) p = Inr b" for w p b
  proof -
    from that obtain raw spec where "te_unmarshal demoEnv raw = Inr spec" "specCPU (b_Spec b) = specCPU spec"
      by (rule LoadForCreate_resources)
    then have "specCPU (b_Spec b) = specCPU demoSpec" by (auto simp: demoEnv_def bindSpec_def specCPU_def)
    then have "extractCPURequest (Some (b_Spec b)) = Some 64" using demo_spec_requests(1) by (simp add: extractCPURequest_def)
    then show ?thesis by (simp add: ComputeConfig_def)
  qed
  then show ?thesis using silentOs_clock by (simp add: envEnds_def) (simp add: demoEnv_def)
qed

definition demoTrace :: "request list" where
  "demoTrace = [ReqCreate demoRequest, ReqConnect ''c1'', ReqDelete ''c1'' '''', ReqCreate demoRequest]"


end
