(* ===== verification/Task_Lifecycle.thy ===== *)
theory Task_Lifecycle
  imports Task_Refinement "HOL-Library.Multiset"
begin

text \<open>
  The resources of a container from \<open>Create\<close> to \<open>Delete\<close>: at every moment the service holds exactly what has
  been set up and not been taken down.
\<close>

section \<open>Keeping account\<close>

fun ups :: "svcEvent list \<Rightarrow> resource multiset" where
  "ups [] = {#}"
| "ups (Up r # l) = add_mset r (ups l)"
| "ups (Down r # l) = ups l"

fun downs :: "svcEvent list \<Rightarrow> resource multiset" where
  "downs [] = {#}"
| "downs (Up r # l) = downs l"
| "downs (Down r # l) = add_mset r (downs l)"

lemma ups_append [simp]: "ups (a @ b) = ups a + ups b"
  by (induction a rule: ups.induct) simp_all

lemma downs_append [simp]: "downs (a @ b) = downs a + downs b"
  by (induction a rule: downs.induct) simp_all

lemma ups_map [simp]: "ups (map (\<lambda>x. Up (f x)) xs) = mset (map f xs)" "downs (map (\<lambda>x. Up (f x)) xs) = {#}"
  by (induction xs) simp_all

lemma downs_map [simp]: "downs (map (\<lambda>x. Down (f x)) xs) = mset (map f xs)" "ups (map (\<lambda>x. Down (f x)) xs) = {#}"
  by (induction xs) simp_all

lemma undone: "list_all isUp us \<Longrightarrow> ups (map undo (rev us)) = {#} \<and> downs (map undo (rev us)) = ups us \<and> downs us = {#}"
  by (induction us rule: ups.induct) simp_all

text \<open>What the service holds for its container.\<close>

definition mountsOf :: "'w CleanupFunc option \<Rightarrow> resource multiset" where
  "mountsOf mc = (case mc of None \<Rightarrow> {#} | Some fn \<Rightarrow> {#ResMounts#})"

definition owned :: "'w service \<Rightarrow> resource multiset" where
  "owned s =
     (case ts_container s of
        None \<Rightarrow> {#}
      | Some c \<Rightarrow> mountsOf (c_mountCleanup c) + {#ResNetwork (ts_containerID s)#} + mset (map ResIO (forwarders c)))
     + mset (map (ResCPU \<circ> snd) (ts_cpuHotplug s)) + mset (map (ResMem \<circ> snd) (ts_memHotplug s))"

section \<open>What a successful Create has set up\<close>

definition mountsUp :: "'w CleanupFunc option \<Rightarrow> svcEvent list" where
  "mountsUp mc = (case mc of None \<Rightarrow> [] | Some fn \<Rightarrow> [Up ResMounts])"

lemma ups_mountsUp [simp]: "ups (mountsUp mc) = mountsOf mc" "downs (mountsUp mc) = {#}"
  by (simp_all add: mountsUp_def mountsOf_def split: option.split)

definition logsMounts :: "('w \<times> svcEvent list) CleanupFunc option \<Rightarrow> bool" where
  "logsMounts mc \<longleftrightarrow> (\<forall>fn x. mc = Some fn \<longrightarrow> snd (snd (fn x)) = snd x @ [Down ResMounts])"

lemma setupMountsNetwork_success:
  assumes "setupMountsNetwork (loggedEnv env) cs q x = returns (None, cs', q', y)"
  shows "snd y = snd x @ mountsUp (cs_mountCleanup cs') @ [Up (ResNetwork (cr_ID (cs_request cs)))] \<and> logsMounts (cs_mountCleanup cs')"
proof -
  let ?r = "cs_request cs"
  obtain r0 q0 w0 where m: "te_mountsSetup env q (cr_ID ?r) (cr_Rootfs ?r) (fst x) = (r0, q0, w0)" by (metis prod_cases3)
  have "\<exists>mounts cl. r0 = Inr (mounts, cl)"
    using assms m by (cases r0) (auto simp: setupMountsNetwork_def loggedMountsSetup_def Let_def)
  then obtain mounts cl where r0: "r0 = Inr (mounts, cl)" by blast
  define x1 where "x1 = (w0, snd x @ mountsUp cl)"
  obtain r1 q1 w1 where n: "te_networkSetup env q0 (cr_ID ?r) (''/var/run/netns/'' @ cr_ID ?r) w0 = Ret (Inr r1, q1, w1)"
    and y: "y = (w1, snd x1 @ [Up (ResNetwork (cr_ID ?r))])"
    and c: "cs_mountCleanup cs' = map_option (logP [Down ResMounts]) cl"
    using assms m r0
    by (cases cl; clarsimp simp: setupMountsNetwork_def loggedMountsSetup_def loggedNetworkSetup_def Let_def bindRun_returns_iff
        bindGo_Ret_iff; auto simp: cleanup_add_def x1_def mountsUp_def split: sum.splits)
  show ?thesis using y c by (cases cl) (auto simp: x1_def mountsUp_def logsMounts_def logP_def case_prod_unfold Let_def)
qed

lemma setupVMInstance_success:
  assumes "setupVMInstance (loggedEnv env) cs s d x = returns (None, cs', s', d', y)"
  shows "snd y = snd x @ mountsUp (cs_mountCleanup cs') @ [Up (ResNetwork (cr_ID (cs_request cs)))] \<and> logsMounts (cs_mountCleanup cs')
    \<and> (\<exists>m. s' = s\<lparr>ts_vmLifecycle := m\<rparr>)"
proof -
  obtain oe ver where kvm: "te_kvm env (fst x) = (oe, ver)" by (metis surj_pair)
  from assms kvm obtain b cfg info supCfg e m d1 x1 where
    v: "CreateVM (pairOs (te_os env)) (te_cid env) (te_vmStateRoot env) (te_namespace env) (cr_ID (cs_request cs)) (cr_Bundle (cs_request cs))
          (Some cfg) (ts_vmLifecycle s) d x = Some (None, m, d1, x1)"
    and k: "(case mg_instance m of
        Iface q \<Rightarrow> bindRun (setupMountsNetwork (loggedEnv env) (cs\<lparr>cs_bundle := Some b, cs_resourceCfg := Some cfg, cs_supervisorCfg := supCfg\<rparr>) q x1)
          (\<lambda>(err, cs3, q1, w2). returns (err, cs3, setInstance q1 (s\<lparr>ts_vmLifecycle := m\<rparr>), d1, w2))
      | _ \<Rightarrow> Some nilDeref) = returns (None, cs', s', d', y)"
    apply (clarsimp simp: setupVMInstance_def Let_def split: option.splits sum.splits)
    apply (clarsimp simp: bindRun_returns_iff)
    apply (clarsimp simp: Let_def split: option.splits sum.splits prod.splits)
    done
  have "snd x1 = snd x" by (rule paired.CreateVM_frame [OF v])
  with k show ?thesis
    by (auto simp: bindRun_returns_iff split: iface.splits dest!: setupMountsNetwork_success)
qed

lemma startVM_success:
  assumes "startVM (loggedEnv env) cs s x = returns (err, s', y)"
  shows "snd y = snd x \<and> ts_cpuHotplug s' = ts_cpuHotplug s \<and> ts_memHotplug s' = ts_memHotplug s \<and> ts_events s' = ts_events s"
  using assms
  by (auto simp: startVM_def Let_def pairGuest_def split: iface.splits option.splits prod.splits go.splits sum.splits
      dest!: paired.Start_frame pairP_snd)
lemma createGuestTask_mounts:
  "createGuestTask env cs c gb q w = (res, cs', q', w') \<Longrightarrow> cs_mountCleanup cs' = cs_mountCleanup cs"
  by (auto simp: createGuestTask_def Let_def split: sum.splits prod.splits)

lemma createTaskInVM_mounts:
  assumes "createTaskInVM env cs s w = returns (Inr pid, cs', s', w')"
  shows "cs_mountCleanup cs' = cs_mountCleanup cs \<and> (\<exists>q q'. mg_instance (ts_vmLifecycle s) = Iface q \<and> s' = setInstance q' s) \<and> cs_bundle cs \<noteq> None"
proof -
  obtain cs1 where a: "addSupervisorBinary cs = Inr cs1" using assms by (auto simp: createTaskInVM_def split: sum.splits)
  then have c: "cs_mountCleanup cs1 = cs_mountCleanup cs" "cs_bundle cs1 = None \<longleftrightarrow> cs_bundle cs = None"
    by (auto simp: addSupervisorBinary_def split: option.splits if_splits sum.splits)
  show ?thesis
    using assms a c
    apply (clarsimp simp: createTaskInVM_def split: option.splits iface.splits)
    apply (clarsimp simp: bindRun_returns_iff)
    apply (auto split: sum.splits prod.splits dest!: createGuestTask_mounts)
    done
qed

lemma finalizeCreate_success:
  assumes "finalizeCreate (loggedEnv env) cs pid s x = returns (s', y)" "ts_cpuHotplug s = []" "ts_memHotplug s = []"
  shows "\<exists>c h. ts_container s' = Some c \<and> c_mountCleanup c = cs_mountCleanup cs \<and> cs_ioForwarder cs = Some h \<and> forwarders c = [h]
    \<and> (let i = cr_ID (cs_request cs) in ts_containerID s' = i
       \<and> (\<exists>cpu mem. ts_cpuHotplug s' = map (Pair i) cpu \<and> ts_memHotplug s' = map (Pair i) mem \<and> length cpu \<le> 1 \<and> length mem \<le> 1
           \<and> snd y = snd x @ map (Up \<circ> ResCPU) cpu @ map (Up \<circ> ResMem) mem))"
proof -
  let ?i = "cr_ID (cs_request cs)"
  obtain q cfg h where q: "mg_instance (ts_vmLifecycle s) = Iface q" "cs_resourceCfg cs = Some cfg" "cs_ioForwarder cs = Some h"
    using assms(1) by (auto simp: finalizeCreate_def split: iface.splits option.splits)
  obtain a w1 where c: "te_startCPU env ?i q cfg (fst x) = (a, w1)" by (metis surj_pair)
  obtain b w2 where m: "te_startMem env ?i q cfg w1 = (b, w2)" by (metis surj_pair)
  have one: "\<exists>hs. (case o' of None \<Rightarrow> [] | Some h \<Rightarrow> [(i, h)]) = map (Pair i) hs \<and> length hs \<le> 1
      \<and> (case o' of None \<Rightarrow> [] | Some h \<Rightarrow> [Up (f h)]) = map (Up \<circ> f) hs" for i :: string and o' :: "nat option" and f
    by (cases o') (auto intro: exI [of _ "[]"] exI [of _ "[_]"])
  obtain cpu where cpu: "(case a of None \<Rightarrow> [] | Some h \<Rightarrow> [(?i, h)]) = map (Pair ?i) cpu" "length cpu \<le> 1"
    "(case a of None \<Rightarrow> [] | Some h \<Rightarrow> [Up (ResCPU h)]) = map (Up \<circ> ResCPU) cpu" using one by blast
  obtain mem where mem: "(case b of None \<Rightarrow> [] | Some h \<Rightarrow> [(?i, h)]) = map (Pair ?i) mem" "length mem \<le> 1"
    "(case b of None \<Rightarrow> [] | Some h \<Rightarrow> [Up (ResMem h)]) = map (Up \<circ> ResMem) mem" using one by blast
  have "ts_cpuHotplug s' = map (Pair ?i) cpu" "ts_memHotplug s' = map (Pair ?i) mem"
    "snd y = snd x @ map (Up \<circ> ResCPU) cpu @ map (Up \<circ> ResMem) mem"
    unfolding cpu(1,3) [symmetric] mem(1,3) [symmetric]
    using assms q c m by (cases a; cases b; auto simp: finalizeCreate_def Let_def logStart_def)+
  moreover have "\<exists>c. ts_container s' = Some c \<and> c_mountCleanup c = cs_mountCleanup cs \<and> forwarders c = [h] \<and> ts_containerID s' = ?i"
    using assms q c m by (cases a; cases b; auto simp: finalizeCreate_def Let_def logStart_def forwarders_def)
  ultimately show ?thesis using q(3) cpu(2) mem(2) by (auto simp: Let_def)
qed

text \<open>The hotplug controllers are those of the container; exec identifiers are used once.\<close>

definition tidy :: "string set \<Rightarrow> ('w \<times> svcEvent list) service \<Rightarrow> bool" where
  "tidy used s \<longleftrightarrow>
     (case ts_container s of
        None \<Rightarrow> False
      | Some c \<Rightarrow> logsMounts (c_mountCleanup c) \<and> distinct (map fst (tio_exec (c_io c))) \<and> fst ` set (tio_exec (c_io c)) \<subseteq> used
          \<and> (\<exists>cpu mem. ts_cpuHotplug s = map (Pair (ts_containerID s)) cpu \<and> length cpu \<le> 1
               \<and> ts_memHotplug s = map (Pair (ts_containerID s)) mem \<and> length mem \<le> 1))"

definition account :: "string set \<Rightarrow> ('w \<times> svcEvent list) service \<Rightarrow> svcEvent list \<Rightarrow> bool" where
  "account used s l \<longleftrightarrow>
     (if State (ts_stateMachine s) = StateIdle then ups l = downs l \<and> ts_cpuHotplug s = [] \<and> ts_memHotplug s = []
      else if State (ts_stateMachine s) = StateRunning then ups l = downs l + owned s \<and> tidy used s
      else ts_container s = None \<longrightarrow> ups l = downs l)"

lemma account_cong:
  assumes "State (ts_stateMachine s') = State (ts_stateMachine s)" "ts_container s' = ts_container s" "ts_containerID s' = ts_containerID s"
    "ts_cpuHotplug s' = ts_cpuHotplug s" "ts_memHotplug s' = ts_memHotplug s" "ups l' + downs l = ups l + downs l'"
    "used \<subseteq> used'" "account used s l"
  shows "account used' s' l'"
proof -
  have "ups l = downs l + m \<Longrightarrow> ups l' = downs l' + m" for m
    using assms(6) by (metis add.assoc add.commute add_left_cancel)
  from this [of "{#}"] this [of "owned s"] have "ups l = downs l \<Longrightarrow> ups l' = downs l'" "ups l = downs l + owned s \<Longrightarrow> ups l' = downs l' + owned s"
    by simp_all
  moreover have "owned s' = owned s" using assms by (simp add: owned_def split: option.split)
  moreover have "tidy used s \<Longrightarrow> tidy used' s'" using assms by (auto simp: tidy_def split: option.splits)
  ultimately show ?thesis using assms by (auto simp: account_def)
qed

section \<open>Create\<close>

text \<open>The stages of a \<open>Create\<close> that has succeeded, and where one that has failed stopped.\<close>

lemma task_Create_success:
  assumes "task_Create env r s d x = returns (Inr pid, s', d', y)"
  obtains s1 cs1 s2 d1 x1 s3 x2 cs2 s4 x3 s5 where "validateCreateRequest r s = (None, s1)"
    "setupVMInstance env (newCreateState r) s1 d x = returns (None, cs1, s2, d1, x1)"
    "startVM env cs1 s2 x1 = returns (None, s3, x2)" "createTaskInVM env cs1 s3 x2 = returns (Inr pid, cs2, s4, x3)"
    "finalizeCreate env cs2 pid s4 x3 = returns (s5, y)" "s' = setState' (snd (MarkCreated (ts_stateMachine s5))) s5"
proof -
  obtain s1 where v: "validateCreateRequest r s = (None, s1)"
    using assms by (auto simp: task_Create_def split: prod.splits option.splits)
  obtain e1 cs1 s2 d1 x1 where st1: "setupVMInstance env (newCreateState r) s1 d x = returns (e1, cs1, s2, d1, x1)"
    using assms v by (auto simp: task_Create_def bindRun_returns_iff)
  then have e1: "e1 = None" using assms v by (cases e1) (auto simp: task_Create_def)
  obtain e2 s3 x2 where st2: "startVM env cs1 s2 x1 = returns (e2, s3, x2)"
    using assms v st1 e1 by (auto simp: task_Create_def bindRun_returns_iff)
  then have e2: "e2 = None" using assms v st1 e1 by (cases e2) (auto simp: task_Create_def)
  obtain r3 cs2 s4 x3 where st3: "createTaskInVM env cs1 s3 x2 = returns (r3, cs2, s4, x3)"
    using assms v st1 e1 st2 e2 by (auto simp: task_Create_def bindRun_returns_iff)
  then have r3: "r3 = Inr pid" using assms v st1 e1 st2 e2 by (cases r3) (auto simp: task_Create_def bindRun_returns_iff)
  obtain s5 where "finalizeCreate env cs2 pid s4 x3 = returns (s5, y)" "s' = setState' (snd (MarkCreated (ts_stateMachine s5))) s5"
    using assms v st1 e1 st2 e2 st3 r3 by (auto simp: task_Create_def bindRun_returns_iff)
  then show thesis using that v st1 e1 st2 e2 st3 r3 by blast
qed

lemma task_Create_failure:
  assumes "task_Create env r s d x = returns (Inl e, s', d', y)"
  obtains (refused) "validateCreateRequest r s = (Some e, s')" "y = x"
  | (failed) s1 e1 cs1 s2 d1 x1 where "validateCreateRequest r s = (None, s1)"
      "setupVMInstance env (newCreateState r) s1 d x = returns (e1, cs1, s2, d1, x1)"
      "(case e1 of
          Some e' \<Rightarrow> y = rollback cs1 x1 \<and> s' = creationFailed s2
        | None \<Rightarrow> \<exists>e2 s3 x2. startVM env cs1 s2 x1 = returns (e2, s3, x2)
           \<and> (case e2 of
                Some e' \<Rightarrow> y = rollback cs1 x2 \<and> s' = creationFailed s3
              | None \<Rightarrow> \<exists>e' cs2 s4 x3. createTaskInVM env cs1 s3 x2 = returns (Inl e', cs2, s4, x3)
                  \<and> y = rollback cs2 x3 \<and> s' = creationFailed s4))"
proof (cases "validateCreateRequest r s")
  case (Pair err s1)
  show thesis
  proof (cases err)
    case (Some e')
    then show thesis using assms Pair refused by (auto simp: task_Create_def)
  next
    case None
    obtain e1 cs1 s2 d1 x1 where st1: "setupVMInstance env (newCreateState r) s1 d x = returns (e1, cs1, s2, d1, x1)"
      using assms Pair None by (auto simp: task_Create_def bindRun_returns_iff)
    show thesis
    proof (cases e1)
      case (Some e')
      then show thesis using failed [OF _ st1] assms Pair None st1 by (auto simp: task_Create_def)
    next
      case e1: None
      obtain e2 s3 x2 where st2: "startVM env cs1 s2 x1 = returns (e2, s3, x2)"
        using assms Pair None st1 e1 by (auto simp: task_Create_def bindRun_returns_iff)
      show thesis
      proof (cases e2)
        case (Some e')
        then show thesis using failed [OF _ st1] assms Pair None st1 e1 st2 by (auto simp: task_Create_def)
      next
        case e2: None
        obtain r3 cs2 s4 x3 where st3: "createTaskInVM env cs1 s3 x2 = returns (r3, cs2, s4, x3)"
          using assms Pair None st1 e1 st2 e2 by (auto simp: task_Create_def bindRun_returns_iff)
        then show thesis using failed [OF _ st1] assms Pair None st1 e1 st2 e2
          by (cases r3) (auto simp: task_Create_def bindRun_returns_iff)
      qed
    qed
  qed
qed

lemma create_account:
  assumes "task_Create (loggedEnv env) r s d x = returns (Inr pid, s', d', y)" "account used s (snd x)" "shimInv s"
  shows "account used' s' (snd y)"
proof -
  have s: "viewOf s = NoTask" "viewOf s' = Task (cr_ID r) pid" using task_Create_step [OF assms(1,3)] by simp_all
  then have idle: "State (ts_stateMachine s) = StateIdle" and run: "State (ts_stateMachine s') = StateRunning"
    by (auto simp: viewOf_def split: ShimState.splits option.splits)
  then have fresh: "ups (snd x) = downs (snd x)" "ts_cpuHotplug s = []" "ts_memHotplug s = []"
    using assms(2) by (simp_all add: account_def)
  from assms(1) obtain s1 cs1 s2 d1 x1 s3 x2 cs2 s4 x3 s5 where v: "validateCreateRequest r s = (None, s1)"
    and st1: "setupVMInstance (loggedEnv env) (newCreateState r) s1 d x = returns (None, cs1, s2, d1, x1)"
    and st2: "startVM (loggedEnv env) cs1 s2 x1 = returns (None, s3, x2)"
    and st3: "createTaskInVM (loggedEnv env) cs1 s3 x2 = returns (Inr pid, cs2, s4, x3)"
    and st4: "finalizeCreate (loggedEnv env) cs2 pid s4 x3 = returns (s5, y)"
    and s': "s' = setState' (snd (MarkCreated (ts_stateMachine s5))) s5"
    by (rule task_Create_success)
  note r1 = setupVMInstance_success [OF st1] and r2 = startVM_success [OF st2] and r3 = createTaskInVM_mounts [OF st3]
  have req: "cs_request cs1 = r" "cs_request cs2 = r"
    using setupVMInstance_same [OF st1] createTaskInVM_same [OF st3] by (simp_all add: newCreateState_def)
  obtain q where q: "mg_instance (ts_vmLifecycle s3) = Iface q" using r3 by blast
  from createTaskInVM_log [OF q, of cs1 env x2] st3 r3 obtain h where h: "cs_ioForwarder cs2 = Some h" "snd x3 = snd x2 @ [Up (ResIO h)]"
    by auto
  have hp: "ts_cpuHotplug s4 = []" "ts_memHotplug s4 = []" using r1 r2 r3 validate_accepted [OF v] fresh by auto
  from finalizeCreate_success [OF st4 hp] h(1) req(2) obtain c cpu mem where c: "ts_container s5 = Some c" "c_mountCleanup c = cs_mountCleanup cs2"
    "forwarders c = [h]" "ts_containerID s5 = cr_ID r" "ts_cpuHotplug s5 = map (Pair (cr_ID r)) cpu" "ts_memHotplug s5 = map (Pair (cr_ID r)) mem"
    "length cpu \<le> 1" "length mem \<le> 1" "snd y = snd x3 @ map (Up \<circ> ResCPU) cpu @ map (Up \<circ> ResMem) mem"
    by (auto simp: Let_def)
  have "snd y = snd x @ mountsUp (c_mountCleanup c) @ [Up (ResNetwork (cr_ID r)), Up (ResIO h)] @ map (Up \<circ> ResCPU) cpu @ map (Up \<circ> ResMem) mem"
    using c r1 r2 r3 h by (simp add: newCreateState_def)
  then have "ups (snd y) = downs (snd y) + owned s'" using fresh c s' by (simp add: owned_def ac_simps comp_def)
  moreover have "tidy used' s'" using c r1 r3 s' by (auto simp: tidy_def forwarders_def)
  ultimately show ?thesis using run by (simp add: account_def)
qed

lemma setupVMInstance_tracks:
  assumes "setupVMInstance (loggedEnv env) (newCreateState r) s d x = returns (err, cs', s', d', y)"
  shows "\<exists>us. tracks cs' us \<and> snd y = snd x @ us \<and> (\<exists>m. s' = s\<lparr>ts_vmLifecycle := m\<rparr>)"
proof -
  let ?cs = "newCreateState r :: ('a \<times> svcEvent list) createState"
  have none: ?thesis if "cs_cleanup cs' = []" "snd y = snd x" "\<exists>m. s' = s\<lparr>ts_vmLifecycle := m\<rparr>"
    using that tracks_empty by (intro exI [of _ "[]"]) auto
  have self: "\<exists>m. s = s\<lparr>ts_vmLifecycle := m\<rparr>" by (rule exI [of _ "ts_vmLifecycle s"]) simp
  obtain oe ver where kvm: "te_kvm env (fst x) = (oe, ver)" by (metis surj_pair)
  consider (early) "cs_cleanup cs' = []" "snd y = snd x" "s' = s"
    | (vm) cs2 e m d1 x1 cfg where "cs_cleanup cs2 = []"
      "CreateVM (pairOs (te_os env)) (te_cid env) (te_vmStateRoot env) (te_namespace env) (cr_ID r) (cr_Bundle r)
          (Some cfg) (ts_vmLifecycle s) d x = Some (e, m, d1, x1)"
      "(case e of
          Some e' \<Rightarrow> returns (Some e', cs2, s\<lparr>ts_vmLifecycle := m\<rparr>, d1, x1)
        | None \<Rightarrow> (case mg_instance m of
            Iface q \<Rightarrow> bindRun (setupMountsNetwork (loggedEnv env) cs2 q x1) (\<lambda>(err, cs3, q1, w2).
              returns (err, cs3, setInstance q1 (s\<lparr>ts_vmLifecycle := m\<rparr>), d1, w2))
          | _ \<Rightarrow> Some nilDeref)) = returns (err, cs', s', d', y)"
  proof -
    assume a1: "\<lbrakk>cs_cleanup cs' = []; snd y = snd x; s' = s\<rbrakk> \<Longrightarrow> thesis"
    show thesis
      using assms kvm a1
      apply (clarsimp simp: setupVMInstance_def newCreateState_def Let_def split: option.splits sum.splits)
      apply (clarsimp simp: bindRun_returns_iff)
      apply (clarsimp simp: Let_def split: sum.splits)
      subgoal for b cfg info sup
        by (cases "CreateVM (pairOs (te_os env)) (te_cid env) (te_vmStateRoot env) (te_namespace env) (cr_ID r) (cr_Bundle r)
          (Some cfg) (ts_vmLifecycle s) d x") (auto split: option.splits prod.splits intro!: vm)
      done
  qed
  then show ?thesis
  proof cases
    case early
    then show ?thesis using none self by blast
  next
    case vm
    have x1: "snd x1 = snd x" by (rule paired.CreateVM_frame [OF vm(2)])
    show ?thesis
    proof (cases e)
      case (Some e')
      then show ?thesis using vm x1 by (intro none) auto
    next
      case None
      with vm(3) obtain q cs3 q1 where "setupMountsNetwork (loggedEnv env) cs2 q x1 = returns (err, cs', q1, y)"
        "s' = setInstance q1 (s\<lparr>ts_vmLifecycle := m\<rparr>)" by (auto simp: bindRun_returns_iff split: iface.splits)
      with setupMountsNetwork_log [OF this(1) vm(1)] x1 show ?thesis by auto
    qed
  qed
qed

lemma validate_refused_state:
  "validateCreateRequest r s = (Some e, s') \<Longrightarrow> State (ts_stateMachine s') = State (ts_stateMachine s)
     \<and> ts_container s' = ts_container s \<and> ts_containerID s' = ts_containerID s \<and> ts_cpuHotplug s' = ts_cpuHotplug s \<and> ts_memHotplug s' = ts_memHotplug s"
  by (auto simp: validateCreateRequest_def state_defs Let_def split: if_splits)

lemma creationFailed_fields [simp]:
  "ts_cpuHotplug (creationFailed s) = ts_cpuHotplug s" "ts_memHotplug (creationFailed s) = ts_memHotplug s"
  by (simp_all add: creationFailed_def)

lemma createTaskInVM_failed:
  assumes "createTaskInVM (loggedEnv env) cs s x = returns (Inl e, cs', s', y)"
  shows "cs_cleanup cs' = cs_cleanup cs \<and> ts_cpuHotplug s' = ts_cpuHotplug s \<and> ts_memHotplug s' = ts_memHotplug s
    \<and> (\<exists>vs. list_all isUp vs \<and> snd y = snd x @ vs @ map undo (rev vs))"
proof (cases "addSupervisorBinary cs")
  case (Inl e')
  then show ?thesis using assms by (auto simp: createTaskInVM_def intro: exI [of _ "[]"])
next
  case (Inr cs1)
  with assms obtain q where q: "mg_instance (ts_vmLifecycle s) = Iface q" and b: "cs_bundle cs1 \<noteq> None"
    by (auto simp: createTaskInVM_def split: iface.splits option.splits)
  have "cs_bundle cs \<noteq> None" using Inr b by (auto simp: addSupervisorBinary_def split: option.splits if_splits sum.splits)
  from createTaskInVM_log [OF q this, of env x] assms obtain q' where *: "cs_cleanup cs' = cs_cleanup cs" "s' = setInstance q' s"
    "snd y = snd x \<or> (\<exists>h. snd y = snd x @ [Up (ResIO h), Down (ResIO h)])" by auto
  from *(3) have "\<exists>vs. list_all isUp vs \<and> snd y = snd x @ vs @ map undo (rev vs)"
    by (elim disjE exE) (auto intro: exI [of _ "[]"] exI [of _ "[Up (ResIO _)]"])
  with * show ?thesis by simp
qed

lemma create_failed_account:
  assumes c: "task_Create (loggedEnv env) r s d x = returns (Inl e, s', d', y)" and acc: "account used s (snd x)" and "shimInv s" "used \<subseteq> used'"
  shows "account used' s' (snd y)"
  using c
proof (cases rule: task_Create_failure)
  case refused
  from validate_refused_state [OF refused(1)] refused(2) assms(4) show ?thesis by (intro account_cong [OF _ _ _ _ _ _ _ acc]) simp_all
next
  case (failed s1 e1 cs1 s2 d1 x1)
  have idle: "State (ts_stateMachine s) = StateIdle" and s1: "ts_cpuHotplug s1 = ts_cpuHotplug s" "ts_memHotplug s1 = ts_memHotplug s"
    using validate_accepted [OF failed(1)] by auto
  have "sameTask s s'" using task_Create_step [OF c assms(3)] by simp
  then have idle': "State (ts_stateMachine s') = StateIdle" using idle by (simp add: sameTask_def)
  have fresh: "ups (snd x) = downs (snd x)" "ts_cpuHotplug s = []" "ts_memHotplug s = []" using acc idle by (simp_all add: account_def)
  obtain us m where us: "tracks cs1 us" "snd x1 = snd x @ us" "s2 = s1\<lparr>ts_vmLifecycle := m\<rparr>"
    using setupVMInstance_tracks [OF failed(2)] by blast
  have finish: ?thesis if "cs_cleanup cs = cs_cleanup cs1" "y = rollback cs z" "snd z = snd x1 @ vs @ map undo (rev vs)" "list_all isUp vs"
    "ts_cpuHotplug s' = []" "ts_memHotplug s' = []" for cs z vs
  proof -
    have "tracks cs us" using us(1) tracks_cong [OF that(1)] by blast
    then have "snd y = snd z @ map undo (rev us)" using that(2) by (cases z) (simp add: tracks_def)
    then have "ups (snd y) = downs (snd y)"
      using that us undone [of us] undone [of vs] fresh by (simp add: tracks_def)
    then show ?thesis using idle' that by (simp add: account_def)
  qed
  show ?thesis
  proof (cases e1)
    case (Some e')
    then show ?thesis using failed(3) us fresh s1 by (intro finish [of cs1 x1 "[]"]) simp_all
  next
    case None
    with failed(3) obtain e2 s3 x2 where st2: "startVM (loggedEnv env) cs1 s2 x1 = returns (e2, s3, x2)"
      and k: "case e2 of Some e' \<Rightarrow> y = rollback cs1 x2 \<and> s' = creationFailed s3
              | None \<Rightarrow> \<exists>e' cs2 s4 x3. createTaskInVM (loggedEnv env) cs1 s3 x2 = returns (Inl e', cs2, s4, x3)
                  \<and> y = rollback cs2 x3 \<and> s' = creationFailed s4" by auto
    note r2 = startVM_success [OF st2]
    show ?thesis
    proof (cases e2)
      case (Some e')
      then show ?thesis using k r2 us fresh s1 by (intro finish [of cs1 x2 "[]"]) simp_all
    next
      case None
      with k obtain e' cs2 s4 x3 where st3: "createTaskInVM (loggedEnv env) cs1 s3 x2 = returns (Inl e', cs2, s4, x3)"
        and y: "y = rollback cs2 x3" "s' = creationFailed s4" by auto
      from createTaskInVM_failed [OF st3] obtain vs where vs: "cs_cleanup cs2 = cs_cleanup cs1" "ts_cpuHotplug s4 = ts_cpuHotplug s3"
        "ts_memHotplug s4 = ts_memHotplug s3" "list_all isUp vs" "snd x3 = snd x2 @ vs @ map undo (rev vs)" by blast
      show ?thesis using y vs r2 us fresh s1 by (intro finish [of cs2 x3 vs]) simp_all
    qed
  qed
qed

section \<open>Exec\<close>

text \<open>The fields the account depends on, without the container.\<close>

definition sameRest :: "'w service \<Rightarrow> 'w service \<Rightarrow> bool" where
  "sameRest s s' \<longleftrightarrow> State (ts_stateMachine s') = State (ts_stateMachine s) \<and> ts_containerID s' = ts_containerID s
     \<and> ts_cpuHotplug s' = ts_cpuHotplug s \<and> ts_memHotplug s' = ts_memHotplug s"

lemma quiet_account:
  assumes "sameRest s s'" "ts_container s' = ts_container s" "ups l' + downs l = ups l + downs l'" "used \<subseteq> used'" "account used s l"
  shows "account used' s' l'"
  using assms by (intro account_cong [OF _ _ _ _ _ assms(3,4,5)]) (simp_all add: sameRest_def)

lemma getTaskClient_log:
  assumes "getTaskClient (loggedEnv env) s x = returns (res, s', y)"
  shows "snd y = snd x \<and> (\<exists>m. s' = s\<lparr>ts_connManager := m\<rparr>)"
  using assms by (auto simp: getTaskClient_def bindRun_returns_iff dest!: paired.GetClient_frame)

lemma task_Exec_log:
  assumes "task_Exec (loggedEnv env) r s x = returns (res, s', y)"
  shows "sameRest s s' \<and>
    (ts_container s' = ts_container s \<and> (snd y = snd x \<or> (\<exists>h. snd y = snd x @ [Up (ResIO h), Down (ResIO h)]))
     \<or> (\<exists>c pio. ts_container s = Some c \<and>
          (ts_container s' = Some (updExec (AList.update (er_ExecID r) pio) c) \<and> snd y = snd x @ [Up (ResIO (pio_forwarder pio))]
           \<or> ts_container s' = Some (updExec (AList.delete (er_ExecID r)) (updExec (AList.update (er_ExecID r) pio) c))
              \<and> snd y = snd x @ [Up (ResIO (pio_forwarder pio)), Down (ResIO (pio_forwarder pio))])))"
proof -
  let ?x = "er_ExecID r" and ?i = "er_ID r"
  obtain r1 s1 x1 where g: "getTaskClient (loggedEnv env) s x = returns (r1, s1, x1)"
    using assms by (auto simp: task_Exec_def bindRun_returns_iff)
  obtain m where s1: "s1 = s\<lparr>ts_connManager := m\<rparr>" and x1: "snd x1 = snd x" using getTaskClient_log [OF g] by blast
  show ?thesis
  proof (cases r1)
    case (Inl e)
    then show ?thesis using assms g s1 x1 by (auto simp: task_Exec_def sameRest_def)
  next
    case vmc: (Inr vmc)
    show ?thesis
    proof (cases "mg_instance (ts_vmLifecycle s1)")
      case (Iface q)
      obtain r2 q1 w2 where f: "te_forwardIO env q ?i ?x (er_Stdio r) (fst x1) = (r2, q1, w2)" by (metis prod_cases3)
      show ?thesis
      proof (cases r2)
        case (Inl e)
        then show ?thesis using assms g s1 x1 vmc Iface f by (auto simp: task_Exec_def loggedForwardIO_def Let_def sameRest_def)
      next
        case (Inr p)
        obtain cio h where p: "p = (cio, h)" by (metis surj_pair)
        show ?thesis
        proof (cases "if ts_containerID s = ?i then ts_container s else None")
          case None
          then have "\<exists>y' e. y = (y', snd x @ [Up (ResIO h), Down (ResIO h)]) \<and> s' = setInstance q1 s1"
            using assms g s1 x1 vmc Iface f Inr p
            by (cases "ts_containerID s = ?i") (auto simp: task_Exec_def loggedForwardIO_def Let_def logP_def split: prod.splits)
          then show ?thesis using s1 by (auto simp: sameRest_def)
        next
          case (Some c)
          then have c: "ts_container s = Some c" "ts_containerID s = ?i" by (auto split: if_splits)
          obtain e w3 where ge: "rp_Exec (te_guest env) vmc (r\<lparr>er_Stdio := cio\<rparr>) w2 = (e, w3)" by (metis surj_pair)
          show ?thesis using assms g s1 x1 vmc Iface f Inr p Some c ge
            by (cases e) (auto simp: task_Exec_def loggedForwardIO_def Let_def sameRest_def pairGuest_def pairP_def dropExec_def
                logP_def updExec_def update_conv' split: prod.splits)
        qed
      qed
    qed (use assms g s1 x1 vmc in \<open>auto simp: task_Exec_def sameRest_def\<close>)
  qed
qed

lemma update_new: "k \<notin> fst ` set al \<Longrightarrow> AList.update k v al = al @ [(k, v)]"
  by (induction al) auto

lemma delete_absent: "k \<notin> fst ` set al \<Longrightarrow> AList.delete k al = al"
  by (induction al) auto

lemma delete_new: "k \<notin> fst ` set al \<Longrightarrow> AList.delete k (al @ [(k, v)]) = al"
  by (induction al) auto

lemma delete_sub: "set (AList.delete k al) \<subseteq> set al"
  by (auto simp: AList.delete_eq)

lemma mset_delete:
  "distinct (map fst al) \<Longrightarrow> map_of al k = Some v \<Longrightarrow> mset al = add_mset (k, v) (mset (AList.delete k al))"
  by (induction al) (auto simp: delete_absent split: if_splits)

lemma updExec_simps:
  "c_mountCleanup (updExec f c) = c_mountCleanup c" "tio_exec (c_io (updExec f c)) = f (tio_exec (c_io c))"
  "tio_init (c_io (updExec f c)) = tio_init (c_io c)"
  by (simp_all add: updExec_def)

lemma exec_account:
  assumes "task_Exec (loggedEnv env) r s x = returns (res, s', y)" "account used s (snd x)" "er_ExecID r \<notin> used" "shimInv s"
  shows "account (insert (er_ExecID r) used) s' (snd y)"
proof -
  let ?x = "er_ExecID r"
  have rest: "sameRest s s'" using task_Exec_log [OF assms(1)] by blast
  from task_Exec_log [OF assms(1)] consider
    (quiet) h where "ts_container s' = ts_container s" "snd y = snd x \<or> snd y = snd x @ [Up (ResIO h), Down (ResIO h)]"
  | (upd) c pio where "ts_container s = Some c" "ts_container s' = Some (updExec (AList.update ?x pio) c)"
      "snd y = snd x @ [Up (ResIO (pio_forwarder pio))]"
  | (drop) c pio where "ts_container s = Some c" "ts_container s' = Some (updExec (AList.delete ?x) (updExec (AList.update ?x pio) c))"
      "snd y = snd x @ [Up (ResIO (pio_forwarder pio)), Down (ResIO (pio_forwarder pio))]" by blast
  then show ?thesis
  proof cases
    case quiet
    then show ?thesis by (intro quiet_account [OF rest _ _ _ assms(2)]) auto
  next
    case upd
    show ?thesis
    proof (cases "State (ts_stateMachine s) = StateRunning")
      case True
      then have t: "ups (snd x) = downs (snd x) + owned s" "tidy used s" using assms(2) by (simp_all add: account_def)
      then have new: "?x \<notin> fst ` set (tio_exec (c_io c))" using upd(1) assms(3) by (auto simp: tidy_def)
      have "owned s' = add_mset (ResIO (pio_forwarder pio)) (owned s)"
        using upd rest new by (simp add: owned_def sameRest_def forwarders_def updExec_simps update_new)
      then have "ups (snd y) = downs (snd y) + owned s'" using t upd(3) by simp
      moreover have "tidy (insert ?x used) s'"
        using t(2) upd rest new by (auto simp: tidy_def sameRest_def updExec_simps update_new)
      ultimately show ?thesis using True rest by (simp add: account_def sameRest_def)
    next
      case False
      then show ?thesis using upd rest assms(2,4) by (auto simp: account_def sameRest_def shimInv_def)
    qed
  next
    case drop
    show ?thesis
    proof (cases "State (ts_stateMachine s) = StateRunning")
      case True
      then have "tidy used s" using assms(2) by (simp add: account_def)
      then have new: "?x \<notin> fst ` set (tio_exec (c_io c))" using drop(1) assms(3) by (auto simp: tidy_def)
      then have "ts_container s' = ts_container s" using drop by (simp add: updExec_def update_new delete_new)
      then show ?thesis using drop(3) by (intro quiet_account [OF rest _ _ _ assms(2)]) auto
    next
      case False
      then show ?thesis using drop rest assms(2,4) by (auto simp: account_def sameRest_def shimInv_def)
    qed
  qed
qed

section \<open>Delete\<close>

lemma shutdownForwarders_log: "shutdownForwarders (loggedEnv env) fs x = (errs, y) \<Longrightarrow> snd y = snd x @ map (\<lambda>h. Down (ResIO h)) fs"
  by (induction fs arbitrary: x errs y) (auto simp: Let_def logP_def split: prod.splits)

lemma delete_exec_account:
  assumes "task_Delete (loggedEnv env) i e s x = returns (res, s', y)" "e \<noteq> ''''" "account used s (snd x)" "shimInv s"
  shows "account used s' (snd y)"
proof -
  obtain r1 s2 x1 where g: "getTaskClient (loggedEnv env) (enter s) x = returns (r1, s2, x1)"
    using assms(1,2) by (auto simp: task_Delete_def startDeleting_def bindRun_returns_iff)
  obtain m where s2: "s2 = (enter s)\<lparr>ts_connManager := m\<rparr>" and x1: "snd x1 = snd x" using getTaskClient_log [OF g] by blast
  have quiet: ?thesis if "s' = leave s2" "snd y = snd x"
    using that s2 by (intro quiet_account [OF _ _ _ _ assms(3)]) (simp_all add: sameRest_def enter_def leave_def)
  show ?thesis
  proof (cases r1)
    case (Inl err)
    then show ?thesis using assms(1,2) g x1 by (intro quiet) (auto simp: task_Delete_def startDeleting_def)
  next
    case (Inr vmc)
    obtain r2 w2 where d: "rp_Delete (te_guest env) vmc i e (fst x1) = (r2, w2)" by (metis surj_pair)
    obtain dc s4 where c: "collectDeleteCleanup i e s2 = (dc, s4)" by (metis surj_pair)
    obtain errs z where f: "shutdownForwarders (loggedEnv env) (dc_ioForwarders dc) (w2, snd x1) = (errs, z)" by (metis surj_pair)
    have z: "snd z = snd x @ map (\<lambda>h. Down (ResIO h)) (dc_ioForwarders dc)" using shutdownForwarders_log [OF f] x1 by simp
    show ?thesis
    proof (cases r2)
      case err: (Inl err)
      then show ?thesis using assms(1,2) g Inr d x1
        by (intro quiet) (auto simp: task_Delete_def startDeleting_def pairGuest_def pairP_def)
    next
      case resp: (Inr resp)
      have dc: "\<not> dc_needVMShutdown dc" "dc_cpuController dc = None" "dc_memController dc = None"
        using c assms(2) by (auto simp: collectDeleteCleanup_def noCleanup_def Let_def split: option.splits if_splits)
      then have y: "s' = leave s4" "y = z"
        using assms(1,2) g Inr d resp c f by (auto simp: task_Delete_def startDeleting_def pairGuest_def pairP_def runDeleteCleanup_def)
      show ?thesis
      proof (cases "dc_ioForwarders dc = []")
        case True
        then have "s4 = s2" using c assms(2) by (auto simp: collectDeleteCleanup_def noCleanup_def Let_def split: option.splits if_splits)
        then show ?thesis using y z True by (intro quiet) simp_all
      next
        case False
        then obtain k pio where k: "ts_container s = Some k" "map_of (tio_exec (c_io k)) e = Some pio" "dc_ioForwarders dc = [pio_forwarder pio]"
          "s4 = s2\<lparr>ts_container := Some (updExec (AList.delete e) k)\<rparr>"
          using c assms(2) s2 by (auto simp: collectDeleteCleanup_def noCleanup_def Let_def enter_def split: option.splits if_splits)
        have rest: "sameRest s s'" using y k s2 by (simp add: sameRest_def leave_def enter_def)
        have con: "ts_container s' = Some (updExec (AList.delete e) k)" using y k by (simp add: leave_def)
        show ?thesis
        proof (cases "State (ts_stateMachine s) = StateRunning")
          case True
          then have t: "ups (snd x) = downs (snd x) + owned s" "tidy used s" using assms(3) by (simp_all add: account_def)
          then have dist: "distinct (map fst (tio_exec (c_io k)))" using k(1) by (simp add: tidy_def)
          have "owned s = add_mset (ResIO (pio_forwarder pio)) (owned s')"
            using mset_delete [OF dist k(2)] con k(1) rest by (simp add: owned_def sameRest_def forwarders_def updExec_simps)
          then have "ups (snd y) = downs (snd y) + owned s'" using t y z k(3) by simp
          moreover have "tidy used s'"
            using t(2) con k(1) rest delete_sub [of e "tio_exec (c_io k)"]
            by (auto simp: tidy_def sameRest_def updExec_simps distinct_delete)
          ultimately show ?thesis using True rest by (simp add: account_def sameRest_def)
        next
          case False
          then show ?thesis using con k(1) rest assms(3,4) by (auto simp: account_def sameRest_def shimInv_def)
        qed
      qed
    qed
  qed
qed

lemma deletePhases_run:
  "snd (snd (ExecutePartial PhaseVMShutdown (NewCleanupOrchestrator (deletePhases env i dc)) x)) =
     snd (onService (runMountCleanup (dc_mountCleanup dc)) (snd (onService (\<lambda>s w.
        if \<not> dc_needNetworkClean dc then Ret (None, s, w)
        else (let (err, w1) = releaseNetwork env i w in Ret (err, s, w1))) (snd (onService (vmShutdown env) x)))))"
  by (simp add: ExecutePartial_def executeFrom_def NewCleanupOrchestrator_def new_phase_def deletePhases_def phaseOrder_def phase_defs
      case_prod_unfold Let_def)

text \<open>What \<open>Delete\<close> takes down, in this order.\<close>

definition deleteDowns :: "string \<Rightarrow> 'w deleteCleanup \<Rightarrow> svcEvent list" where
  "deleteDowns i dc =
     map (\<lambda>h. Down (ResIO h)) (dc_ioForwarders dc)
     @ (case dc_cpuController dc of None \<Rightarrow> [] | Some h \<Rightarrow> [Down (ResCPU h)])
     @ (case dc_memController dc of None \<Rightarrow> [] | Some h \<Rightarrow> [Down (ResMem h)])
     @ [Down (ResNetwork i)] @ (case dc_mountCleanup dc of None \<Rightarrow> [] | Some fn \<Rightarrow> [Down ResMounts])"

lemma runDeleteCleanup_log:
  assumes "runDeleteCleanup (loggedEnv env) i dc s x = Ret (s', y)" "dc_needVMShutdown dc" "dc_needNetworkClean dc" "logsMounts (dc_mountCleanup dc)"
  shows "snd y = snd x @ deleteDowns i dc \<and> ts_container s' = ts_container s \<and> ts_containerID s' = ts_containerID s
    \<and> mg_instance (ts_vmLifecycle s') = NilIface \<and> ts_exitRequested s' \<and> ts_events s' = ts_events s
    \<and> ts_cpuHotplug s' = ts_cpuHotplug s \<and> ts_memHotplug s' = ts_memHotplug s"
proof -
  let ?s1 = "setState' (SetIntentionalShutdown True (ts_stateMachine s)) s"
  obtain errs z where f: "shutdownForwarders (loggedEnv env) (dc_ioForwarders dc) x = (errs, z)" by (metis surj_pair)
  note z = shutdownForwarders_log [OF f]
  define z2 where "z2 = (case dc_cpuController dc of None \<Rightarrow> z | Some h \<Rightarrow> te_stopCPU (loggedEnv env) h z)"
  define z3 where "z3 = (case dc_memController dc of None \<Rightarrow> z2 | Some h \<Rightarrow> te_stopMem (loggedEnv env) h z2)"
  have z3: "snd z3 = snd z @ (case dc_cpuController dc of None \<Rightarrow> [] | Some h \<Rightarrow> [Down (ResCPU h)])
      @ (case dc_memController dc of None \<Rightarrow> [] | Some h \<Rightarrow> [Down (ResMem h)])"
    by (simp add: z3_def z2_def split: option.split)
  have run: "bindGo (snd (snd (ExecutePartial PhaseVMShutdown (NewCleanupOrchestrator (deletePhases (loggedEnv env) i dc)) (Ret (?s1, z3)))))
      (\<lambda>(s2, w4). Ret (s2\<lparr>ts_exitRequested := True\<rparr>, w4)) = Ret (s', y)"
    using assms(1,2) f
    by (cases "dc_cpuController dc"; cases "dc_memController dc") (simp_all add: runDeleteCleanup_def Let_def z3_def z2_def case_prod_unfold)
  show ?thesis
  proof (cases "mgr_Shutdown (pairOs (te_os env)) (ts_vmLifecycle s) z3")
    case (Panic e)
    then show ?thesis using run by (simp add: deletePhases_run onService_def vmShutdown_def)
  next
    case (Ret p)
    obtain err m z4 where p: "p = (err, m, z4)" by (metis prod_cases3)
    have z4: "snd z4 = snd z3" using Ret p by (auto dest!: paired.mgr_Shutdown_frame)
    have m: "mg_instance m = NilIface" using Ret p by (auto simp: mgr_Shutdown_def bindGo_Ret_iff split: iface.splits)
    obtain e5 z5 where n: "releaseNetwork (loggedEnv env) i z4 = (e5, z5)" by (metis surj_pair)
    then have z5: "snd z5 = snd z4 @ [Down (ResNetwork i)]" using release_log [of env i z4] by simp
    have y: "s' = ?s1\<lparr>ts_vmLifecycle := m, ts_exitRequested := True\<rparr>"
      "y = (case dc_mountCleanup dc of None \<Rightarrow> z5 | Some fn \<Rightarrow> snd (fn z5))"
      using run Ret p n assms(3)
      by (auto simp: deletePhases_run onService_def vmShutdown_def runMountCleanup_def case_prod_unfold Let_def split: option.splits)
    have "snd y = snd z5 @ (case dc_mountCleanup dc of None \<Rightarrow> [] | Some fn \<Rightarrow> [Down ResMounts])"
      using y(2) assms(4) by (cases z5; cases "dc_mountCleanup dc") (auto simp: logsMounts_def)
    then show ?thesis using y(1) m z z3 z4 z5 by (simp add: deleteDowns_def)
  qed
qed

lemma cleanup_keeps_container:
  "stopAllHotplugControllers env s w = Ret (err, s', w') \<Longrightarrow> ts_container s' = ts_container s"
  "shutdownAllIO env s w = Ret (err, s', w') \<Longrightarrow> ts_container s' = ts_container s"
  "connClose env s w = Ret (err, s', w') \<Longrightarrow> ts_container s' = ts_container s"
  "vmShutdown env s w = Ret (err, s', w') \<Longrightarrow> ts_container s' = ts_container s"
  "networkCleanup env i s w = Ret (err, s', w') \<Longrightarrow> ts_container s' = ts_container s"
  "runMountCleanup mc s w = Ret (err, s', w') \<Longrightarrow> ts_container s' = ts_container s"
  "closeEvents s w = Ret (err, s', w') \<Longrightarrow> ts_container s' = ts_container s"
  by (auto simp: cleanup_defs Let_def bindGo_Ret_iff split: prod.splits if_splits option.splits)

definition hasContainer :: "'w svc_world \<Rightarrow> bool" where
  "hasContainer x \<longleftrightarrow> (case x of Ret (s, w) \<Rightarrow> ts_container s \<noteq> None | Panic e \<Rightarrow> True)"

lemma onService_container:
  assumes "\<And>s w err s' w'. f s w = Ret (err, s', w') \<Longrightarrow> ts_container s' = ts_container s" "hasContainer x"
  shows "hasContainer (snd (onService f x))"
proof (cases x)
  case (Ret p)
  obtain s w where p: "p = (s, w)" by (metis surj_pair)
  show ?thesis
  proof (cases "f s w")
    case (Ret q)
    obtain err s1 w1 where "q = (err, s1, w1)" by (metis prod_cases3)
    then show ?thesis using Ret p \<open>x = Ret p\<close> assms(1) [of s w err s1 w1] assms(2) by (simp add: onService_def hasContainer_def)
  qed (use Ret p in \<open>simp add: onService_def hasContainer_def\<close>)
qed (use assms(2) in \<open>simp add: onService_def\<close>)

lemma service_container:
  assumes "hasContainer x"
  shows "hasContainer (snd (onService (stopAllHotplugControllers env) x))" "hasContainer (snd (onService (shutdownAllIO env) x))"
    "hasContainer (snd (onService (connClose env) x))" "hasContainer (snd (onService (vmShutdown env) x))"
    "hasContainer (snd (onService (networkCleanup env i) x))" "hasContainer (snd (onService (runMountCleanup mc) x))"
    "hasContainer (snd (onService closeEvents x))"
  by (rule onService_container [OF _ assms], erule cleanup_keeps_container)+

lemma cleanupOnDeleteFailure_container:
  assumes "cleanupOnDeleteFailure env i s w = Ret (s', w')" "ts_container s \<noteq> None"
  shows "ts_container s' \<noteq> None"
proof -
  let ?s1 = "setState' (SetIntentionalShutdown True (ts_stateMachine s)) s"
  obtain mc s2 where m: "extractMountCleanup ?s1 = (mc, s2)" by (metis surj_pair)
  obtain ph where b: "buildCleanupPhases env i ?s1 = (ph, s2)" using m by (simp add: buildCleanupPhases_def)
  obtain res c x where e: "ExecutePartial PhaseIOShutdown (NewCleanupOrchestrator ph) (Ret (s2, w)) = (res, c, x)" by (metis prod_cases3)
  have "hasContainer (snd (fn x))" if "p \<in> set (NewCleanupOrchestrator ph)" "cp_fn p = Some fn" "hasContainer x" for p fn x
    using that b m service_container [OF that(3)] by (auto simp: buildCleanupPhases_def NewCleanupOrchestrator_def new_phase_def)
  moreover have "hasContainer (Ret (s2, w))" using m assms(2) by (auto simp: hasContainer_def extractMountCleanup_def split: option.splits)
  ultimately have "hasContainer x"
    by (intro executeFrom_keeps [where I = hasContainer, OF _ _ e [unfolded ExecutePartial_def]])
  then show ?thesis using assms(1) b e by (simp add: cleanupOnDeleteFailure_def hasContainer_def Let_def)
qed

lemma collect_account:
  assumes "collectDeleteCleanup i '''' s = (dc, s')" "ts_container s = Some c" "ts_containerID s = i" "tidy used s"
  shows "ups (deleteDowns i dc) = {#}" "downs (deleteDowns i dc) = owned s" "ts_container s' = None" "dc_needVMShutdown dc"
    "dc_needNetworkClean dc" "logsMounts (dc_mountCleanup dc)" "ts_cpuHotplug s' = []" "ts_memHotplug s' = []"
proof -
  obtain cpu mem where h: "ts_cpuHotplug s = map (Pair i) cpu" "length cpu \<le> 1" "ts_memHotplug s = map (Pair i) mem" "length mem \<le> 1"
    using assms(2-4) by (auto simp: tidy_def)
  have one: "downs (case map_of (map (Pair i) hs) i of None \<Rightarrow> [] | Some h \<Rightarrow> [Down (f h)]) = mset (map f hs)" "AList.delete i (map (Pair i) hs) = []"
    if "length hs \<le> 1" for hs :: "nat list" and f
    using that by (cases hs; auto)+
  have dc: "dc_ioForwarders dc = forwarders c" "dc_cpuController dc = map_of (map (Pair i) cpu) i" "dc_memController dc = map_of (map (Pair i) mem) i"
    "dc_mountCleanup dc = c_mountCleanup c"
    using assms(1-3) h by (auto simp: collectDeleteCleanup_def noCleanup_def)
  show "ups (deleteDowns i dc) = {#}" by (simp add: deleteDowns_def split: option.split)
  have "downs (deleteDowns i dc) = mset (map ResIO (forwarders c)) + mset (map ResCPU cpu) + mset (map ResMem mem) + {#ResNetwork i#} + mountsOf (c_mountCleanup c)"
    unfolding deleteDowns_def dc mountsOf_def
    by (simp add: one(1) [OF h(2)] one(1) [OF h(4)] split: option.split)
  then show "downs (deleteDowns i dc) = owned s" using assms(2,3) h by (simp add: owned_def comp_def ac_simps)
  show "ts_container s' = None" "dc_needVMShutdown dc" "dc_needNetworkClean dc" "logsMounts (dc_mountCleanup dc)"
    "ts_cpuHotplug s' = []" "ts_memHotplug s' = []"
    using assms h one(2) [OF h(2)] one(2) [OF h(4)] by (auto simp: collectDeleteCleanup_def noCleanup_def tidy_def)
qed

lemma delete_task_account:
  assumes c: "task_Delete (loggedEnv env) i '''' s x = returns (res, s', y)" and acc: "account used s (snd x)" and inv: "shimInv s"
  shows "account used s' (snd y)"
proof (cases "State (ts_stateMachine s) = StateRunning")
  case False
  then have "s' = leave (enter s)" "y = x" using c startDeleting_refused [of "enter s"] by (auto simp: task_Delete_def)
  then show ?thesis by (intro quiet_account [OF _ _ _ _ acc]) (simp_all add: sameRest_def enter_def leave_def)
next
  case True
  then have t: "ups (snd x) = downs (snd x) + owned s" "tidy used s" using acc by (simp_all add: account_def)
  obtain k where k: "ts_container s = Some k" using True inv by (auto simp: shimInv_def)
  obtain m where m: "startDeleting '''' (enter s) = (None, setState' m (enter s))" using startDeleting_done [of "enter s"] True by auto
  have "State (ts_stateMachine s') = StateDeleting" using task_Delete_task [OF c] True by simp
  then have acc': "account used s' (snd y)" if "ts_container s' = None \<Longrightarrow> ups (snd y) = downs (snd y)" using that by (simp add: account_def)
  obtain r1 s2 x1 where g: "getTaskClient (loggedEnv env) (setState' m (enter s)) x = returns (r1, s2, x1)"
    using c m by (auto simp: task_Delete_def bindRun_returns_iff)
  obtain n where s2: "s2 = (setState' m (enter s))\<lparr>ts_connManager := n\<rparr>" and x1: "snd x1 = snd x" using getTaskClient_log [OF g] by blast
  have k2: "ts_container s2 = Some k" "ts_containerID s2 = ts_containerID s" "owned s2 = owned s" "tidy used s2"
    using s2 k t(2) by (simp_all add: enter_def owned_def tidy_def)
  show ?thesis
  proof (cases r1)
    case (Inl err)
    then have "ts_container s' \<noteq> None" using c m g k2 by (auto simp: task_Delete_def leave_def)
    then show ?thesis by (intro acc') simp
  next
    case (Inr vmc)
    obtain r2 w2 where d: "rp_Delete (te_guest env) vmc i '''' (fst x1) = (r2, w2)" by (metis surj_pair)
    show ?thesis
    proof (cases r2)
      case (Inl err)
      with c m g d \<open>r1 = Inr vmc\<close> obtain s3 where "cleanupOnDeleteFailure (loggedEnv env) i s2 (w2, snd x1) = Ret (s3, y)" "s' = leave s3"
        by (auto simp: task_Delete_def pairGuest_def pairP_def bindRun_returns_iff)
      then have "ts_container s' \<noteq> None" using cleanupOnDeleteFailure_container [of "loggedEnv env" i s2 "(w2, snd x1)" s3 y] k2(1) by (simp add: leave_def)
      then show ?thesis by (intro acc') simp
    next
      case resp: (Inr resp)
      let ?s3 = "task_send (TaskDelete i (dr_Pid resp) (dr_ExitStatus resp) (dr_ExitedAt resp)) s2"
      obtain dc s4 where co: "collectDeleteCleanup i '''' ?s3 = (dc, s4)" by (metis surj_pair)
      have k3: "ts_container ?s3 = Some k" "ts_containerID ?s3 = ts_containerID s" "owned ?s3 = owned s" "tidy used ?s3"
        using k2 by (simp_all add: task_send_def owned_def tidy_def)
      obtain s5 where run: "runDeleteCleanup (loggedEnv env) i dc s4 (w2, snd x1) = Ret (s5, y)" and s': "s' = leave s5"
        using c m g d Inr resp co by (auto simp: task_Delete_def pairGuest_def pairP_def bindRun_returns_iff)
      show ?thesis
      proof (cases "ts_containerID s = i")
        case id: True
        note ca = collect_account [OF co k3(1) _ k3(4)]
        from runDeleteCleanup_log [OF run ca(4-6)] have "snd y = snd x @ deleteDowns i dc" using id k3(2) x1 by simp
        then have "ups (snd y) = downs (snd y)" using ca(1,2) id k3(2,3) t(1) by simp
        then show ?thesis by (intro acc')
      next
        case id: False
        then have dc: "\<not> dc_needVMShutdown dc" "ts_container s4 = Some k"
          using co k3 by (auto simp: collectDeleteCleanup_def noCleanup_def)
        then have "ts_container s' \<noteq> None" using runDeleteCleanup_state(2) [OF run] s' by (simp add: leave_def)
        then show ?thesis by (intro acc') simp
      qed
    qed
  qed
qed

section \<open>The other requests\<close>

definition quiet :: "('w \<times> svcEvent list) service \<Rightarrow> 'w \<times> svcEvent list \<Rightarrow> ('w \<times> svcEvent list) service \<Rightarrow> 'w \<times> svcEvent list \<Rightarrow> bool" where
  "quiet s x s' y \<longleftrightarrow> sameRest s s' \<and> ts_container s' = ts_container s \<and> snd y = snd x"

lemma callGuest_quiet:
  assumes "callGuest (loggedEnv env) call s x = returns (res, s', y)" "\<And>c x. snd (snd (call c x)) = snd x"
  shows "quiet s x s' y"
  using assms(1)
  by (clarsimp simp: callGuest_def bindRun_returns_iff)
    (auto simp: quiet_def sameRest_def dest!: getTaskClient_log split: sum.splits prod.splits, (metis assms(2) snd_conv)+)

lemma pairGuest_snd:
  "snd (snd (rp_Start (pairGuest g) c i e x)) = snd x" "snd (snd (rp_State (pairGuest g) c i e x)) = snd x"
  "snd (snd (rp_Connect (pairGuest g) c i x)) = snd x" "snd (snd (rp_Pids (pairGuest g) c i x)) = snd x"
  "snd (snd (rp_Wait (pairGuest g) c i e x)) = snd x" "snd (snd (rp_Stats (pairGuest g) c i x)) = snd x"
  "snd (snd (unitResult (rp_CloseIO (pairGuest g) c i e b x))) = snd x" "snd (snd (unitResult (rp_ResizePty (pairGuest g) c i e dm x))) = snd x"
  "snd (snd (unitResult (rp_Kill (pairGuest g) c i e sg x))) = snd x" "snd (snd (unitResult (rp_Update (pairGuest g) c i u x))) = snd x"
  by (simp_all add: pairGuest_def pairP_def unitResult_def case_prod_unfold Let_def split: option.split)

lemma task_Start_quiet: "task_Start (loggedEnv env) i e s x = returns (res, s', y) \<Longrightarrow> quiet s x s' y"
  by (clarsimp simp: task_Start_def bindRun_returns_iff)
    (auto simp: pairGuest_snd quiet_def sameRest_def dest!: callGuest_quiet split: sum.splits if_splits)

lemma quiet_refl [simp]: "quiet s x s x"
  by (simp add: quiet_def sameRest_def)

lemma task_State_quiet: "task_State (loggedEnv env) i e s x = returns (res, s', y) \<Longrightarrow> quiet s x s' y"
  by (cases "if e = '''' \<and> \<not> ts_initStarted s then ts_container s else None"; clarsimp simp: task_State_def bindRun_returns_iff Let_def)
    (auto simp: Let_def pairGuest_snd dest!: callGuest_quiet split: sum.splits if_splits option.splits)

lemma task_Connect_quiet: "task_Connect (loggedEnv env) i s x = returns (res, s', y) \<Longrightarrow> quiet s x s' y"
  by (cases "if ts_containerID s = i then ts_container s else None"; clarsimp simp: task_Connect_def bindRun_returns_iff split: if_splits)
    (auto simp: pairGuest_snd dest!: callGuest_quiet)

lemma task_CloseIO_quiet: "task_CloseIO (loggedEnv env) i e b s x = returns (res, s', y) \<Longrightarrow> quiet s x s' y"
proof -
  assume c: "task_CloseIO (loggedEnv env) i e b s x = returns (res, s', y)"
  define x1 where "x1 = (if b then (case getIOForwarder i e s of None \<Rightarrow> x | Some f \<Rightarrow> te_ioCloseStdin (loggedEnv env) f x) else x)"
  have "snd x1 = snd x" by (simp add: x1_def loggedEnv_def pairW_def split: option.split)
  moreover have "quiet s x1 s' y" using c unfolding task_CloseIO_def x1_def [symmetric] Let_def
    by (rule callGuest_quiet) (simp add: pairGuest_snd)
  ultimately show ?thesis by (simp add: quiet_def)
qed

lemma guest_calls_quiet:
  "task_Kill (loggedEnv env) i e sg s x = returns (r1, s', y) \<Longrightarrow> quiet s x s' y"
  "task_ResizePty (loggedEnv env) i e dm s x = returns (r2, s', y) \<Longrightarrow> quiet s x s' y"
  "task_Pids (loggedEnv env) i s x = returns (r3, s', y) \<Longrightarrow> quiet s x s' y"
  "task_Update (loggedEnv env) i u s x = returns (r4, s', y) \<Longrightarrow> quiet s x s' y"
  "task_Wait (loggedEnv env) i e s x = returns (r5, s', y) \<Longrightarrow> quiet s x s' y"
  "task_Stats (loggedEnv env) i s x = returns (r6, s', y) \<Longrightarrow> quiet s x s' y"
  unfolding task_Kill_def task_ResizePty_def task_Pids_def task_Update_def task_Wait_def task_Stats_def
  by (erule callGuest_quiet, simp add: pairGuest_snd)+

fun execIDs :: "request list \<Rightarrow> string list" where
  "execIDs [] = []"
| "execIDs (ReqExec r # reqs) = er_ExecID r # execIDs reqs"
| "execIDs (req # reqs) = execIDs reqs"

section \<open>Every sequence of requests\<close>

definition accountInv :: "string set \<Rightarrow> ('w \<times> svcEvent list) shim \<Rightarrow> bool" where
  "accountInv used x \<longleftrightarrow> shimInv (fst x) \<and> account used (fst x) (snd (snd (snd x)))"

lemma onShim_account:
  assumes "onShim f op x = returns (resp, x')" "accountInv used x" "used \<subseteq> used'"
    and "\<And>res s' y. op (fst x) (snd (snd x)) = returns (res, s', y) \<Longrightarrow> account used (fst x) (snd (snd (snd x))) \<Longrightarrow> account used' s' (snd y)"
  shows "account used' (fst x') (snd (snd (snd x')))"
  using assms by (cases x) (auto simp: onShim_def bindRun_returns_iff accountInv_def)

lemma onShim_quiet:
  assumes "onShim f op x = returns (resp, x')" "accountInv used x" "used \<subseteq> used'"
    and "\<And>res s' y. op (fst x) (snd (snd x)) = returns (res, s', y) \<Longrightarrow> quiet (fst x) (snd (snd x)) s' y"
  shows "account used' (fst x') (snd (snd (snd x')))"
  using assms(1-3)
proof (rule onShim_account)
  fix res s' y
  assume "op (fst x) (snd (snd x)) = returns (res, s', y)" and acc: "account used (fst x) (snd (snd (snd x)))"
  from assms(4) [OF this(1)] show "account used' s' (snd y)"
    using assms(3) by (intro quiet_account [OF _ _ _ _ acc]) (simp_all add: quiet_def)
qed

lemma serve_account:
  assumes "serve (loggedEnv env) req x = returns (resp, x')" "accountInv used x" "envEnds (loggedEnv env)" "req \<noteq> ShutdownCallback"
    "set (execIDs [req]) \<inter> used = {}"
  shows "accountInv (used \<union> set (execIDs [req])) x'"
proof -
  have sub: "used \<subseteq> used \<union> set (execIDs [req])" by blast
  have inv: "shimInv (fst x)" "account used (fst x) (snd (snd (snd x)))" using assms(2) by (simp_all add: accountInv_def)
  have "taskInv (loggedEnv env) x" using assms(3) inv by (simp add: taskInv_def)
  from serve_step [OF this assms(1)] have inv': "shimInv (fst x')" by (simp add: taskInv_def)
  have "account (used \<union> set (execIDs [req])) (fst x') (snd (snd (snd x')))"
  proof (cases req)
    case (ReqCreate r)
    obtain s d w where x: "x = (s, d, w)" by (metis prod_cases3)
    from assms(1) ReqCreate x obtain res where c: "task_Create (loggedEnv env) r s d w = returns (res, x')"
      by (auto simp: bindRun_returns_iff)
    obtain s' d' y where x': "x' = (s', d', y)" by (metis prod_cases3)
    have "account used s' (snd y)"
    proof (cases res)
      case (Inl e)
      then show ?thesis using create_failed_account [of env r s d w e s' d' y used used] c inv x x' by simp
    next
      case (Inr pid)
      then show ?thesis using create_account [of env r s d w pid s' d' y used used] c inv x x' by simp
    qed
    then show ?thesis using x' ReqCreate by simp
  next
    case (ReqDelete i e)
    show ?thesis
    proof (rule onShim_account [OF assms(1) [unfolded ReqDelete serve.simps] assms(2) sub])
      fix res s' y
      assume c: "task_Delete (loggedEnv env) i e (fst x) (snd (snd x)) = returns (res, s', y)"
      show "account (used \<union> set (execIDs [req])) s' (snd y)"
        using delete_exec_account [OF c _ inv(2,1)] delete_task_account [OF _ inv(2,1), of env i res s' y] c ReqDelete
        by (cases "e = []") simp_all
    qed
  next
    case (ReqExec r)
    show ?thesis
    proof (rule onShim_account [OF assms(1) [unfolded ReqExec serve.simps] assms(2) sub])
      fix res s' y
      assume c: "task_Exec (loggedEnv env) r (fst x) (snd (snd x)) = returns (res, s', y)"
      from exec_account [OF c inv(2) _ inv(1)] show "account (used \<union> set (execIDs [req])) s' (snd y)"
        using assms(5) ReqExec by simp
    qed
  next
    case (ReqStart i e)
    show ?thesis by (rule onShim_quiet [OF assms(1) [unfolded ReqStart serve.simps] assms(2) sub]) (erule task_Start_quiet)
  next
    case (ReqState i e)
    show ?thesis by (rule onShim_quiet [OF assms(1) [unfolded ReqState serve.simps] assms(2) sub]) (erule task_State_quiet)
  next
    case (ReqConnect i)
    show ?thesis by (rule onShim_quiet [OF assms(1) [unfolded ReqConnect serve.simps] assms(2) sub]) (erule task_Connect_quiet)
  next
    case (ReqCloseIO i e b)
    show ?thesis by (rule onShim_quiet [OF assms(1) [unfolded ReqCloseIO serve.simps] assms(2) sub]) (erule task_CloseIO_quiet)
  next
    case ReqShutdown
    then show ?thesis using assms(1) inv
      by (cases x) (auto intro!: quiet_account [OF _ _ _ _ inv(2)] simp: task_Shutdown_def sameRest_def)
  next
    case (ReqKill i e sg)
    show ?thesis by (rule onShim_quiet [OF assms(1) [unfolded ReqKill serve.simps] assms(2) sub]) (erule guest_calls_quiet)
  next
    case (ReqResizePty i e d)
    show ?thesis by (rule onShim_quiet [OF assms(1) [unfolded ReqResizePty serve.simps] assms(2) sub]) (erule guest_calls_quiet)
  next
    case (ReqPids i)
    show ?thesis by (rule onShim_quiet [OF assms(1) [unfolded ReqPids serve.simps] assms(2) sub]) (erule guest_calls_quiet)
  next
    case (ReqUpdate i u)
    show ?thesis by (rule onShim_quiet [OF assms(1) [unfolded ReqUpdate serve.simps] assms(2) sub]) (erule guest_calls_quiet)
  next
    case (ReqWait i e)
    show ?thesis by (rule onShim_quiet [OF assms(1) [unfolded ReqWait serve.simps] assms(2) sub]) (erule guest_calls_quiet)
  next
    case (ReqStats i)
    show ?thesis by (rule onShim_quiet [OF assms(1) [unfolded ReqStats serve.simps] assms(2) sub]) (erule guest_calls_quiet)
  qed (use assms(1,4) inv in auto)
  with inv' show ?thesis by (simp add: accountInv_def)
qed

lemma envEnds_logged: "envEnds env \<Longrightarrow> envEnds (loggedEnv env)"
  by (auto simp: envEnds_def osClockOk_pair)

lemma execIDs_Cons: "execIDs (req # reqs) = execIDs [req] @ execIDs reqs"
  by (cases req) simp_all

lemma run_account:
  assumes "runOps (serve (loggedEnv env)) reqs x = Some (rs, Ret x')" "accountInv used x" "envEnds (loggedEnv env)"
    "ShutdownCallback \<notin> set reqs" "distinct (execIDs reqs)" "set (execIDs reqs) \<inter> used = {}"
  shows "\<exists>used'. accountInv used' x'"
  using assms
proof (induction reqs arbitrary: x rs used)
  case (Cons req reqs)
  from Cons.prems(1) obtain resp x1 rs1 where st: "serve (loggedEnv env) req x = returns (resp, x1)"
    "runOps (serve (loggedEnv env)) reqs x1 = Some (rs1, Ret x')"
    by (auto split: option.splits go.splits prod.splits)
  have "accountInv (used \<union> set (execIDs [req])) x1"
    using Cons.prems(4,6) execIDs_Cons [of req reqs] by (intro serve_account [OF st(1) Cons.prems(2,3)]) auto
  from Cons.IH [OF st(2) this Cons.prems(3)] show ?case
    using Cons.prems(4-6) execIDs_Cons [of req reqs] by auto
qed auto



end
