(* ===== verification/Spec2Isabelle.thy ===== *)
theory Spec2Isabelle
  imports Net_Inflight Guest_Process Exit_Tracker Cpu_Hotplug Mem_Hotplug Task_Lifecycle
begin

text \<open>
  A verification development of spinbox, a containerd runtime that runs each container in a QEMU virtual machine
  of its own.

  \<^bold>\<open>The program.\<close> containerd starts one \<^emph>\<open>shim\<close> process per container and talks to its task service. The shim loads the
  container's bundle, computes the VM's resources, attaches the root file system as disks, sets up the network through
  CNI, starts QEMU, and reaches the guest over vsock. In the guest, \<^verbatim>\<open>vminitd\<close> receives the bundle, mounts the root file
  system and runs the container with an OCI runtime; exits travel back as events. Controllers in the shim plug
  CPUs and memory while the container runs. Everything the shim set up is taken down when the container is deleted or
  when the shim ends.

  \<^bold>\<open>The theories.\<close> Paths are below \<^verbatim>\<open>src/\<close>.

  \<^item> \<open>Go_Prelude\<close>, \<open>Go_Strings\<close>, \<open>Go_Filepath\<close>, \<open>Go_Loops\<close>: the parts of Go and its library the code uses. An \<open>error\<close> is a
    \<open>goerr\<close> (with wrapping and \<open>errors.Is\<close>); a panic is a value of \<open>'a go\<close>; a call that may not end is an \<open>option\<close>; a
    fixed-width integer is a word, or an \<open>int\<close> with the wrap-around written out.
  \<^item> \<open>Contracts\<close>, \<open>Refinement\<close>: the interfaces components share, as locales. Each is interpreted on the model's definitions
    in the theory of the component that provides it.
  \<^item> \<open>Shim_Lifecycle\<close>, \<open>Shim_Cleanup\<close> (\<^verbatim>\<open>internal/shim/lifecycle\<close>): the shim's state machine, and the orchestrator that
    runs cleanup functions in order. At most one creation runs at a time; every cleanup function runs once, in order,
    and no error is lost.
  \<^item> \<open>Vm_Resources\<close> (\<^verbatim>\<open>internal/shim/resources/config.go\<close>): the VM's resources, their bounds and alignment.
  \<^item> \<open>Cpu_Hotplug\<close>, \<open>Mem_Hotplug\<close> (\<^verbatim>\<open>internal/shim/cpuhotplug\<close>, \<^verbatim>\<open>memhotplug\<close>): the hotplug controllers; their limits,
    cooldowns and slots.
  \<^item> \<open>Vsock_Alloc\<close> (\<^verbatim>\<open>internal/vsock/allocator.go\<close>): leases of vsock context identifiers, distinct while outstanding.
  \<^item> \<open>Qemu_Command\<close>, \<open>Vsock_Dial\<close>, \<open>Qemu_Instance\<close>, \<open>Qemu_Handles\<close>, \<open>Qemu_Frame\<close> (\<^verbatim>\<open>internal/host/vm/qemu\<close>): the command
    lines, the connections to the guest, and the life cycle of the QEMU process. Starting is all or nothing, shutting down
    gives up every handle, the loops end, and what the guest reads from its command line is what the shim wrote.
  \<^item> \<open>Vm_Manager\<close>, \<open>Conn_Manager\<close> (\<^verbatim>\<open>internal/shim/lifecycle/vm.go\<close>, \<^verbatim>\<open>internal/shim/task/connmanager.go\<close>): the owner of the
    VM and the cache of the connection to the guest's task service.
  \<^item> \<open>Mount_Util\<close>, \<open>Rootfs_Mounts\<close>, \<open>Oci_Bundle\<close>, \<open>Supervisor_Agent\<close>: the root file system, the bundle and the supervisor agent,
    each from the host's side to the guest's side, with theorems that the two sides agree.
  \<^item> \<open>Shim_Network\<close> (\<^verbatim>\<open>internal/shim/platform/network/linux.go\<close>): attaching the VM to the network. \<open>Cni_Setup\<close> and
    \<open>Net_Manager\<close> (\<^verbatim>\<open>internal/host/network\<close>): the manager behind it, from the namespace and the plugin chain to the cache of
    results, with theorems that no namespace is leaked and that attaching is all or nothing. \<open>Net_Inflight\<close>: its goroutines.
  \<^item> \<open>Shim_Task\<close> (\<^verbatim>\<open>internal/shim/task/service.go\<close>, \<^verbatim>\<open>create.go\<close>): the shim's task service, composed of the components
    above. \<open>Task_Create\<close> shows that \<open>Create\<close> is all or nothing, \<open>Task_Refinement\<close> that the service refines an
    abstract one-shot task, \<open>Task_Lifecycle\<close> that no resource of a container is leaked.
  \<^item> \<open>Guest_Process\<close>, \<open>Exit_Tracker\<close> (\<^verbatim>\<open>internal/guest/vminit/process\<close>, \<^verbatim>\<open>task\<close>): the processes in the guest and the
    order in which their exits are published.

  \<^bold>\<open>How state and effects are modelled.\<close> A struct is a record and a method a function from the record to the updated one.
  A method that holds its mutex throughout is one step; where two critical sections of a method can be
  interleaved, they are separate steps. The operating system, QEMU, the OCI runtime, CNI and the RPC peers are records of functions
  over an arbitrary world \<open>'w\<close>, so a theorem holds whatever they answer. Where a property speaks about what was
  called, it runs the same code in an environment that records the calls (\<open>trackedOs\<close>, \<open>loggedOs\<close>, \<open>loggedMounts\<close>, \<open>loggedFs\<close>,
  \<open>loggedEnv\<close>). Contexts and log calls do not affect results and are left out.

  \<^bold>\<open>Loops and bounds.\<close> There is no fuel. A loop over data is a recursive function. A loop that could run
  forever is \<open>forLoop\<close> (or another partial function), whose value is \<open>None\<close> when it does, and the theorems state that it
  returns. The retry loops return because the clock goes on, which \<open>clockOk\<close> and \<open>osClockOk\<close> state of the environment:
  no call turns the clock back and sleeping lasts as long as asked.

  \<^bold>\<open>Not modelled.\<close> Generated protocol code and service registration; the loops that copy bytes of standard I/O; the
  guest's system initialisation and device discovery, which are sequences of system calls; command-line entry points;
  metrics and debugging dumps; the stubs for other operating systems.
\<close>

end
